(* ===== verification/Prelude.thy ===== *)
theory Prelude
  imports Main "HOL-Library.Word" "HOL-Library.Mapping"
begin

text \<open>
  Shared vocabulary of the namex (goflare) development: the error values that the
  Go code returns or raises, the fault oracles that decide when an external service
  (Postgres, Redis, ClickHouse) answers a call with an error, and the generic lemmas
  on lists, options and fault lists that the component theories rely on.
  The collections \<open>model_simps\<close> (equations of the model's operations at the
  shapes the proofs meet) and \<open>model_invs\<close> (one-step invariant facts) are filled
  by the component theories.
\<close>

named_theorems model_simps "equations of the model's operations used by component proofs"
named_theorems model_invs "facts that an operation keeps a component's invariant"

subsection \<open>Types of the model\<close>

text \<open>
  Go's \<open>int\<close> and \<open>int64\<close> values are modelled as \<open>int\<close> where the code never reaches
  their width; where it does (the Redis counter, the \<open>int32\<close> columns of the analytics
  store) the width is written out. Wall-clock time (\<open>time.Time\<close>) is a number of
  seconds since an arbitrary origin.
\<close>

type_synonym go_int = int
type_synonym go_time = nat

text \<open>
  One datatype for every error the components pass around. \<open>Panic\<close> is a Go
  run-time panic (for instance a send on a closed channel): the model turns it into
  an error value so that the branch that panics is visible.
\<close>

text \<open>The reasons \<open>net.SplitHostPort\<close> gives for rejecting an address.\<close>

datatype addr_why =
    MissingPort
  | TooManyColons
  | MissingRBracket
  | UnexpectedLBracket
  | UnexpectedRBracket

datatype go_error =
    PgError
  | RedisError
  | RedisOverflow
  | ClickHouseError
  | AddrError addr_why
  | ValidationError string
  | Panic string

subsection \<open>Fault oracles\<close>

text \<open>
  A call to an external service can fail for reasons outside the program (network,
  a restarting server). The model gives each service a list of booleans, consumed one
  per call (\<open>fault_now\<close> reads the head, \<^const>\<open>tl\<close> consumes it): \<open>True\<close>
  makes that call fail. An empty list means that every further call
  succeeds. Every theorem about a failing or succeeding call states which faults it
  assumes, so nothing about the service's reliability is hidden.
\<close>

type_synonym faults = "bool list"

fun fault_now :: "faults \<Rightarrow> bool" where
  "fault_now [] = False"
| "fault_now (f # _) = f"

definition fault_free :: "faults \<Rightarrow> bool" where
  "fault_free fs \<longleftrightarrow> True \<notin> set fs"

lemma fault_free_Nil [simp]: "fault_free []"
  by (simp add: fault_free_def)

lemma fault_free_now [simp]: "fault_free fs \<Longrightarrow> \<not> fault_now fs"
  by (cases fs) (auto simp: fault_free_def)

lemma fault_free_tl [simp]: "fault_free fs \<Longrightarrow> fault_free (tl fs)"
  by (cases fs) (auto simp: fault_free_def)

lemma fault_free_replicate [simp]: "fault_free (replicate n False)"
  by (simp add: fault_free_def)

subsection \<open>First match in a list\<close>

text \<open>
  Several loops of the source return the first element of a list that satisfies a
  test (\<open>for _, r := range rules { if ... { return ... } }\<close>). The model writes each
  such loop as its own recursive function and relates it to \<^const>\<open>List.find\<close>;
  these are the facts about \<^const>\<open>List.find\<close> those proofs share.
\<close>

lemma find_SomeD [dest]:
  "List.find P xs = Some x \<Longrightarrow> x \<in> set xs \<and> P x"
  by (auto simp: find_Some_iff)

lemma find_append_first:
  "(\<forall>y\<in>set ys. \<not> P y) \<Longrightarrow> P x \<Longrightarrow> List.find P (ys @ x # zs) = Some x"
  by (induction ys) auto

lemma find_append_skip:
  "(\<forall>y\<in>set ys. \<not> P y) \<Longrightarrow> List.find P (ys @ zs) = List.find P zs"
  by (induction ys) auto

text \<open>A separator absent from both prefixes splits a list in one way only.\<close>

lemma append_sep_eq:
  "x \<notin> set xs \<Longrightarrow> x \<notin> set xs' \<Longrightarrow> xs @ x # ys = xs' @ x # ys' \<Longrightarrow> xs = xs' \<and> ys = ys'"
proof (induction xs arbitrary: xs')
  case Nil
  then show ?case by (cases xs') auto
next
  case (Cons a xs)
  then show ?case by (cases xs') auto
qed

end
