(* ===== verification/GoLib.thy ===== *)
theory GoLib
  imports Prelude
begin

text \<open>
  The behaviour of the Go standard library functions the program calls on strings:
  decimal formatting of integers (\<open>fmt.Sprintf("%d")\<close>), host/port splitting
  (\<open>net.SplitHostPort\<close>, with its inverse \<open>net.JoinHostPort\<close>), \<open>strings.ToLower\<close> and
  \<open>strings.TrimSuffix\<close>. None of this code is in the repository; it is modelled from
  the library's documented behaviour (for \<open>SplitHostPort\<close>, from its implementation
  in \<open>net/ipsock.go\<close>, which fixes the error cases). Strings are byte strings, as Go's
  are.
\<close>

subsection \<open>Decimal formatting\<close>

definition digit_char :: "nat \<Rightarrow> char" where
  "digit_char d = ''0123456789'' ! d"

definition digit_val :: "char \<Rightarrow> nat" where
  "digit_val c = of_char c - 48"

definition is_digit :: "char \<Rightarrow> bool" where
  "is_digit c \<longleftrightarrow> 48 \<le> (of_char c :: nat) \<and> (of_char c :: nat) \<le> 57"

fun dec_digits :: "nat \<Rightarrow> string" where
  "dec_digits n = (if n < 10 then [digit_char n] else dec_digits (n div 10) @ [digit_char (n mod 10)])"

declare dec_digits.simps [simp del]

text \<open>\<open>fmt.Sprintf("%d", i)\<close> and \<open>strconv.Itoa\<close>: a minus sign, then the digits of the magnitude.\<close>

definition go_itoa :: "int \<Rightarrow> string" where
  "go_itoa i = (if i < 0 then CHR ''-'' # dec_digits (nat (- i)) else dec_digits (nat i))"

text \<open>The inverse used by the proofs: read the digits back.\<close>

definition dec_value :: "string \<Rightarrow> nat" where
  "dec_value s = foldl (\<lambda>acc c. 10 * acc + digit_val c) 0 s"

definition parse_go_int :: "string \<Rightarrow> int" where
  "parse_go_int s = (case s of c # ds \<Rightarrow> if c = CHR ''-'' then - int (dec_value ds) else int (dec_value s)
                            | [] \<Rightarrow> 0)"

lemma digit_char_props:
  assumes "d < 10"
  shows "digit_val (digit_char d) = d" and "is_digit (digit_char d)"
proof -
  have "d \<in> {0, 1, 2, 3, 4, 5, 6, 7, 8, 9}" using assms by auto
  then show "digit_val (digit_char d) = d" and "is_digit (digit_char d)"
    by (auto simp: digit_char_def digit_val_def is_digit_def)
qed

lemma dec_digits_digits: "c \<in> set (dec_digits n) \<Longrightarrow> is_digit c"
proof (induction n rule: dec_digits.induct)
  case (1 n)
  then show ?case
    by (subst (asm) dec_digits.simps) (auto split: if_splits simp: digit_char_props)
qed

lemma dec_digits_not_Nil [simp]: "dec_digits n \<noteq> []"
  by (subst dec_digits.simps) simp

lemma dec_value_snoc: "dec_value (s @ [c]) = 10 * dec_value s + digit_val c"
  by (simp add: dec_value_def)

lemma dec_value_dec_digits [simp]: "dec_value (dec_digits n) = n"
proof (induction n rule: dec_digits.induct)
  case (1 n)
  show ?case
  proof (cases "n < 10")
    case True
    then show ?thesis
      by (subst dec_digits.simps) (simp add: dec_value_def digit_char_props)
  next
    case False
    then have "dec_value (dec_digits n) = 10 * (n div 10) + n mod 10"
      using "1.IH" by (subst dec_digits.simps) (simp add: dec_value_snoc digit_char_props)
    then show ?thesis by simp
  qed
qed

lemma digit_not_minus: "is_digit c \<Longrightarrow> c \<noteq> CHR ''-''"
  by (auto simp: is_digit_def)

lemma digit_not_colon: "is_digit c \<Longrightarrow> c \<noteq> CHR '':''"
  by (auto simp: is_digit_def)

lemma colon_notin_go_itoa [simp]: "CHR '':'' \<notin> set (go_itoa i)"
proof -
  have "CHR '':'' \<notin> set (dec_digits n)" for n
    using dec_digits_digits digit_not_colon by blast
  then show ?thesis by (simp add: go_itoa_def)
qed

lemma parse_go_int_go_itoa [simp]: "parse_go_int (go_itoa i) = i"
proof (cases "i < 0")
  case True
  then show ?thesis by (simp add: go_itoa_def parse_go_int_def)
next
  case False
  obtain c ds where cd: "dec_digits (nat i) = c # ds"
    by (cases "dec_digits (nat i)") auto
  then have "is_digit c" using dec_digits_digits by (metis list.set_intros(1))
  then have "c \<noteq> CHR ''-''" by (rule digit_not_minus)
  with cd have "parse_go_int (dec_digits (nat i)) = int (dec_value (dec_digits (nat i)))"
    by (simp add: parse_go_int_def)
  with False show ?thesis by (simp add: go_itoa_def)
qed

lemma go_itoa_inj: "go_itoa i = go_itoa j \<Longrightarrow> i = j"
  by (metis parse_go_int_go_itoa)

subsection \<open>Host and port\<close>

text \<open>\<open>bytealg.IndexByteString\<close> and \<open>LastIndexByteString\<close>: positions of a byte.\<close>

fun index_of :: "char \<Rightarrow> string \<Rightarrow> nat option" where
  "index_of c [] = None"
| "index_of c (x # xs) = (if x = c then Some 0 else map_option Suc (index_of c xs))"

definition last_index_of :: "char \<Rightarrow> string \<Rightarrow> nat option" where
  "last_index_of c s = map_option (\<lambda>j. length s - 1 - j) (index_of c (rev s))"

text \<open>
  The tail of \<open>SplitHostPort\<close>: no stray bracket after the positions \<open>j\<close> and \<open>k\<close>,
  then the port is everything after the last colon \<open>i\<close>.
\<close>

definition split_tail :: "string \<Rightarrow> string \<Rightarrow> nat \<Rightarrow> nat \<Rightarrow> nat \<Rightarrow> go_error + string \<times> string" where
  "split_tail hp host j k i =
     (if CHR ''['' \<in> set (drop j hp) then Inl (AddrError UnexpectedLBracket)
      else if CHR '']'' \<in> set (drop k hp) then Inl (AddrError UnexpectedRBracket)
      else Inr (host, drop (Suc i) hp))"

text \<open>\<open>net.SplitHostPort(hostport) (host, port string, err error)\<close>.\<close>

definition split_host_port :: "string \<Rightarrow> go_error + string \<times> string" where
  "split_host_port hp =
     (case last_index_of CHR '':'' hp of
        None \<Rightarrow> Inl (AddrError MissingPort)
      | Some i \<Rightarrow>
          if hd hp = CHR ''[''
          then (case index_of CHR '']'' hp of
                  None \<Rightarrow> Inl (AddrError MissingRBracket)
                | Some e \<Rightarrow>
                    if Suc e = length hp then Inl (AddrError MissingPort)
                    else if Suc e = i then split_tail hp (take (e - 1) (drop 1 hp)) 1 (Suc e) i
                    else if hp ! Suc e = CHR '':'' then Inl (AddrError TooManyColons)
                    else Inl (AddrError MissingPort))
          else (let host = take i hp in
                if CHR '':'' \<in> set host then Inl (AddrError TooManyColons)
                else split_tail hp host 0 0 i))"

text \<open>\<open>net.JoinHostPort(host, port)\<close>: brackets around a host that holds a colon.\<close>

definition join_host_port :: "string \<Rightarrow> string \<Rightarrow> string" where
  "join_host_port host port =
     (if CHR '':'' \<in> set host then CHR ''['' # host @ CHR '']'' # CHR '':'' # port
      else host @ CHR '':'' # port)"

text \<open>The code's idiom \<open>h, _, _ := net.SplitHostPort(a)\<close>: the host, or \<open>""\<close> on an error.\<close>

definition host_or_empty :: "string \<Rightarrow> string" where
  "host_or_empty a = (case split_host_port a of Inl _ \<Rightarrow> [] | Inr (h, _) \<Rightarrow> h)"

text \<open>The idiom \<open>if h, _, err := net.SplitHostPort(a); err == nil { a = h }\<close>.\<close>

definition host_or_self :: "string \<Rightarrow> string" where
  "host_or_self a = (case split_host_port a of Inl _ \<Rightarrow> a | Inr (h, _) \<Rightarrow> h)"

lemma index_of_None [simp]: "index_of c xs = None \<longleftrightarrow> c \<notin> set xs"
  by (induction xs) auto

lemma index_of_SomeD: "index_of c xs = Some j \<Longrightarrow> c \<in> set xs"
  by (induction xs arbitrary: j) (auto split: if_splits)

lemma index_of_append_notin:
  "c \<notin> set xs \<Longrightarrow>
   index_of c (xs @ ys) = (case index_of c ys of None \<Rightarrow> None | Some j \<Rightarrow> Some (length xs + j))"
  by (induction xs) (auto split: option.splits dest: index_of_SomeD)

lemma index_of_hit: "c \<notin> set xs \<Longrightarrow> index_of c (xs @ c # ys) = Some (length xs)"
  by (simp add: index_of_append_notin)

lemma last_index_of_hit:
  "c \<notin> set ys \<Longrightarrow> last_index_of c (xs @ c # ys) = Some (length xs)"
  by (simp add: last_index_of_def index_of_append_notin)

text \<open>Splitting what \<open>JoinHostPort\<close> built gives the host and port back.\<close>

lemma split_join_host_port:
  assumes "CHR ''['' \<notin> set host" and "CHR '']'' \<notin> set host"
    and "CHR '':'' \<notin> set port" and "CHR ''['' \<notin> set port" and "CHR '']'' \<notin> set port"
  shows "split_host_port (join_host_port host port) = Inr (host, port)"
proof (cases "CHR '':'' \<in> set host")
  case True
  let ?hp = "CHR ''['' # host @ CHR '']'' # CHR '':'' # port"
  have li: "last_index_of CHR '':'' ?hp = Some (Suc (Suc (length host)))"
    using last_index_of_hit [of "CHR '':''" port "CHR ''['' # host @ [CHR '']'']"] assms
    by simp
  have ri: "index_of CHR '']'' ?hp = Some (Suc (length host))"
    using index_of_hit [of "CHR '']''" "CHR ''['' # host" "CHR '':'' # port"] assms by simp
  show ?thesis
    using True assms li ri
    by (simp add: join_host_port_def split_host_port_def split_tail_def)
next
  case False
  let ?hp = "host @ CHR '':'' # port"
  have li: "last_index_of CHR '':'' ?hp = Some (length host)"
    using last_index_of_hit [of "CHR '':''" port host] assms by simp
  have "hd ?hp \<noteq> CHR ''[''"
    using assms by (cases host) auto
  then show ?thesis
    using False assms li
    by (simp add: join_host_port_def split_host_port_def split_tail_def)
qed

text \<open>
  The client IP the engine and the DNS server extract from a remote address
  (\<open>clientIP, _, _ := net.SplitHostPort(addr)\<close>) is exactly the host the address was
  joined from, for every host without brackets (an IPv6 literal included, which the
  join brackets) and every port without colons or brackets; the same holds for the
  port-stripping of the Host header (\<open>host_or_self\<close>).
\<close>

lemma client_ip_of_join:
  assumes "CHR ''['' \<notin> set host" and "CHR '']'' \<notin> set host"
    and "CHR '':'' \<notin> set port" and "CHR ''['' \<notin> set port" and "CHR '']'' \<notin> set port"
  shows "host_or_empty (join_host_port host port) = host \<and> host_or_self (join_host_port host port) = host"
  using split_join_host_port [OF assms] by (simp add: host_or_empty_def host_or_self_def)

text \<open>The round trip at an IPv6 literal, which the join brackets.\<close>

lemma client_ip_of_join_ipv6:
  "CHR ''['' \<notin> set ''::1'' \<and> CHR '']'' \<notin> set ''::1'' \<and> CHR '':'' \<notin> set ''53''
   \<and> CHR ''['' \<notin> set ''53'' \<and> CHR '']'' \<notin> set ''53''
   \<and> host_or_empty (join_host_port ''::1'' ''53'') = ''::1''
   \<and> host_or_self (join_host_port ''::1'' ''53'') = ''::1''"
  using client_ip_of_join [of "''::1''" "''53''"] by simp

subsection \<open>Case and suffixes\<close>

text \<open>\<open>strings.ToLower\<close> on ASCII letters (host names are ASCII).\<close>

definition lower_char :: "char \<Rightarrow> char" where
  "lower_char c = (if 65 \<le> (of_char c :: nat) \<and> (of_char c :: nat) \<le> 90 then char_of (of_char c + (32 :: nat)) else c)"

definition to_lower :: "string \<Rightarrow> string" where
  "to_lower s = map lower_char s"

definition trim_suffix :: "string \<Rightarrow> string \<Rightarrow> string" where
  "trim_suffix s suf =
     (if length suf \<le> length s \<and> drop (length s - length suf) s = suf then take (length s - length suf) s else s)"

subsection \<open>Decimal parsing\<close>

text \<open>
  \<open>strconv.Atoi\<close> (64-bit \<open>int\<close>): an optional sign, then one or more decimal digits,
  whose value must fit in 64 bits; anything else is an error (\<open>None\<close>).
\<close>

definition go_atoi :: "string \<Rightarrow> int option" where
  "go_atoi s =
     (let (neg, ds) = (case s of
                         c # r \<Rightarrow> if c = CHR ''-'' then (True, r) else if c = CHR ''+'' then (False, r) else (False, s)
                       | [] \<Rightarrow> (False, []));
          v = (if neg then - int (dec_value ds) else int (dec_value ds)) in
      if ds \<noteq> [] \<and> list_all is_digit ds \<and> - (2 ^ 63) \<le> v \<and> v < 2 ^ 63 then Some v else None)"

lemma digit_not_plus: "is_digit c \<Longrightarrow> c \<noteq> CHR ''+''"
  by (auto simp: is_digit_def)

lemma list_all_digits_dec_digits [simp]: "list_all is_digit (dec_digits n)"
  using dec_digits_digits by (simp add: list_all_iff)

lemma go_atoi_go_itoa:
  assumes "- (2 ^ 63) \<le> i" and "i < 2 ^ 63"
  shows "go_atoi (go_itoa i) = Some i"
proof (cases "i < 0")
  case True
  with assms show ?thesis by (simp add: go_itoa_def go_atoi_def)
next
  case False
  obtain c ds where cd: "dec_digits (nat i) = c # ds"
    by (cases "dec_digits (nat i)") auto
  then have "is_digit c" using dec_digits_digits by (metis list.set_intros(1))
  then have "c \<noteq> CHR ''-''" and "c \<noteq> CHR ''+''" by (simp_all add: digit_not_minus digit_not_plus)
  then have "go_atoi (c # ds) =
      (if list_all is_digit (c # ds) \<and> - (2 ^ 63) \<le> int (dec_value (c # ds)) \<and> int (dec_value (c # ds)) < 2 ^ 63
       then Some (int (dec_value (c # ds))) else None)"
    by (simp add: go_atoi_def)
  then have "go_atoi (dec_digits (nat i)) =
      (if - (2 ^ 63) \<le> int (nat i) \<and> int (nat i) < 2 ^ 63 then Some (int (nat i)) else None)"
    by (simp only: cd [symmetric] dec_value_dec_digits list_all_digits_dec_digits simp_thms)
  with False assms show ?thesis by (simp add: go_itoa_def)
qed

end
