(* ===== verification/Redis.thy ===== *)
theory Redis
  imports Prelude
begin

text \<open>
  The Redis counter store the rate limiter uses (\<open>github.com/redis/go-redis\<close>, called
  from \<open>src/internal/engine/engine.go\<close>). Redis is not part of the repository: the two
  commands the engine sends are modelled from their documented semantics.
  \<^item> \<open>INCR key\<close>: a missing or expired key counts as 0; the new value is returned; a
    new key has no expiry; an existing key keeps its expiry; incrementing \<open>2^63 - 1\<close>
    is an error ("increment or decrement would overflow").
  \<^item> \<open>EXPIRE key seconds\<close>: sets the key's expiry to \<open>now + seconds\<close> and answers 1,
    or answers 0 when the key does not exist.
  Expired keys are deleted lazily by Redis, so a key is live exactly when it has no
  expiry or its expiry lies in the future. Every command first consumes one entry of the
  store's fault oracle (a network or server failure), read by \<^const>\<open>fault_now\<close>.
\<close>

record redis_entry =
  rval :: int
  rexp :: "go_time option"

record redis =
  rstore :: "(string, redis_entry) mapping"
  rnow :: go_time
  rfaults :: faults

definition int64_max :: int where
  "int64_max = 2 ^ 63 - 1"

text \<open>An entry is live while it has no expiry or its expiry lies in the future.\<close>

definition entry_live :: "go_time \<Rightarrow> redis_entry \<Rightarrow> redis_entry option" where
  "entry_live now e = (case rexp e of None \<Rightarrow> Some e | Some t \<Rightarrow> if now < t then Some e else None)"

definition live_entry :: "redis \<Rightarrow> string \<Rightarrow> redis_entry option" where
  "live_entry r k = Option.bind (Mapping.lookup (rstore r) k) (entry_live (rnow r))"

definition set_entry :: "redis \<Rightarrow> string \<Rightarrow> redis_entry \<Rightarrow> redis" where
  "set_entry r k e = r\<lparr>rstore := Mapping.update k e (rstore r)\<rparr>"

text \<open>The commands on a server that answers.\<close>

definition incr_ok :: "redis \<Rightarrow> string \<Rightarrow> (go_error + int) \<times> redis" where
  "incr_ok r k =
     (case live_entry r k of
        None \<Rightarrow> (Inr 1, set_entry r k \<lparr>rval = 1, rexp = None\<rparr>)
      | Some e \<Rightarrow>
          if rval e = int64_max then (Inl RedisOverflow, r)
          else (Inr (rval e + 1), set_entry r k (e\<lparr>rval := rval e + 1\<rparr>)))"

definition expire_ok :: "redis \<Rightarrow> string \<Rightarrow> go_time \<Rightarrow> (go_error + bool) \<times> redis" where
  "expire_ok r k secs =
     (case live_entry r k of
        None \<Rightarrow> (Inr False, r)
      | Some e \<Rightarrow> (Inr True, set_entry r k (e\<lparr>rexp := Some (rnow r + secs)\<rparr>)))"

text \<open>The commands as the client sends them: the call consumes one fault first.\<close>

definition redis_incr :: "redis \<Rightarrow> string \<Rightarrow> (go_error + int) \<times> redis" where
  "redis_incr r k =
     (let r1 = r\<lparr>rfaults := tl (rfaults r)\<rparr> in
      if fault_now (rfaults r) then (Inl RedisError, r1) else incr_ok r1 k)"

definition redis_expire :: "redis \<Rightarrow> string \<Rightarrow> go_time \<Rightarrow> (go_error + bool) \<times> redis" where
  "redis_expire r k secs =
     (let r1 = r\<lparr>rfaults := tl (rfaults r)\<rparr> in
      if fault_now (rfaults r) then (Inl RedisError, r1) else expire_ok r1 k secs)"

text \<open>Time passing between requests: the environment's step, not a command.\<close>

definition redis_advance :: "redis \<Rightarrow> go_time \<Rightarrow> redis" where
  "redis_advance r d = r\<lparr>rnow := rnow r + d\<rparr>"

subsection \<open>Facts about single commands\<close>

lemma live_entry_faults [simp]: "live_entry (r\<lparr>rfaults := fs\<rparr>) k = live_entry r k"
  by (simp add: live_entry_def)

lemma live_entry_set_entry [simp]:
  "live_entry (set_entry r k e) k' = (if k' = k then entry_live (rnow r) e else live_entry r k')"
  by (simp add: live_entry_def set_entry_def lookup_update lookup_update_neq)

lemma set_entry_now [simp]: "rnow (set_entry r k e) = rnow r"
  by (simp add: set_entry_def)

lemma set_entry_faults [simp]: "rfaults (set_entry r k e) = rfaults r"
  by (simp add: set_entry_def)

lemma redis_incr_now [simp]: "rnow (snd (redis_incr r k)) = rnow r"
  by (simp add: redis_incr_def incr_ok_def Let_def split: option.splits)

lemma redis_expire_now [simp]: "rnow (snd (redis_expire r k t)) = rnow r"
  by (simp add: redis_expire_def expire_ok_def Let_def split: option.splits)

lemma redis_incr_faults [simp]: "rfaults (snd (redis_incr r k)) = tl (rfaults r)"
  by (simp add: redis_incr_def incr_ok_def Let_def split: option.splits)

lemma redis_expire_faults [simp]: "rfaults (snd (redis_expire r k t)) = tl (rfaults r)"
  by (simp add: redis_expire_def expire_ok_def Let_def split: option.splits)

lemma redis_incr_other [model_simps]:
  "k' \<noteq> k \<Longrightarrow> live_entry (snd (redis_incr r k)) k' = live_entry r k'"
  by (simp add: redis_incr_def incr_ok_def Let_def split: option.splits)

lemma redis_expire_other [model_simps]:
  "k' \<noteq> k \<Longrightarrow> live_entry (snd (redis_expire r k t)) k' = live_entry r k'"
  by (simp add: redis_expire_def expire_ok_def Let_def split: option.splits)

lemma redis_incr_fault [model_simps]:
  "fault_now (rfaults r) \<Longrightarrow> redis_incr r k = (Inl RedisError, r\<lparr>rfaults := tl (rfaults r)\<rparr>)"
  by (simp add: redis_incr_def)

lemma redis_incr_up [model_simps]:
  "\<not> fault_now (rfaults r) \<Longrightarrow> redis_incr r k = incr_ok (r\<lparr>rfaults := tl (rfaults r)\<rparr>) k"
  by (simp add: redis_incr_def)

lemma redis_expire_up [model_simps]:
  "\<not> fault_now (rfaults r) \<Longrightarrow> redis_expire r k t = expire_ok (r\<lparr>rfaults := tl (rfaults r)\<rparr>) k t"
  by (simp add: redis_expire_def)

lemma set_entry_twice [simp]: "set_entry (set_entry r k e1) k e2 = set_entry r k e2"
  by (simp add: set_entry_def Mapping.update_update)

lemma set_entry_faults_swap [simp]:
  "(set_entry r k e)\<lparr>rfaults := fs\<rparr> = set_entry (r\<lparr>rfaults := fs\<rparr>) k e"
  by (simp add: set_entry_def)

lemma live_entry_SomeD: "live_entry r k = Some e \<Longrightarrow> entry_live (rnow r) e = Some e"
  by (cases "Mapping.lookup (rstore r) k")
    (auto simp: live_entry_def entry_live_def split: option.splits if_splits)

lemma entry_live_rval [simp]:
  "entry_live now e = Some e \<Longrightarrow> entry_live now (e\<lparr>rval := v\<rparr>) = Some (e\<lparr>rval := v\<rparr>)"
  by (simp add: entry_live_def split: option.splits if_splits)

lemma redis_advance_faults [simp]: "rfaults (redis_advance r d) = rfaults r"
  by (simp add: redis_advance_def)

lemma live_entry_advance_expires:
  assumes "live_entry r k = Some e" and "rexp e = Some t" and "t \<le> rnow r + d"
  shows "live_entry (redis_advance r d) k = None"
proof (cases "Mapping.lookup (rstore r) k")
  case None
  then show ?thesis by (simp add: live_entry_def redis_advance_def)
next
  case (Some e0)
  with assms(1) have "e0 = e"
    by (auto simp: live_entry_def entry_live_def split: option.splits if_splits)
  with Some assms(2,3) show ?thesis
    by (simp add: live_entry_def redis_advance_def entry_live_def)
qed

lemma live_entry_advance_live:
  assumes "live_entry r k = Some e" and "case rexp e of None \<Rightarrow> True | Some t \<Rightarrow> rnow r + d < t"
  shows "live_entry (redis_advance r d) k = Some e"
proof (cases "Mapping.lookup (rstore r) k")
  case None
  with assms(1) show ?thesis by (simp add: live_entry_def)
next
  case (Some e0)
  with assms(1) have "e0 = e"
    by (auto simp: live_entry_def entry_live_def split: option.splits if_splits)
  with Some assms(2) show ?thesis
    by (simp add: live_entry_def redis_advance_def entry_live_def split: option.splits)
qed

lemma live_entry_advance_None:
  "live_entry r k = None \<Longrightarrow> live_entry (redis_advance r d) k = None"
  by (cases "Mapping.lookup (rstore r) k")
    (auto simp: live_entry_def redis_advance_def entry_live_def split: option.splits if_splits)

end
