(* ===== verification/Store.thy ===== *)
theory Store
  imports Prelude
begin

text \<open>
  The relational store behind the site resolver and the rule provider:
  \<open>src/internal/domain/repository.go\<close> and \<open>src/internal/bot/repository.go\<close>
  (the SQL repositories), \<open>src/internal/domain/handler.go\<close> and
  \<open>src/internal/bot/handler.go\<close> (the services that validate before writing).
  The Postgres database is a record of its tables, each a list of rows in insertion
  order, with a serial counter per table and a fault oracle consumed by every query.
  The \<open>Repository\<close> interfaces are records of operations over an implementation's
  state; the services hold one and are defined for any implementation, and
  \<open>domain_repo_sound\<close> is the contract the domain service's lemmas assume, which the
  Postgres implementation discharges (\<open>pg_domain_repo_sound\<close>).
  The SQL schema is not in the repository; the model takes from the specification that
  domain names are unique and that ids and timestamps are assigned by the database.
\<close>

subsection \<open>Rows\<close>

text \<open>\<open>domain.Domain\<close>; \<open>Config\<close> is a \<open>json.RawMessage\<close>, \<open>None\<close> for Go's \<open>nil\<close>.\<close>

record domain =
  dom_id :: go_int
  dom_name :: string
  dom_target_url :: string
  dom_active :: bool
  dom_config :: "string option"
  dom_created_at :: go_time
  dom_updated_at :: go_time

text \<open>\<open>bot.BotRule\<close>.\<close>

record bot_rule =
  rule_id :: go_int
  rule_type :: string
  rule_value :: string
  rule_action :: string
  rule_description :: string
  rule_created_at :: go_time

text \<open>\<open>dns.Record\<close>, a custom zone record.\<close>

record dns_record =
  rec_id :: go_int
  rec_domain_id :: go_int
  rec_type :: string
  rec_name :: string
  rec_content :: string
  rec_ttl :: go_int
  rec_priority :: go_int
  rec_created_at :: go_time

record pg =
  pg_domains :: "domain list"
  pg_rules :: "bot_rule list"
  pg_records :: "dns_record list"
  pg_domain_seq :: go_int
  pg_rule_seq :: go_int
  pg_now :: go_time
  pg_faults :: faults
  pg_cuts :: "nat option list"

text \<open>
  Every query consumes one entry of each oracle: \<open>pg_faults\<close> says whether the query
  fails with an error, \<open>pg_cuts\<close> whether the row stream of a multi-row query breaks
  off after \<open>k\<close> rows (\<open>Some k\<close>). \<open>rows.Next()\<close> then returns false, and since the
  loops of the \<open>GetAll\<close>-style queries never check \<open>rows.Err()\<close>, they return the
  rows read so far with a \<open>nil\<close> error (\<open>rows_read\<close>).
\<close>

definition pg_call :: "pg \<Rightarrow> pg" where
  "pg_call db = db\<lparr>pg_faults := tl (pg_faults db), pg_cuts := tl (pg_cuts db)\<rparr>"

definition row_cut :: "nat option list \<Rightarrow> nat option" where
  "row_cut cs = (case cs of [] \<Rightarrow> None | c # _ \<Rightarrow> c)"

definition rows_read :: "nat option list \<Rightarrow> 'a list \<Rightarrow> 'a list" where
  "rows_read cs xs = (case row_cut cs of None \<Rightarrow> xs | Some k \<Rightarrow> take k xs)"

subsection \<open>Domain repository\<close>

text \<open>
  \<open>GetByName\<close>: \<open>QueryRow ... WHERE name = $1\<close> yields the first matching row;
  \<open>pgx.ErrNoRows\<close> becomes \<open>(nil, nil)\<close>, any other error is returned.
\<close>

definition domain_get_by_name :: "pg \<Rightarrow> string \<Rightarrow> (go_error + domain option) \<times> pg" where
  "domain_get_by_name db n =
     (if fault_now (pg_faults db) then (Inl PgError, pg_call db)
      else (Inr (List.find (\<lambda>d. dom_name d = n) (pg_domains db)), pg_call db))"

text \<open>
  \<open>Create\<close>: \<open>INSERT ... RETURNING id, created_at, updated_at\<close>; the database
  assigns the id and both timestamps, and refuses a second row with the same name.
\<close>

definition domain_create :: "pg \<Rightarrow> domain \<Rightarrow> (go_error + domain) \<times> pg" where
  "domain_create db d =
     (let db1 = pg_call db in
      if fault_now (pg_faults db) \<or> list_ex (\<lambda>x. dom_name x = dom_name d) (pg_domains db)
      then (Inl PgError, db1)
      else (let d' = d\<lparr>dom_id := pg_domain_seq db, dom_created_at := pg_now db,
                       dom_updated_at := pg_now db\<rparr>
            in (Inr d', db1\<lparr>pg_domains := pg_domains db @ [d'], pg_domain_seq := pg_domain_seq db + 1\<rparr>)))"

definition domain_get_all :: "pg \<Rightarrow> (go_error + domain list) \<times> pg" where
  "domain_get_all db =
     (if fault_now (pg_faults db) then (Inl PgError, pg_call db)
      else (Inr (rows_read (pg_cuts db) (pg_domains db)), pg_call db))"

definition domain_delete :: "pg \<Rightarrow> go_int \<Rightarrow> go_error option \<times> pg" where
  "domain_delete db i =
     (if fault_now (pg_faults db) then (Some PgError, pg_call db)
      else (None, (pg_call db)\<lparr>pg_domains := filter (\<lambda>d. dom_id d \<noteq> i) (pg_domains db)\<rparr>))"

subsection \<open>Bot rule repository\<close>

definition bot_create :: "pg \<Rightarrow> bot_rule \<Rightarrow> (go_error + bot_rule) \<times> pg" where
  "bot_create db r =
     (if fault_now (pg_faults db) then (Inl PgError, pg_call db)
      else (let r' = r\<lparr>rule_id := pg_rule_seq db, rule_created_at := pg_now db\<rparr>
            in (Inr r', (pg_call db)\<lparr>pg_rules := pg_rules db @ [r'], pg_rule_seq := pg_rule_seq db + 1\<rparr>)))"

text \<open>\<open>GetAll\<close>: \<open>SELECT ... FROM bot_rules\<close>, the rows in the order the table returns them.\<close>

definition bot_get_all :: "pg \<Rightarrow> (go_error + bot_rule list) \<times> pg" where
  "bot_get_all db =
     (if fault_now (pg_faults db) then (Inl PgError, pg_call db)
      else (Inr (rows_read (pg_cuts db) (pg_rules db)), pg_call db))"

definition bot_delete :: "pg \<Rightarrow> go_int \<Rightarrow> go_error option \<times> pg" where
  "bot_delete db i =
     (if fault_now (pg_faults db) then (Some PgError, pg_call db)
      else (None, (pg_call db)\<lparr>pg_rules := filter (\<lambda>r. rule_id r \<noteq> i) (pg_rules db)\<rparr>))"

subsection \<open>DNS record repository\<close>

text \<open>\<open>GetRecords\<close>: \<open>SELECT ... FROM dns_records WHERE domain_id = $1\<close>.\<close>

definition dns_get_records :: "pg \<Rightarrow> go_int \<Rightarrow> (go_error + dns_record list) \<times> pg" where
  "dns_get_records db i =
     (if fault_now (pg_faults db) then (Inl PgError, pg_call db)
      else (Inr (rows_read (pg_cuts db) (filter (\<lambda>r. rec_domain_id r = i) (pg_records db))), pg_call db))"

text \<open>
  \<open>GetRecordsByNameAndType\<close>: the records of the name and type joined with the
  active domain rows of their \<open>domain_id\<close>, one result row per matching pair, in
  table order (the query has no \<open>ORDER BY\<close>).
\<close>

definition dns_get_records_by_name_and_type ::
  "pg \<Rightarrow> string \<Rightarrow> string \<Rightarrow> (go_error + dns_record list) \<times> pg" where
  "dns_get_records_by_name_and_type db n t =
     (if fault_now (pg_faults db) then (Inl PgError, pg_call db)
      else (Inr (rows_read (pg_cuts db) (concat (map (\<lambda>r. concat (map (\<lambda>d. if rec_domain_id r = dom_id d \<and> rec_name r = n
                                                        \<and> rec_type r = t \<and> dom_active d then [r] else [])
                                            (pg_domains db)))
                            (pg_records db)))), pg_call db))"

subsection \<open>Repository interfaces\<close>

text \<open>
  \<open>domain.Repository\<close> and \<open>bot.Repository\<close>, the interfaces the services are built
  on, as records of operations over the implementation's state \<open>'s\<close>; each
  \<open>NewRepository(db)\<close> returns the Postgres implementation above.
\<close>

record 's domain_repository =
  dr_create :: "'s \<Rightarrow> domain \<Rightarrow> (go_error + domain) \<times> 's"
  dr_get_by_name :: "'s \<Rightarrow> string \<Rightarrow> (go_error + domain option) \<times> 's"
  dr_get_all :: "'s \<Rightarrow> (go_error + domain list) \<times> 's"
  dr_delete :: "'s \<Rightarrow> go_int \<Rightarrow> go_error option \<times> 's"

definition domain_new_repository :: "pg domain_repository" where
  "domain_new_repository =
     \<lparr>dr_create = domain_create, dr_get_by_name = domain_get_by_name,
      dr_get_all = domain_get_all, dr_delete = domain_delete\<rparr>"

record 's bot_repository =
  br_create :: "'s \<Rightarrow> bot_rule \<Rightarrow> (go_error + bot_rule) \<times> 's"
  br_get_all :: "'s \<Rightarrow> (go_error + bot_rule list) \<times> 's"
  br_delete :: "'s \<Rightarrow> go_int \<Rightarrow> go_error option \<times> 's"

definition bot_new_repository :: "pg bot_repository" where
  "bot_new_repository = \<lparr>br_create = bot_create, br_get_all = bot_get_all, br_delete = bot_delete\<rparr>"

subsection \<open>Services\<close>

text \<open>\<open>domain.Service\<close> holds its repository (\<open>NewService(repo)\<close>).\<close>

record 's domain_service =
  dsvc_repo :: "'s domain_repository"

definition domain_new_service :: "'s domain_repository \<Rightarrow> 's domain_service" where
  "domain_new_service repo = \<lparr>dsvc_repo = repo\<rparr>"

text \<open>\<open>CreateDomain\<close>: name and target are required; a missing config becomes \<open>{}\<close>.\<close>

definition create_domain :: "'s domain_service \<Rightarrow> 's \<Rightarrow> domain \<Rightarrow> (go_error + domain) \<times> 's" where
  "create_domain svc st d =
     (if dom_name d = [] \<or> dom_target_url d = []
      then (Inl (ValidationError ''name and target_url are required''), st)
      else dr_create (dsvc_repo svc) st (if dom_config d = None then d\<lparr>dom_config := Some ''{}''\<rparr> else d))"

text \<open>\<open>GetDomain\<close>, \<open>ListDomains\<close>: the repository calls.\<close>

definition get_domain :: "'s domain_service \<Rightarrow> 's \<Rightarrow> string \<Rightarrow> (go_error + domain option) \<times> 's" where
  "get_domain svc st n = dr_get_by_name (dsvc_repo svc) st n"

definition list_domains :: "'s domain_service \<Rightarrow> 's \<Rightarrow> (go_error + domain list) \<times> 's" where
  "list_domains svc st = dr_get_all (dsvc_repo svc) st"

text \<open>\<open>bot.Service\<close>, \<open>AddRule\<close> (type, value and action are required), \<open>ListRules\<close>.\<close>

record 's bot_service =
  bsvc_repo :: "'s bot_repository"

definition bot_new_service :: "'s bot_repository \<Rightarrow> 's bot_service" where
  "bot_new_service repo = \<lparr>bsvc_repo = repo\<rparr>"

definition add_rule :: "'s bot_service \<Rightarrow> 's \<Rightarrow> bot_rule \<Rightarrow> (go_error + bot_rule) \<times> 's" where
  "add_rule svc st r =
     (if rule_type r = [] \<or> rule_value r = [] \<or> rule_action r = []
      then (Inl (ValidationError ''rule_type, value, and action are required''), st)
      else br_create (bsvc_repo svc) st r)"

definition list_rules :: "'s bot_service \<Rightarrow> 's \<Rightarrow> (go_error + bot_rule list) \<times> 's" where
  "list_rules svc st = br_get_all (bsvc_repo svc) st"

text \<open>The services over the Postgres repositories.\<close>

definition pg_domain_service :: "pg domain_service" where
  "pg_domain_service = domain_new_service domain_new_repository"

definition pg_bot_service :: "pg bot_service" where
  "pg_bot_service = bot_new_service bot_new_repository"

subsection \<open>The admin API\<close>

text \<open>
  The routes the admin handlers register: \<open>POST /domains\<close> and \<open>GET /domains\<close>
  (\<open>domain.Handler\<close>), \<open>POST /bot/rules\<close> and \<open>GET /bot/rules\<close> (\<open>bot.Handler\<close>);
  each runs one service call. Here only the store matters; the handlers themselves,
  with decoding and answers, are in \<open>Admin\<close>.
\<close>

datatype admin_op = CreateDomainOp domain | ListDomainsOp | AddRuleOp bot_rule | ListRulesOp

fun admin_step :: "'s domain_service \<Rightarrow> 's bot_service \<Rightarrow> 's \<Rightarrow> admin_op \<Rightarrow> 's" where
  "admin_step ds bs st (CreateDomainOp d) = snd (create_domain ds st d)"
| "admin_step ds bs st ListDomainsOp = snd (list_domains ds st)"
| "admin_step ds bs st (AddRuleOp r) = snd (add_rule bs st r)"
| "admin_step ds bs st ListRulesOp = snd (list_rules bs st)"

definition admin_run :: "'s domain_service \<Rightarrow> 's bot_service \<Rightarrow> 's \<Rightarrow> admin_op list \<Rightarrow> 's" where
  "admin_run ds bs st ops = fold (\<lambda>op st. admin_step ds bs st op) ops st"

text \<open>
  The store invariant the services keep: every domain has a target and names are
  unique (the service refuses an empty target; the table refuses a second name).
\<close>

definition pg_inv :: "pg \<Rightarrow> bool" where
  "pg_inv db \<longleftrightarrow> list_all (\<lambda>d. dom_target_url d \<noteq> []) (pg_domains db) \<and> distinct (map dom_name (pg_domains db))"

text \<open>
  What the services need of a \<open>domain.Repository\<close>: it behaves as a table of domains
  (\<open>\<alpha>\<close> of its state) with unique names. A lookup answers the first row of the name, a
  listing a prefix of the table (all of it unless the row stream breaks off), an
  insert appends the row it returns, of a new name and with the
  given name and target; a failed call leaves the table as it was.
\<close>

definition domain_repo_sound :: "'s domain_repository \<Rightarrow> ('s \<Rightarrow> domain list) \<Rightarrow> bool" where
  "domain_repo_sound repo \<alpha> \<longleftrightarrow>
     (\<forall>st n. case dr_get_by_name repo st n of
        (res, st') \<Rightarrow> \<alpha> st' = \<alpha> st \<and>
          (case res of Inl _ \<Rightarrow> True | Inr r \<Rightarrow> r = List.find (\<lambda>d. dom_name d = n) (\<alpha> st)))
   \<and> (\<forall>st. case dr_get_all repo st of
        (res, st') \<Rightarrow> \<alpha> st' = \<alpha> st \<and>
          (case res of Inl _ \<Rightarrow> True | Inr ds \<Rightarrow> take (length ds) (\<alpha> st) = ds))
   \<and> (\<forall>st d. case dr_create repo st d of
        (Inl _, st') \<Rightarrow> \<alpha> st' = \<alpha> st
      | (Inr d', st') \<Rightarrow> \<alpha> st' = \<alpha> st @ [d'] \<and> dom_name d' = dom_name d
          \<and> dom_target_url d' = dom_target_url d \<and> (\<forall>x\<in>set (\<alpha> st). dom_name x \<noteq> dom_name d))"

subsection \<open>Facts the engine proofs use\<close>

lemma pg_call_rules [simp]: "pg_rules (pg_call db) = pg_rules db"
  by (simp add: pg_call_def)

lemma pg_call_domains [simp]: "pg_domains (pg_call db) = pg_domains db"
  by (simp add: pg_call_def)

lemma pg_call_faults [simp]: "pg_faults (pg_call db) = tl (pg_faults db)"
  by (simp add: pg_call_def)

lemma bot_get_all_state [simp]: "snd (bot_get_all db) = pg_call db"
  by (simp add: bot_get_all_def)

lemma pg_call_records [simp]: "pg_records (pg_call db) = pg_records db"
  by (simp add: pg_call_def)

lemma pg_call_cuts [simp]: "pg_cuts (pg_call db) = tl (pg_cuts db)"
  by (simp add: pg_call_def)

lemma rows_read_complete [simp]: "rows_read [] xs = xs" "rows_read (None # cs) xs = xs"
  by (simp_all add: rows_read_def row_cut_def)

lemma rows_read_subset: "set (rows_read cs xs) \<subseteq> set xs"
  by (auto simp: rows_read_def dest: in_set_takeD split: option.splits)

lemma rows_read_prefix: "take (length (rows_read cs xs)) xs = rows_read cs xs"
  by (auto simp: rows_read_def min_def split: option.splits)

lemma rows_read_Nil [simp]: "rows_read cs [] = []"
  by (simp add: rows_read_def split: option.splits)

lemma domain_get_by_name_state [simp]: "snd (domain_get_by_name db n) = pg_call db"
  by (simp add: domain_get_by_name_def)


subsection \<open>The domain repository and its services\<close>

text \<open>The Postgres repository implements the contract, with its domain table as \<open>\<alpha>\<close>.\<close>

lemma pg_domain_repo_sound: "domain_repo_sound domain_new_repository pg_domains"
  by (auto simp: domain_repo_sound_def domain_new_repository_def domain_get_by_name_def
      domain_create_def domain_get_all_def Let_def list_ex_iff rows_read_prefix)

lemma sound_get_by_name:
  "domain_repo_sound repo \<alpha> \<Longrightarrow> dr_get_by_name repo st n = (Inr r, st') \<Longrightarrow>
   r = List.find (\<lambda>d. dom_name d = n) (\<alpha> st) \<and> \<alpha> st' = \<alpha> st"
  unfolding domain_repo_sound_def by (drule conjunct1, drule spec [of _ st], drule spec [of _ n]) simp

lemma sound_get_all:
  "domain_repo_sound repo \<alpha> \<Longrightarrow> snd (dr_get_all repo st) = st' \<Longrightarrow> \<alpha> st' = \<alpha> st"
  unfolding domain_repo_sound_def
  by (drule conjunct2, drule conjunct1, drule spec [of _ st]) (auto split: prod.splits)

lemma sound_create:
  "domain_repo_sound repo \<alpha> \<Longrightarrow>
   case dr_create repo st d of
     (Inl _, st') \<Rightarrow> \<alpha> st' = \<alpha> st
   | (Inr d', st') \<Rightarrow> \<alpha> st' = \<alpha> st @ [d'] \<and> dom_name d' = dom_name d
       \<and> dom_target_url d' = dom_target_url d \<and> (\<forall>x\<in>set (\<alpha> st). dom_name x \<noteq> dom_name d)"
  unfolding domain_repo_sound_def by (drule conjunct2, drule conjunct2) simp

text \<open>\<open>CreateDomain\<close> over any sound repository: a stored row has a target, a new name, and is appended.\<close>

lemma create_domain_Inr:
  assumes "domain_repo_sound repo \<alpha>" and "create_domain (domain_new_service repo) st d = (Inr d', st1)"
  shows "\<alpha> st1 = \<alpha> st @ [d'] \<and> dom_name d' = dom_name d \<and> dom_target_url d' = dom_target_url d
         \<and> dom_target_url d \<noteq> [] \<and> (\<forall>x\<in>set (\<alpha> st). dom_name x \<noteq> dom_name d)"
  using assms sound_create [OF assms(1), of st "if dom_config d = None then d\<lparr>dom_config := Some ''{}''\<rparr> else d"]
  by (auto simp: create_domain_def domain_new_service_def split: if_splits)

lemma create_domain_Inl:
  assumes "domain_repo_sound repo \<alpha>" and "create_domain (domain_new_service repo) st d = (Inl e, st1)"
  shows "\<alpha> st1 = \<alpha> st"
  using assms sound_create [OF assms(1), of st "if dom_config d = None then d\<lparr>dom_config := Some ''{}''\<rparr> else d"]
  by (auto simp: create_domain_def domain_new_service_def split: if_splits)

subsection \<open>The store invariant\<close>

lemma pg_inv_create_domain:
  assumes "pg_inv db"
  shows "pg_inv (snd (create_domain pg_domain_service db d))"
proof (cases "create_domain pg_domain_service db d")
  case (Pair res db1)
  note sv = pg_domain_repo_sound
  show ?thesis
  proof (cases res)
    case (Inl e)
    with Pair create_domain_Inl [OF sv] assms show ?thesis
      by (simp add: pg_inv_def pg_domain_service_def)
  next
    case (Inr d')
    with Pair create_domain_Inr [OF sv] have
      "pg_domains db1 = pg_domains db @ [d'] \<and> dom_name d' = dom_name d \<and> dom_target_url d' = dom_target_url d
       \<and> dom_target_url d \<noteq> [] \<and> (\<forall>x\<in>set (pg_domains db). dom_name x \<noteq> dom_name d)"
      by (simp add: pg_domain_service_def)
    with Pair assms show ?thesis
      by (auto simp: pg_inv_def)
  qed
qed

lemma pg_inv_admin_step:
  assumes "pg_inv db"
  shows "pg_inv (admin_step pg_domain_service pg_bot_service db op)"
proof (cases op)
  case (CreateDomainOp d)
  then show ?thesis using assms by (simp add: pg_inv_create_domain)
qed (use assms in \<open>auto simp: add_rule_def list_rules_def list_domains_def pg_domain_service_def
      pg_bot_service_def domain_new_service_def bot_new_service_def domain_new_repository_def
      bot_new_repository_def bot_create_def domain_get_all_def bot_get_all_def pg_inv_def Let_def\<close>)

lemma pg_inv_admin_run:
  "pg_inv db \<Longrightarrow> pg_inv (admin_run pg_domain_service pg_bot_service db ops)"
  unfolding admin_run_def by (induction ops arbitrary: db) (simp_all add: pg_inv_admin_step)

subsection \<open>Domain round trip\<close>

text \<open>
  C31. Insert then look up, for any \<open>domain.Repository\<close> that behaves as a table with
  unique names (\<open>domain_repo_sound\<close>, which the Postgres repository satisfies): after
  \<open>CreateDomain\<close> succeeds, \<open>GetDomain\<close> of the same name, when it answers, returns
  exactly the row the repository stored (its id and timestamps assigned), because the
  insert refused any earlier row of that name.
\<close>

theorem create_domain_get_by_name:
  assumes "domain_repo_sound repo \<alpha>" and "create_domain (domain_new_service repo) st d = (Inr d', st1)"
    and "fst (get_domain (domain_new_service repo) st1 (dom_name d)) = Inr r"
  shows "r = Some d'"
proof -
  note c = create_domain_Inr [OF assms(1,2)]
  obtain st2 where "dr_get_by_name repo st1 (dom_name d) = (Inr r, st2)"
    using assms(3) by (cases "dr_get_by_name repo st1 (dom_name d)")
      (simp add: get_domain_def domain_new_service_def)
  from sound_get_by_name [OF assms(1) this] c show ?thesis
    by (simp add: find_append_skip)
qed

definition sample_pg :: pg where
  "sample_pg = \<lparr>pg_domains = [], pg_rules = [], pg_records = [], pg_domain_seq = 1,
                pg_rule_seq = 1, pg_now = 5, pg_faults = [], pg_cuts = []\<rparr>"

definition sample_new_domain :: domain where
  "sample_new_domain = \<lparr>dom_id = 0, dom_name = ''shop.example'', dom_target_url = ''http://10.0.0.3'',
                       dom_active = True, dom_config = None, dom_created_at = 0, dom_updated_at = 0\<rparr>"

theorem create_domain_get_by_name_witness:
  "create_domain (domain_new_service domain_new_repository) sample_pg sample_new_domain =
     (Inr (sample_new_domain\<lparr>dom_config := Some ''{}'', dom_id := 1, dom_created_at := 5, dom_updated_at := 5\<rparr>),
      snd (create_domain (domain_new_service domain_new_repository) sample_pg sample_new_domain)) \<and>
   fst (get_domain (domain_new_service domain_new_repository)
          (snd (create_domain (domain_new_service domain_new_repository) sample_pg sample_new_domain))
          ''shop.example'') =
     Inr (Some (sample_new_domain\<lparr>dom_config := Some ''{}'', dom_id := 1, dom_created_at := 5,
                                  dom_updated_at := 5\<rparr>))"
proof -
  let ?d' = "sample_new_domain\<lparr>dom_config := Some ''{}'', dom_id := 1, dom_created_at := 5, dom_updated_at := 5\<rparr>"
  let ?svc = "domain_new_service domain_new_repository"
  have run: "create_domain ?svc sample_pg sample_new_domain = (Inr ?d', snd (create_domain ?svc sample_pg sample_new_domain))"
    by (simp add: create_domain_def domain_new_service_def domain_new_repository_def domain_create_def
        sample_pg_def sample_new_domain_def Let_def)
  have look: "fst (get_domain ?svc (snd (create_domain ?svc sample_pg sample_new_domain)) (dom_name sample_new_domain))
              = Inr (Some ?d')"
    by (simp add: get_domain_def create_domain_def domain_new_service_def domain_new_repository_def
        domain_create_def domain_get_by_name_def sample_pg_def sample_new_domain_def Let_def)
  from create_domain_get_by_name [OF pg_domain_repo_sound run look] run look show ?thesis
    by (simp add: sample_new_domain_def)
qed

end
