(* ===== verification/Analytics.thy ===== *)
theory Analytics
  imports Prelude
begin

text \<open>
  The telemetry pipeline, \<open>src/internal/analytics/repository.go\<close>. Request handlers call
  \<open>Log\<close>, which puts a \<open>RequestLog\<close> into a buffered channel of capacity 10000 or drops
  it when the channel is full; one background goroutine (\<open>worker\<close>) receives from the
  channel into a batch, flushes the batch to ClickHouse when it reaches 1000 entries,
  on every tick of a 5-second ticker, and once more when the channel is closed; \<open>Close\<close>
  closes the channel and waits for the worker to finish.

  The model's state \<open>ch_repo\<close> holds the channel's buffer (a FIFO list), whether it
  is closed, the worker's batch, whether the worker has returned (the \<open>done\<close>
  channel is closed), the trace of \<open>writeBatch\<close> calls with their outcome, the
  fault oracle of the ClickHouse connection and the diagnostics the code prints. The
  goroutines run concurrently, and Go's \<open>select\<close> picks any ready case, so the
  pipeline is a labelled step relation \<open>pipe_step\<close> with one rule per action a
  goroutine can take.
\<close>

subsection \<open>State\<close>

text \<open>\<open>analytics.RequestLog\<close>.\<close>

record request_log =
  rl_timestamp :: go_time
  rl_domain_id :: go_int
  rl_client_ip :: string
  rl_user_agent :: string
  rl_method :: string
  rl_path :: string
  rl_status :: go_int
  rl_duration :: int
  rl_action_taken :: string

text \<open>What the code prints with \<open>log.Println\<close>/\<open>log.Printf\<close>: its observability sink.\<close>

datatype diag = ChannelFull | WriteFailed

record ch_repo =
  log_chan :: "request_log list"
  chan_closed :: bool
  batch :: "request_log list"
  worker_done :: bool
  wb_calls :: "(request_log list \<times> bool) list"
  ch_faults :: faults
  diags :: "diag list"

definition chan_cap :: nat where
  "chan_cap = 10000"

definition batch_size :: nat where
  "batch_size = 1000"

text \<open>\<open>NewRepository\<close>: an empty channel and batch; the worker goroutine is started.\<close>

definition new_repository :: "faults \<Rightarrow> ch_repo" where
  "new_repository fs =
     \<lparr>log_chan = [], chan_closed = False, batch = [], worker_done = False,
      wb_calls = [], ch_faults = fs, diags = []\<rparr>"

subsection \<open>Operations\<close>

text \<open>
  \<open>Log\<close>: \<open>select { case r.logChan <- req: default: log.Println(...) }\<close>. A send on a
  closed channel panics in Go even inside a \<open>select\<close> with a \<open>default\<close> case.
\<close>

definition repo_log :: "ch_repo \<Rightarrow> request_log \<Rightarrow> go_error + ch_repo" where
  "repo_log s e =
     (if chan_closed s then Inl (Panic ''send on closed channel'')
      else if length (log_chan s) < chan_cap then Inr (s\<lparr>log_chan := log_chan s @ [e]\<rparr>)
      else Inr (s\<lparr>diags := diags s @ [ChannelFull]\<rparr>))"

text \<open>\<open>Close\<close>, first statement: \<open>close(r.logChan)\<close>; closing twice panics.\<close>

definition close_chan :: "ch_repo \<Rightarrow> go_error + ch_repo" where
  "close_chan s =
     (if chan_closed s then Inl (Panic ''close of closed channel'') else Inr (s\<lparr>chan_closed := True\<rparr>))"

text \<open>
  The \<open>flush\<close> closure of \<open>worker\<close>: nothing on an empty batch; otherwise one
  \<open>writeBatch\<close> call, whose failure is printed, and a fresh empty batch either way.
\<close>

definition flush :: "ch_repo \<Rightarrow> ch_repo" where
  "flush s =
     (if batch s = [] then s
      else (let ok = \<not> fault_now (ch_faults s) in
            s\<lparr>wb_calls := wb_calls s @ [(batch s, ok)], ch_faults := tl (ch_faults s),
              diags := diags s @ (if ok then [] else [WriteFailed]), batch := []\<rparr>))"

text \<open>
  The row \<open>writeBatch\<close> appends for a log: \<open>DomainID\<close> and \<open>Status\<close> (Go \<open>int\<close>,
  64 bits) are converted with \<open>int32(...)\<close>, which keeps the low 32 bits; the other
  columns are the fields as they are.
\<close>

record ch_row =
  row_timestamp :: go_time
  row_domain_id :: "32 word"
  row_client_ip :: string
  row_user_agent :: string
  row_method :: string
  row_path :: string
  row_status :: "32 word"
  row_duration :: int
  row_action_taken :: string

definition to_row :: "request_log \<Rightarrow> ch_row" where
  "to_row l = \<lparr>row_timestamp = rl_timestamp l, row_domain_id = word_of_int (rl_domain_id l),
               row_client_ip = rl_client_ip l, row_user_agent = rl_user_agent l,
               row_method = rl_method l, row_path = rl_path l, row_status = word_of_int (rl_status l),
               row_duration = rl_duration l, row_action_taken = rl_action_taken l\<rparr>"

text \<open>The rows of one \<open>writeBatch\<close> call, in the batch's order.\<close>

definition write_rows :: "request_log list \<Rightarrow> ch_row list" where
  "write_rows logs = map to_row logs"

text \<open>
  The receive case of the worker's \<open>select\<close>: a buffered value is appended to the batch
  (and a full batch flushed); a closed and drained channel makes the worker flush and
  return. \<open>None\<close>: the receive is not ready (the channel is open and empty).
\<close>

definition worker_recv :: "ch_repo \<Rightarrow> ch_repo option" where
  "worker_recv s =
     (case log_chan s of
        e # rest \<Rightarrow>
          (let s1 = s\<lparr>log_chan := rest, batch := batch s @ [e]\<rparr> in
           Some (if batch_size \<le> length (batch s1) then flush s1 else s1))
      | [] \<Rightarrow> if chan_closed s then Some ((flush s)\<lparr>worker_done := True\<rparr>) else None)"

datatype wevent = Recv | Tick

text \<open>One iteration of the worker's \<open>for { select { ... } }\<close>; a returned worker takes no step.\<close>

definition worker_step :: "ch_repo \<Rightarrow> wevent \<Rightarrow> ch_repo option" where
  "worker_step s ev =
     (if worker_done s then None
      else (case ev of Recv \<Rightarrow> worker_recv s | Tick \<Rightarrow> Some (flush s)))"

subsection \<open>The concurrent pipeline\<close>

text \<open>
  A step is a producer's \<open>Log\<close> (accepted into the channel or dropped), the
  \<open>close\<close> of \<open>Close\<close>, or one worker iteration. The label records which events the
  pipeline accepted.
\<close>

datatype plabel = Accept request_log | Drop request_log | Silent

inductive pipe_step :: "ch_repo \<Rightarrow> plabel \<Rightarrow> ch_repo \<Rightarrow> bool" where
  accept: "repo_log s e = Inr s' \<Longrightarrow> length (log_chan s) < chan_cap \<Longrightarrow> pipe_step s (Accept e) s'"
| drop: "repo_log s e = Inr s' \<Longrightarrow> \<not> length (log_chan s) < chan_cap \<Longrightarrow> pipe_step s (Drop e) s'"
| close: "close_chan s = Inr s' \<Longrightarrow> pipe_step s Silent s'"
| worker: "worker_step s ev = Some s' \<Longrightarrow> pipe_step s Silent s'"

inductive_cases pipe_step_acceptE: "pipe_step s (Accept e) s'"
inductive_cases pipe_step_dropE: "pipe_step s (Drop e) s'"
inductive_cases pipe_step_silentE: "pipe_step s Silent s'"

fun accepted :: "plabel \<Rightarrow> request_log list" where
  "accepted (Accept e) = [e]"
| "accepted (Drop e) = []"
| "accepted Silent = []"

text \<open>The states reachable from \<open>NewRepository\<close>, with the events accepted on the way.\<close>

inductive reach :: "faults \<Rightarrow> ch_repo \<Rightarrow> request_log list \<Rightarrow> bool" for fs where
  init: "reach fs (new_repository fs) []"
| step: "reach fs s acc \<Longrightarrow> pipe_step s l s' \<Longrightarrow> reach fs s' (acc @ accepted l)"

subsection \<open>Abstraction: the accepted events as one FIFO\<close>

text \<open>
  The abstract pipeline is the list of accepted events in arrival order. The concrete
  state holds it in three pieces: the batches handed to \<open>writeBatch\<close>, the current
  batch, and the channel's buffer.
\<close>

definition abs_events :: "ch_repo \<Rightarrow> request_log list" where
  "abs_events s = concat (map fst (wb_calls s)) @ batch s @ log_chan s"

definition failures_reported :: "ch_repo \<Rightarrow> bool" where
  "failures_reported s \<longleftrightarrow>
     length (filter (\<lambda>d. d = WriteFailed) (diags s)) = length (filter (\<lambda>c. \<not> snd c) (wb_calls s))"

text \<open>The invariant of the pipeline.\<close>

definition pipe_inv :: "ch_repo \<Rightarrow> bool" where
  "pipe_inv s \<longleftrightarrow>
     length (batch s) < batch_size \<and> length (log_chan s) \<le> chan_cap \<and> failures_reported s \<and>
     (worker_done s \<longrightarrow> chan_closed s \<and> log_chan s = [] \<and> batch s = []) \<and>
     list_all (\<lambda>c. fst c \<noteq> []) (wb_calls s)"

text \<open>A concrete event, for the witnesses.\<close>

definition sample_log :: request_log where
  "sample_log =
     \<lparr>rl_timestamp = 0, rl_domain_id = 1, rl_client_ip = ''10.0.0.1'', rl_user_agent = ''curl'',
      rl_method = ''GET'', rl_path = ''/'', rl_status = 200, rl_duration = 5,
      rl_action_taken = ''ALLOW''\<rparr>"

subsection \<open>One-step facts\<close>

lemma flush_abs [simp]: "abs_events (flush s) = abs_events s"
  by (simp add: flush_def abs_events_def Let_def)

lemma flush_fields [simp]:
  "log_chan (flush s) = log_chan s" "chan_closed (flush s) = chan_closed s"
  "worker_done (flush s) = worker_done s" "batch (flush s) = []"
  by (simp_all add: flush_def Let_def)

lemma flush_reported [model_invs]: "failures_reported s \<Longrightarrow> failures_reported (flush s)"
  by (simp add: flush_def failures_reported_def Let_def)

lemma flush_nonempty [model_invs]:
  "list_all (\<lambda>c. fst c \<noteq> []) (wb_calls s) \<Longrightarrow> list_all (\<lambda>c. fst c \<noteq> []) (wb_calls (flush s))"
  by (simp add: flush_def Let_def)

lemma repo_log_cases [model_simps]:
  "repo_log s e = Inr s' \<Longrightarrow> \<not> chan_closed s \<and>
     s' = (if length (log_chan s) < chan_cap then s\<lparr>log_chan := log_chan s @ [e]\<rparr>
           else s\<lparr>diags := diags s @ [ChannelFull]\<rparr>)"
  by (simp add: repo_log_def split: if_splits)

lemma worker_recv_cases [model_simps]:
  "worker_recv s = Some s' \<Longrightarrow>
     (\<exists>e rest. log_chan s = e # rest \<and>
        s' = (if batch_size \<le> Suc (length (batch s))
              then flush (s\<lparr>log_chan := rest, batch := batch s @ [e]\<rparr>)
              else s\<lparr>log_chan := rest, batch := batch s @ [e]\<rparr>)) \<or>
     (log_chan s = [] \<and> chan_closed s \<and> s' = (flush s)\<lparr>worker_done := True\<rparr>)"
  by (auto simp: worker_recv_def Let_def split: list.splits if_splits)

lemma worker_recv_abs: "worker_recv s = Some s' \<Longrightarrow> abs_events s' = abs_events s"
proof -
  assume "worker_recv s = Some s'"
  then consider e rest where "log_chan s = e # rest"
      and "s' = (if batch_size \<le> Suc (length (batch s))
                 then flush (s\<lparr>log_chan := rest, batch := batch s @ [e]\<rparr>)
                 else s\<lparr>log_chan := rest, batch := batch s @ [e]\<rparr>)"
    | "log_chan s = []" and "s' = (flush s)\<lparr>worker_done := True\<rparr>"
    by (blast dest: worker_recv_cases)
  then show ?thesis
  proof cases
    case 1
    then have "abs_events (s\<lparr>log_chan := rest, batch := batch s @ [e]\<rparr>) = abs_events s"
      by (simp add: abs_events_def)
    with 1 show ?thesis by simp
  next
    case 2
    have "abs_events ((flush s)\<lparr>worker_done := True\<rparr>) = abs_events (flush s)"
      by (simp add: abs_events_def)
    with 2 show ?thesis by simp
  qed
qed

lemma worker_step_abs: "worker_step s ev = Some s' \<Longrightarrow> abs_events s' = abs_events s"
  by (cases ev) (auto simp: worker_step_def worker_recv_abs split: if_splits)

lemma pipe_step_abs: "pipe_step s l s' \<Longrightarrow> abs_events s' = abs_events s @ accepted l"
proof (induction rule: pipe_step.induct)
  case (accept s e s')
  then show ?case by (auto simp: abs_events_def dest: repo_log_cases)
next
  case (drop s e s')
  then show ?case by (auto simp: abs_events_def dest: repo_log_cases)
next
  case (close s s')
  then show ?case by (auto simp: abs_events_def close_chan_def split: if_splits)
next
  case (worker s ev s')
  then show ?case by (simp add: worker_step_abs)
qed

text \<open>
  C21. Refinement: every step of the concurrent pipeline is a step of the abstract FIFO
  of accepted events. An accepted \<open>Log\<close> appends its event; a dropped one, the
  \<open>close\<close> and every worker iteration (receive, size-triggered or timer flush,
  final flush) leave the sequence of events, read as written batches, then the batch,
  then the channel, unchanged. No event is lost, duplicated or reordered inside the
  process.
\<close>

theorem pipe_step_refines: "pipe_step s l s' \<Longrightarrow> abs_events s' = abs_events s @ accepted l"
  by (rule pipe_step_abs)

subsection \<open>The invariant\<close>

lemma pipe_inv_init: "pipe_inv (new_repository fs)"
  by (simp add: pipe_inv_def new_repository_def failures_reported_def batch_size_def)

lemma flush_inv [model_invs]: "pipe_inv s \<Longrightarrow> pipe_inv (flush s)"
  by (simp add: pipe_inv_def flush_reported flush_nonempty batch_size_def)

lemma pipe_inv_worker_recv [model_invs]:
  assumes inv: "pipe_inv s" and st: "worker_recv s = Some s'"
  shows "pipe_inv s'"
  using st [THEN worker_recv_cases]
proof
  assume "\<exists>e rest. log_chan s = e # rest \<and>
     s' = (if batch_size \<le> Suc (length (batch s))
           then flush (s\<lparr>log_chan := rest, batch := batch s @ [e]\<rparr>)
           else s\<lparr>log_chan := rest, batch := batch s @ [e]\<rparr>)"
  then obtain e rest where ch: "log_chan s = e # rest"
    and s': "s' = (if batch_size \<le> Suc (length (batch s))
                   then flush (s\<lparr>log_chan := rest, batch := batch s @ [e]\<rparr>)
                   else s\<lparr>log_chan := rest, batch := batch s @ [e]\<rparr>)"
    by blast
  let ?s1 = "s\<lparr>log_chan := rest, batch := batch s @ [e]\<rparr>"
  have "failures_reported ?s1" and "list_all (\<lambda>c. fst c \<noteq> []) (wb_calls ?s1)"
    using inv by (simp_all add: pipe_inv_def failures_reported_def)
  moreover have "length (log_chan ?s1) \<le> chan_cap"
    using inv ch by (simp add: pipe_inv_def)
  moreover have "\<not> worker_done s"
    using inv ch by (auto simp: pipe_inv_def)
  ultimately show ?thesis
    using inv s' by (auto simp: pipe_inv_def flush_reported flush_nonempty)
next
  assume "log_chan s = [] \<and> chan_closed s \<and> s' = (flush s)\<lparr>worker_done := True\<rparr>"
  moreover have "pipe_inv (flush s)" using inv by (rule flush_inv)
  ultimately show ?thesis
    by (simp add: pipe_inv_def failures_reported_def)
qed

lemma pipe_inv_step [model_invs]: "pipe_step s l s' \<Longrightarrow> pipe_inv s \<Longrightarrow> pipe_inv s'"
proof (induction rule: pipe_step.induct)
  case (accept s e s')
  then show ?case
    by (auto simp: pipe_inv_def failures_reported_def dest: repo_log_cases)
next
  case (drop s e s')
  then show ?case
    by (auto simp: pipe_inv_def failures_reported_def dest: repo_log_cases)
next
  case (close s s')
  then show ?case
    by (auto simp: pipe_inv_def failures_reported_def close_chan_def split: if_splits)
next
  case (worker s ev s')
  then show ?case
    by (cases ev) (auto simp: worker_step_def flush_inv pipe_inv_worker_recv split: if_splits)
qed

lemma reach_inv: "reach fs s acc \<Longrightarrow> pipe_inv s \<and> abs_events s = acc"
proof (induction rule: reach.induct)
  case init
  have "abs_events (new_repository fs) = []"
    by (simp add: abs_events_def new_repository_def)
  with pipe_inv_init show ?case by simp
next
  case (step s acc l s')
  then show ?case by (simp add: pipe_inv_step pipe_step_abs)
qed

text \<open>
  C22. In every state the pipeline reaches from \<open>NewRepository\<close>: the batch holds
  fewer than 1000 events, the channel at most its capacity of 10000, every failed
  \<open>writeBatch\<close> call was reported, no empty batch was ever written, and a returned
  worker left the channel closed and drained and the batch empty. Moreover the written
  batches, the batch and the channel hold exactly the accepted events, in order.
\<close>

theorem reach_pipe_inv: "reach fs s acc \<Longrightarrow> pipe_inv s \<and> abs_events s = acc"
  by (rule reach_inv)

subsection \<open>Shutdown\<close>

lemma worker_recv_closed: "worker_recv s = Some s' \<Longrightarrow> chan_closed s' = chan_closed s"
  by (auto dest!: worker_recv_cases split: if_splits)

lemma worker_recv_measure:
  "\<not> worker_done s \<Longrightarrow> worker_recv s = Some s' \<Longrightarrow>
   length (log_chan s') + (if worker_done s' then 0 else 1) < length (log_chan s) + 1"
  by (auto dest!: worker_recv_cases split: if_splits)

text \<open>
  The worker run to completion on the schedule that always takes the receive case (the
  ticker only flushes earlier): it receives until the channel is drained and, once the
  channel is closed, flushes and returns.
\<close>

function drain :: "ch_repo \<Rightarrow> ch_repo" where
  "drain s = (if worker_done s then s else (case worker_recv s of None \<Rightarrow> s | Some s' \<Rightarrow> drain s'))"
  by pat_completeness auto
termination
  by (relation "measure (\<lambda>s. length (log_chan s) + (if worker_done s then 0 else 1))")
    (auto dest: worker_recv_measure)

declare drain.simps [simp del]

text \<open>\<open>Close\<close>: \<open>close(r.logChan); <-r.done\<close>, the wait ending when the worker returns.\<close>

definition repo_close :: "ch_repo \<Rightarrow> go_error + ch_repo" where
  "repo_close s = (case close_chan s of Inl err \<Rightarrow> Inl err | Inr s' \<Rightarrow> Inr (drain s'))"

abbreviation silent_steps :: "ch_repo \<Rightarrow> ch_repo \<Rightarrow> bool" where
  "silent_steps \<equiv> (\<lambda>a b. pipe_step a Silent b)\<^sup>*\<^sup>*"

lemma drain_steps: "silent_steps s (drain s)"
proof (induction s rule: drain.induct)
  case (1 s)
  show ?case
  proof (cases "worker_done s")
    case True
    then show ?thesis by (simp add: drain.simps)
  next
    case False
    show ?thesis
    proof (cases "worker_recv s")
      case None
      with False show ?thesis by (simp add: drain.simps)
    next
      case (Some s')
      with False have "pipe_step s Silent s'"
        by (intro pipe_step.worker [of s Recv]) (simp add: worker_step_def)
      moreover have "silent_steps s' (drain s')" using "1" False Some by simp
      ultimately show ?thesis
        using False Some by (simp add: drain.simps converse_rtranclp_into_rtranclp)
    qed
  qed
qed

lemma drain_done: "chan_closed s \<Longrightarrow> worker_done (drain s)"
proof (induction s rule: drain.induct)
  case (1 s)
  show ?case
  proof (cases "worker_done s")
    case True
    then show ?thesis by (simp add: drain.simps)
  next
    case False
    have "worker_recv s \<noteq> None"
      using "1.prems" by (simp add: worker_recv_def Let_def split: list.splits)
    then obtain s' where s': "worker_recv s = Some s'" by blast
    then have "chan_closed s'" using "1.prems" by (simp add: worker_recv_closed)
    with "1.IH" False s' have "worker_done (drain s')" by simp
    with False s' show ?thesis by (simp add: drain.simps)
  qed
qed

lemma reach_silent_steps: "silent_steps s t \<Longrightarrow> reach fs s acc \<Longrightarrow> reach fs t acc"
proof (induction rule: rtranclp_induct)
  case base
  then show ?case .
next
  case (step t u)
  then have "reach fs u (acc @ accepted Silent)" by (blast intro: reach.step)
  then show ?case by simp
qed

lemma reach_done_abs:
  "reach fs s acc \<Longrightarrow> worker_done s \<Longrightarrow>
   concat (map fst (wb_calls s)) = acc \<and> failures_reported s"
  using reach_inv [of fs s acc] by (auto simp: pipe_inv_def abs_events_def)

lemma repo_close_reach:
  assumes "reach fs s acc" and "\<not> chan_closed s"
  shows "\<exists>s'. repo_close s = Inr s' \<and> worker_done s' \<and> reach fs s' acc"
proof -
  let ?c = "s\<lparr>chan_closed := True\<rparr>"
  have cl: "close_chan s = Inr ?c" using assms(2) by (simp add: close_chan_def)
  then have "pipe_step s Silent ?c" by (rule pipe_step.close)
  with assms(1) have "reach fs ?c (acc @ accepted Silent)" by (rule reach.step)
  then have rc: "reach fs ?c acc" by simp
  have rd: "reach fs (drain ?c) acc" using drain_steps rc by (rule reach_silent_steps)
  have dn: "worker_done (drain ?c)" by (rule drain_done) simp
  from cl have "repo_close s = Inr (drain ?c)" by (simp add: repo_close_def)
  with rd dn show ?thesis by blast
qed

text \<open>
  C25. Whatever the schedule of producers, ticker and worker, once the worker has
  returned every event the pipeline accepted was handed to exactly one
  \<open>writeBatch\<close> call, in the order of acceptance; the failed calls are exactly the
  reported ones. Delivery to ClickHouse is at most once: a failed batch is not retried.
\<close>

text \<open>
  C23. \<open>Close\<close> on a repository that was not closed before returns: the worker drains
  the channel and terminates, and at that point every accepted event was handed to
  \<open>writeBatch\<close>, in order.
\<close>

theorem close_delivers:
  assumes "reach fs s acc" and "\<not> chan_closed s"
  shows "\<exists>s'. repo_close s = Inr s' \<and> worker_done s' \<and> reach fs s' acc \<and>
              concat (map fst (wb_calls s')) = acc"
proof -
  have "repo_close s = Inr (drain (s\<lparr>chan_closed := True\<rparr>))"
    using assms(2) by (simp add: repo_close_def close_chan_def)
  with repo_close_reach [OF assms] reach_done_abs show ?thesis by blast
qed

text \<open>An accepted \<open>Log\<close> into a fresh repository appends the event.\<close>

theorem pipe_step_refines_witness:
  "pipe_step (new_repository []) (Accept sample_log) ((new_repository [])\<lparr>log_chan := [sample_log]\<rparr>) \<and>
   abs_events ((new_repository [])\<lparr>log_chan := [sample_log]\<rparr>) =
     abs_events (new_repository []) @ accepted (Accept sample_log)"
proof -
  have st: "pipe_step (new_repository []) (Accept sample_log) ((new_repository [])\<lparr>log_chan := [sample_log]\<rparr>)"
    by (rule pipe_step.accept) (simp_all add: repo_log_def new_repository_def chan_cap_def)
  show ?thesis using st pipe_step_refines [OF st] by simp
qed

subsection \<open>Sequential scenarios\<close>

text \<open>One producer logging a list of events, and \<open>n\<close> receive iterations of the worker.\<close>

fun log_all :: "ch_repo \<Rightarrow> request_log list \<Rightarrow> go_error + ch_repo" where
  "log_all s [] = Inr s"
| "log_all s (e # es) = (case repo_log s e of Inl err \<Rightarrow> Inl err | Inr s' \<Rightarrow> log_all s' es)"

fun recv_n :: "nat \<Rightarrow> ch_repo \<Rightarrow> ch_repo option" where
  "recv_n 0 s = Some s"
| "recv_n (Suc n) s = (case worker_step s Recv of None \<Rightarrow> None | Some s' \<Rightarrow> recv_n n s')"

lemma log_all_overflow:
  "\<not> chan_closed s \<Longrightarrow> length (log_chan s) \<le> chan_cap \<Longrightarrow>
   log_all s es = Inr (s\<lparr>log_chan := log_chan s @ take (chan_cap - length (log_chan s)) es,
                         diags := diags s @ replicate (length es - (chan_cap - length (log_chan s))) ChannelFull\<rparr>)"
proof (induction es arbitrary: s)
  case Nil
  then show ?case by simp
next
  case (Cons e es)
  show ?case
  proof (cases "length (log_chan s) < chan_cap")
    case True
    let ?s1 = "s\<lparr>log_chan := log_chan s @ [e]\<rparr>"
    have "repo_log s e = Inr ?s1" using Cons.prems True by (simp add: repo_log_def)
    moreover have "log_all ?s1 es = Inr (?s1\<lparr>log_chan := log_chan ?s1 @ take (chan_cap - length (log_chan ?s1)) es,
                         diags := diags ?s1 @ replicate (length es - (chan_cap - length (log_chan ?s1))) ChannelFull\<rparr>)"
      using Cons.prems True by (intro Cons.IH) auto
    moreover have "take (chan_cap - length (log_chan s)) (e # es) = e # take (chan_cap - Suc (length (log_chan s))) es"
      using True by (simp add: take_Cons' Suc_diff_Suc)
    moreover have "Suc (length es) - (chan_cap - length (log_chan s)) = length es - (chan_cap - Suc (length (log_chan s)))"
      using True by simp
    ultimately show ?thesis by simp
  next
    case False
    with Cons.prems have full: "length (log_chan s) = chan_cap" by simp
    let ?s1 = "s\<lparr>diags := diags s @ [ChannelFull]\<rparr>"
    have "repo_log s e = Inr ?s1" using Cons.prems False by (simp add: repo_log_def)
    moreover have "log_all ?s1 es = Inr (?s1\<lparr>log_chan := log_chan ?s1 @ take (chan_cap - length (log_chan ?s1)) es,
                         diags := diags ?s1 @ replicate (length es - (chan_cap - length (log_chan ?s1))) ChannelFull\<rparr>)"
      using Cons.prems by (intro Cons.IH) auto
    ultimately show ?thesis using full by (simp add: replicate_app_Cons_same)
  qed
qed

lemma log_all_room:
  "\<not> chan_closed s \<Longrightarrow> length (log_chan s) + length es \<le> chan_cap \<Longrightarrow>
   log_all s es = Inr (s\<lparr>log_chan := log_chan s @ es\<rparr>)"
  by (simp add: log_all_overflow)

lemma recv_n_fill:
  "\<not> worker_done s \<Longrightarrow> n \<le> length (log_chan s) \<Longrightarrow> length (batch s) + n < batch_size \<Longrightarrow>
   recv_n n s = Some (s\<lparr>log_chan := drop n (log_chan s), batch := batch s @ take n (log_chan s)\<rparr>)"
proof (induction n arbitrary: s)
  case 0
  then show ?case by simp
next
  case (Suc n)
  then obtain e rest where ch: "log_chan s = e # rest" by (cases "log_chan s") auto
  let ?s1 = "s\<lparr>log_chan := rest, batch := batch s @ [e]\<rparr>"
  have "worker_step s Recv = Some ?s1"
    using Suc.prems ch by (simp add: worker_step_def worker_recv_def)
  moreover have "recv_n n ?s1 = Some (?s1\<lparr>log_chan := drop n (log_chan ?s1), batch := batch ?s1 @ take n (log_chan ?s1)\<rparr>)"
    using Suc.prems ch by (intro Suc.IH) auto
  ultimately show ?case using ch by simp
qed

lemma recv_n_add: "recv_n (m + n) s = Option.bind (recv_n m s) (recv_n n)"
  by (induction m arbitrary: s) (auto split: option.splits)

text \<open>
  C25. Size-triggered flush: 1000 events logged into a fresh repository and received
  by the worker cause exactly one \<open>writeBatch\<close> call, with those 1000 events in
  order, without waiting for the ticker; the batch and the channel are empty afterwards.
\<close>

theorem size_triggered_flush:
  assumes len: "length es = batch_size"
  shows "\<exists>s1 s2. log_all (new_repository fs) es = Inr s1 \<and> recv_n batch_size s1 = Some s2 \<and>
                 wb_calls s2 = [(es, \<not> fault_now fs)] \<and> batch s2 = [] \<and> log_chan s2 = []"
proof -
  let ?s0 = "new_repository fs"
  obtain xs x where es: "es = xs @ [x]"
    using len by (cases es rule: rev_cases) (auto simp: batch_size_def)
  with len have lx: "Suc (length xs) = batch_size" by simp
  have l: "log_all ?s0 es = Inr (?s0\<lparr>log_chan := es\<rparr>)"
    using log_all_room [of ?s0 es] len by (simp add: new_repository_def chan_cap_def batch_size_def)
  have r1: "recv_n (length xs) (?s0\<lparr>log_chan := es\<rparr>) = Some (?s0\<lparr>log_chan := [x], batch := xs\<rparr>)"
    using recv_n_fill [of "?s0\<lparr>log_chan := es\<rparr>" "length xs"] lx es by (simp add: new_repository_def)
  have r2: "recv_n 1 (?s0\<lparr>log_chan := [x], batch := xs\<rparr>) = Some (flush (?s0\<lparr>log_chan := [], batch := es\<rparr>))"
    using lx es by (simp add: worker_step_def worker_recv_def new_repository_def)
  have "recv_n batch_size (?s0\<lparr>log_chan := es\<rparr>) = Some (flush (?s0\<lparr>log_chan := [], batch := es\<rparr>))"
    using recv_n_add [of "length xs" 1] r1 r2 lx by simp
  moreover have "wb_calls (flush (?s0\<lparr>log_chan := [], batch := es\<rparr>)) = [(es, \<not> fault_now fs)]"
    using es by (simp add: flush_def new_repository_def Let_def)
  ultimately show ?thesis using l by auto
qed

text \<open>
  C26. Time-triggered flush: fewer than 1000 events, received by the worker, are not
  written until the ticker fires; the tick then makes exactly one \<open>writeBatch\<close> call
  with exactly those events, and a further tick on the now empty batch writes nothing.
\<close>

theorem timer_flush:
  assumes ne: "es \<noteq> []" and small: "length es < batch_size"
  shows "\<exists>s1 s2 s3. log_all (new_repository fs) es = Inr s1 \<and> recv_n (length es) s1 = Some s2 \<and>
                    wb_calls s2 = [] \<and> worker_step s2 Tick = Some s3 \<and>
                    wb_calls s3 = [(es, \<not> fault_now fs)] \<and> worker_step s3 Tick = Some s3"
proof -
  let ?s0 = "new_repository fs"
  have l: "log_all ?s0 es = Inr (?s0\<lparr>log_chan := es\<rparr>)"
    using log_all_room [of ?s0 es] small by (simp add: new_repository_def chan_cap_def batch_size_def)
  have r: "recv_n (length es) (?s0\<lparr>log_chan := es\<rparr>) = Some (?s0\<lparr>log_chan := [], batch := es\<rparr>)"
    using recv_n_fill [of "?s0\<lparr>log_chan := es\<rparr>" "length es"] small by (simp add: new_repository_def)
  let ?s3 = "flush (?s0\<lparr>log_chan := [], batch := es\<rparr>)"
  have t: "worker_step (?s0\<lparr>log_chan := [], batch := es\<rparr>) Tick = Some ?s3"
    by (simp add: worker_step_def new_repository_def)
  have w: "wb_calls ?s3 = [(es, \<not> fault_now fs)]"
    using ne by (simp add: flush_def new_repository_def Let_def)
  have t2: "worker_step ?s3 Tick = Some ?s3"
    by (simp add: worker_step_def new_repository_def flush_def Let_def)
  show ?thesis
    using l r t w t2 by (auto simp: new_repository_def)
qed

text \<open>
  C29. Overflow: logging any number of events while the worker takes nothing never
  blocks or fails; the channel keeps the first 10000 events and every further event is
  dropped with one "channel full" diagnostic.
\<close>

theorem log_overflow:
  "log_all (new_repository fs) es =
     Inr ((new_repository fs)\<lparr>log_chan := take chan_cap es, diags := replicate (length es - chan_cap) ChannelFull\<rparr>)"
  using log_all_overflow [of "new_repository fs" es] by (simp add: new_repository_def)

lemma drain_closed: "chan_closed (drain s) = chan_closed s"
proof (induction s rule: drain.induct)
  case (1 s)
  then show ?case
    by (subst drain.simps) (auto simp: worker_recv_closed split: option.splits)
qed

text \<open>
  C30. After \<open>Close\<close> has returned, a further \<open>Log\<close> panics (send on a closed
  channel) and a second \<open>Close\<close> panics (close of a closed channel): the code leaves
  the behaviour of \<open>Record\<close> after \<open>Shutdown\<close> and of a repeated \<open>Shutdown\<close>,
  which the specification calls open questions, as process crashes.
\<close>

theorem close_then_panics:
  assumes "repo_close s = Inr s'"
  shows "repo_log s' e = Inl (Panic ''send on closed channel'') \<and>
         repo_close s' = Inl (Panic ''close of closed channel'')"
proof -
  from assms obtain c where "close_chan s = Inr c" and "s' = drain c"
    by (auto simp: repo_close_def split: sum.splits)
  then have "chan_closed s'" by (auto simp: close_chan_def drain_closed split: if_splits)
  then show ?thesis by (simp add: repo_log_def repo_close_def close_chan_def)
qed

subsection \<open>A concrete run\<close>

text \<open>
  One event is logged into a fresh repository, the channel is closed, the worker
  receives the event, then sees the closed channel, flushes and returns.
\<close>

lemma reach_sample_accept:
  "reach [] \<lparr>log_chan = [sample_log], chan_closed = False, batch = [], worker_done = False,
             wb_calls = [], ch_faults = [], diags = []\<rparr> [sample_log]"
proof -
  have "pipe_step (new_repository []) (Accept sample_log)
          \<lparr>log_chan = [sample_log], chan_closed = False, batch = [], worker_done = False,
           wb_calls = [], ch_faults = [], diags = []\<rparr>"
    by (rule pipe_step.accept) (simp_all add: repo_log_def new_repository_def chan_cap_def)
  from reach.init this have "reach [] \<lparr>log_chan = [sample_log], chan_closed = False, batch = [],
      worker_done = False, wb_calls = [], ch_faults = [], diags = []\<rparr> ([] @ accepted (Accept sample_log))"
    by (rule reach.step)
  then show ?thesis by simp
qed

text \<open>The invariant and the abstraction at the state after one accepted event.\<close>

theorem reach_pipe_inv_witness:
  "reach [] \<lparr>log_chan = [sample_log], chan_closed = False, batch = [], worker_done = False,
             wb_calls = [], ch_faults = [], diags = []\<rparr> [sample_log] \<and>
   length [] < batch_size \<and> length [sample_log] \<le> chan_cap \<and>
   abs_events \<lparr>log_chan = [sample_log], chan_closed = False, batch = [], worker_done = False,
             wb_calls = [], ch_faults = [], diags = []\<rparr> = [sample_log]"
  using reach_sample_accept reach_pipe_inv [OF reach_sample_accept] by (simp add: pipe_inv_def)

text \<open>\<open>Close\<close> after one accepted event.\<close>

theorem close_delivers_witness:
  "reach [] \<lparr>log_chan = [sample_log], chan_closed = False, batch = [], worker_done = False,
             wb_calls = [], ch_faults = [], diags = []\<rparr> [sample_log] \<and>
   (\<exists>s'. repo_close \<lparr>log_chan = [sample_log], chan_closed = False, batch = [], worker_done = False,
             wb_calls = [], ch_faults = [], diags = []\<rparr> = Inr s' \<and> worker_done s' \<and>
         reach [] s' [sample_log] \<and> concat (map fst (wb_calls s')) = [sample_log])"
  using reach_sample_accept close_delivers [OF reach_sample_accept] by simp

text \<open>1000 copies of one event: one write of all of them.\<close>

theorem size_triggered_flush_witness:
  "\<exists>s1 s2. log_all (new_repository []) (replicate 1000 sample_log) = Inr s1 \<and>
     recv_n batch_size s1 = Some s2 \<and> wb_calls s2 = [(replicate 1000 sample_log, True)] \<and>
     batch s2 = [] \<and> log_chan s2 = []"
  using size_triggered_flush [of "replicate 1000 sample_log" "[]"] by (simp add: batch_size_def)

text \<open>Ten events and a tick: one write of the ten.\<close>

theorem timer_flush_witness:
  "\<exists>s1 s2 s3. log_all (new_repository []) (replicate 10 sample_log) = Inr s1 \<and>
     recv_n 10 s1 = Some s2 \<and> wb_calls s2 = [] \<and> worker_step s2 Tick = Some s3 \<and>
     wb_calls s3 = [(replicate 10 sample_log, True)] \<and> worker_step s3 Tick = Some s3"
  using timer_flush [of "replicate 10 sample_log" "[]"] by (simp add: batch_size_def)

text \<open>Closing a fresh repository, then logging or closing again.\<close>

theorem close_then_panics_witness:
  "repo_log ((new_repository [])\<lparr>chan_closed := True, worker_done := True\<rparr>) sample_log =
     Inl (Panic ''send on closed channel'') \<and>
   repo_close ((new_repository [])\<lparr>chan_closed := True, worker_done := True\<rparr>) =
     Inl (Panic ''close of closed channel'')"
proof -
  have "repo_close (new_repository []) = Inr ((new_repository [])\<lparr>chan_closed := True, worker_done := True\<rparr>)"
    by (simp add: repo_close_def close_chan_def drain.simps worker_recv_def flush_def new_repository_def)
  then show ?thesis by (rule close_then_panics)
qed


subsection \<open>Rows written to ClickHouse\<close>

text \<open>Domain id 2147483648 is stored as -2147483648; status 404 is stored as 404.\<close>

lemma write_rows_sample:
  "map (sint \<circ> row_domain_id) (write_rows [sample_log\<lparr>rl_domain_id := 2147483648, rl_status := 404\<rparr>]) = [-2147483648]
   \<and> map (sint \<circ> row_status) (write_rows [sample_log\<lparr>rl_domain_id := 2147483648, rl_status := 404\<rparr>]) = [404]"
  by (simp add: write_rows_def to_row_def)

end
