(* ===== verification/Engine.thy ===== *)
theory Engine
  imports GoLib Redis Store Analytics
begin

text \<open>
  The decision engine, \<open>src/internal/engine/engine.go\<close>. \<open>AnalyzeIP\<close> scans the bot
  rules for an IP block rule, then asks the Redis fixed-window rate limiter;
  \<open>Analyze\<close> resolves the HTTP Host header to a domain first and calls \<open>AnalyzeIP\<close>
  for active domains; \<open>LogRequest\<close> and \<open>LogDNSQuery\<close> hand a telemetry record to
  the pipeline. The engine holds no state of its own: its state here is the pair of
  external stores it reads and writes (\<open>estate\<close>), threaded through each call.
\<close>

subsection \<open>Data\<close>

text \<open>\<open>engine.Action\<close> (a string type with three constants) and its string value.\<close>

datatype action = ActionAllow | ActionBlock | ActionChallenge

fun action_str :: "action \<Rightarrow> string" where
  "action_str ActionAllow = ''ALLOW''"
| "action_str ActionBlock = ''BLOCK''"
| "action_str ActionChallenge = ''CHALLENGE''"

text \<open>\<open>engine.Decision\<close>; the \<open>*domain.Domain\<close> pointer is an option.\<close>

record decision =
  d_action :: action
  d_reason :: string
  d_domain :: "domain option"
  d_request_id :: string

text \<open>The parts of an \<open>*http.Request\<close> the engine reads.\<close>

record http_request =
  req_host :: string
  req_remote_addr :: string
  req_method :: string
  req_path :: string
  req_user_agent :: string

text \<open>The external state the engine's calls read and write.\<close>

record estate =
  db :: pg
  rdb :: redis

definition mk_decision :: "action \<Rightarrow> string \<Rightarrow> decision" where
  "mk_decision a r = \<lparr>d_action = a, d_reason = r, d_domain = None, d_request_id = []\<rparr>"

subsection \<open>Rate limiting\<close>

definition rate_limit :: int where
  "rate_limit = 100"

definition rl_window :: go_time where
  "rl_window = 60"

text \<open>\<open>fmt.Sprintf("ratelimit:%d:%s", domainID, ip)\<close>.\<close>

definition rl_key :: "go_int \<Rightarrow> string \<Rightarrow> string" where
  "rl_key domainID ip = ''ratelimit:'' @ go_itoa domainID @ CHR '':'' # ip"

text \<open>
  \<open>checkRateLimit\<close>: \<open>INCR\<close> the key; on an error answer \<open>(true, err)\<close>; on the first
  increment of a window set a 60-second expiry (its result is ignored); allow while the
  count is at most 100.
\<close>

definition check_rate_limit :: "redis \<Rightarrow> go_int \<Rightarrow> string \<Rightarrow> (bool \<times> go_error option) \<times> redis" where
  "check_rate_limit r domainID ip =
     (let key = rl_key domainID ip;
          (res, r1) = redis_incr r key in
      case res of
        Inl err \<Rightarrow> ((True, Some err), r1)
      | Inr count \<Rightarrow>
          (let r2 = (if count = 1 then snd (redis_expire r1 key rl_window) else r1)
           in ((count \<le> rate_limit, None), r2)))"

subsection \<open>Analysis\<close>

definition ip_block_rule :: "string \<Rightarrow> bot_rule \<Rightarrow> bool" where
  "ip_block_rule clientIP rule \<longleftrightarrow>
     rule_type rule = ''IP'' \<and> rule_value rule = clientIP \<and> rule_action rule = ''BLOCK''"

text \<open>The rule loop of \<open>AnalyzeIP\<close>: the first IP block rule for the client, if any.\<close>

fun scan_rules :: "string \<Rightarrow> bot_rule list \<Rightarrow> bot_rule option" where
  "scan_rules clientIP [] = None"
| "scan_rules clientIP (rule # rules) =
     (if ip_block_rule clientIP rule then Some rule else scan_rules clientIP rules)"

text \<open>
  \<open>AnalyzeIP(clientIP, domainID, domainName)\<close>. A failing \<open>GetAll\<close> skips the rule
  scan; a failing rate-limit check allows (fail open; the error is only printed).
\<close>

definition analyze_ip :: "estate \<Rightarrow> string \<Rightarrow> go_int \<Rightarrow> string \<Rightarrow> decision \<times> estate" where
  "analyze_ip s clientIP domainID domainName =
     (let (rules, db1) = bot_get_all (db s);
          s1 = s\<lparr>db := db1\<rparr>;
          hit = (case rules of Inl _ \<Rightarrow> None | Inr rs \<Rightarrow> scan_rules clientIP rs) in
      case hit of
        Some rule \<Rightarrow> (mk_decision ActionBlock (''IP blocked by rule: '' @ rule_description rule), s1)
      | None \<Rightarrow>
          (let ((allowed, _), r2) = check_rate_limit (rdb s1) domainID clientIP;
               s2 = s1\<lparr>rdb := r2\<rparr> in
           if \<not> allowed then (mk_decision ActionBlock ''Rate limit exceeded'', s2)
           else (mk_decision ActionAllow [], s2)))"

text \<open>
  \<open>Analyze(r)\<close>: strip the port of the Host header, resolve the domain (a lookup error
  is returned), block unknown and inactive domains, otherwise run \<open>AnalyzeIP\<close> on the
  client IP of \<open>RemoteAddr\<close> and attach the domain. The source's two final branches
  (\<open>decision.Action != ActionAllow\<close> or not) do the same and are one branch here.
\<close>

definition analyze :: "estate \<Rightarrow> http_request \<Rightarrow> (go_error + decision) \<times> estate" where
  "analyze s r =
     (let host = host_or_self (req_host r);
          (res, db1) = domain_get_by_name (db s) host;
          s1 = s\<lparr>db := db1\<rparr> in
      case res of
        Inl err \<Rightarrow> (Inl err, s1)
      | Inr None \<Rightarrow> (Inr (mk_decision ActionBlock ''Domain not found or inactive''), s1)
      | Inr (Some d) \<Rightarrow>
          if \<not> dom_active d then (Inr (mk_decision ActionBlock ''Domain not found or inactive''), s1)
          else (let clientIP = host_or_empty (req_remote_addr r);
                    (dec, s2) = analyze_ip s1 clientIP (dom_id d) host
                in (Inr (dec\<lparr>d_domain := Some d\<rparr>), s2)))"

subsection \<open>Telemetry records\<close>

text \<open>\<open>LogRequest\<close>: one record per HTTP request; domain 0 when none resolved.\<close>

definition log_request ::
  "ch_repo \<Rightarrow> go_time \<Rightarrow> http_request \<Rightarrow> decision \<Rightarrow> go_int \<Rightarrow> int \<Rightarrow> go_error + ch_repo" where
  "log_request p now req dec status duration =
     repo_log p \<lparr>rl_timestamp = now,
                 rl_domain_id = (case d_domain dec of None \<Rightarrow> 0 | Some d \<Rightarrow> dom_id d),
                 rl_client_ip = host_or_empty (req_remote_addr req),
                 rl_user_agent = req_user_agent req, rl_method = req_method req,
                 rl_path = req_path req, rl_status = status, rl_duration = duration,
                 rl_action_taken = action_str (d_action dec)\<rparr>"

text \<open>\<open>LogDNSQuery\<close>: user agent \<open>"DNS"\<close>, no status and no duration.\<close>

definition log_dns_query ::
  "ch_repo \<Rightarrow> go_time \<Rightarrow> string \<Rightarrow> go_int \<Rightarrow> string \<Rightarrow> string \<Rightarrow> action \<Rightarrow> go_error + ch_repo" where
  "log_dns_query p now clientIP domainID queryName queryType a =
     repo_log p \<lparr>rl_timestamp = now, rl_domain_id = domainID, rl_client_ip = clientIP,
                 rl_user_agent = ''DNS'', rl_method = queryType, rl_path = queryName,
                 rl_status = 0, rl_duration = 0, rl_action_taken = action_str a\<rparr>"

subsection \<open>Facts about the rate limiter\<close>

lemma check_rate_limit_fault [model_simps]:
  "fault_now (rfaults r) \<Longrightarrow>
   check_rate_limit r d ip = ((True, Some RedisError), r\<lparr>rfaults := tl (rfaults r)\<rparr>)"
  by (simp add: check_rate_limit_def redis_incr_fault)

text \<open>The first request of a window: the counter is created and given its expiry.\<close>

lemma check_rate_limit_fresh [model_simps]:
  assumes "\<not> fault_now (rfaults r)" and "\<not> fault_now (tl (rfaults r))"
    and "live_entry r (rl_key d ip) = None"
  shows "check_rate_limit r d ip =
           ((True, None), set_entry (r\<lparr>rfaults := tl (tl (rfaults r))\<rparr>) (rl_key d ip)
                            \<lparr>rval = 1, rexp = Some (rnow r + rl_window)\<rparr>)"
  using assms
  by (simp add: check_rate_limit_def redis_incr_up redis_expire_up incr_ok_def expire_ok_def
      entry_live_def rate_limit_def)

text \<open>A later request of the same window: the counter goes up by one, its expiry stays.\<close>

lemma check_rate_limit_live [model_simps]:
  assumes "\<not> fault_now (rfaults r)" and "live_entry r (rl_key d ip) = Some e"
    and "rval e \<noteq> int64_max" and "rval e \<noteq> 0"
  shows "check_rate_limit r d ip =
           ((rval e + 1 \<le> rate_limit, None),
            set_entry (r\<lparr>rfaults := tl (rfaults r)\<rparr>) (rl_key d ip) (e\<lparr>rval := rval e + 1\<rparr>))"
  using assms by (simp add: check_rate_limit_def redis_incr_up incr_ok_def)

subsection \<open>Facts about \<open>AnalyzeIP\<close>\<close>

lemma scan_rules_find: "scan_rules ip rules = List.find (ip_block_rule ip) rules"
  by (induction rules) auto

lemma scan_rules_None: "\<forall>r\<in>set rules. \<not> ip_block_rule ip r \<Longrightarrow> scan_rules ip rules = None"
  by (simp add: scan_rules_find find_None_iff)

lemma scan_rules_read_None:
  "scan_rules ip rules = None \<Longrightarrow> scan_rules ip (rows_read cs rules) = None"
  using rows_read_subset [of cs rules] by (auto simp: scan_rules_find find_None_iff)

text \<open>A matching rule was among the rows read: block, and only the rule query touched the world.\<close>

lemma analyze_ip_hit [model_simps]:
  assumes "\<not> fault_now (pg_faults (db s))"
    and "scan_rules ip (rows_read (pg_cuts (db s)) (pg_rules (db s))) = Some rule"
  shows "analyze_ip s ip d n =
           (mk_decision ActionBlock (''IP blocked by rule: '' @ rule_description rule), s\<lparr>db := pg_call (db s)\<rparr>)"
  using assms by (simp add: analyze_ip_def bot_get_all_def)

text \<open>No matching rule was among the rows read (or the query failed): the rate limiter decides.\<close>

lemma analyze_ip_no_hit_read:
  assumes "fault_now (pg_faults (db s)) \<or> scan_rules ip (rows_read (pg_cuts (db s)) (pg_rules (db s))) = None"
  shows "analyze_ip s ip d n =
           (let ((allowed, _), r2) = check_rate_limit (rdb s) d ip in
            (if allowed then mk_decision ActionAllow [] else mk_decision ActionBlock ''Rate limit exceeded'',
             s\<lparr>db := pg_call (db s), rdb := r2\<rparr>))"
  using assms by (auto simp: analyze_ip_def bot_get_all_def split: prod.splits)

lemma analyze_ip_no_hit [model_simps]:
  assumes "fault_now (pg_faults (db s)) \<or> scan_rules ip (pg_rules (db s)) = None"
  shows "analyze_ip s ip d n =
           (let ((allowed, _), r2) = check_rate_limit (rdb s) d ip in
            (if allowed then mk_decision ActionAllow [] else mk_decision ActionBlock ''Rate limit exceeded'',
             s\<lparr>db := pg_call (db s), rdb := r2\<rparr>))"
proof -
  have "fault_now (pg_faults (db s)) \<or> scan_rules ip (rows_read (pg_cuts (db s)) (pg_rules (db s))) = None"
    using assms by (metis scan_rules_read_None)
  then show ?thesis by (rule analyze_ip_no_hit_read)
qed

text \<open>\<open>k\<close> successive calls of \<open>AnalyzeIP\<close> for one client and domain, with no time passing.\<close>

fun analyze_ip_n :: "nat \<Rightarrow> estate \<Rightarrow> string \<Rightarrow> go_int \<Rightarrow> string \<Rightarrow> action list \<times> estate" where
  "analyze_ip_n 0 s ip d n = ([], s)"
| "analyze_ip_n (Suc k) s ip d n =
     (let (dec, s1) = analyze_ip s ip d n;
          (acts, s2) = analyze_ip_n k s1 ip d n
      in (d_action dec # acts, s2))"

text \<open>
  Successive calls of \<open>AnalyzeIP\<close> for one client and domain, each after a delay in
  seconds (the first delay before the first call).
\<close>

fun analyze_ip_timed :: "go_time list \<Rightarrow> estate \<Rightarrow> string \<Rightarrow> go_int \<Rightarrow> string \<Rightarrow> action list \<times> estate" where
  "analyze_ip_timed [] s ip d n = ([], s)"
| "analyze_ip_timed (dt # dts) s ip d n =
     (let s1 = s\<lparr>rdb := redis_advance (rdb s) dt\<rparr>;
          (dec, s2) = analyze_ip s1 ip d n;
          (acts, s3) = analyze_ip_timed dts s2 ip d n
      in (d_action dec # acts, s3))"

text \<open>The run inside one window, from a live counter of value \<open>c\<close>.\<close>

lemma analyze_ip_n_live:
  assumes "fault_free (rfaults (rdb s))" and "\<forall>r\<in>set (pg_rules (db s)). \<not> ip_block_rule ip r"
    and "live_entry (rdb s) (rl_key d ip) = Some e" and "0 < rval e" and "rval e + int k < int64_max"
  shows "fst (analyze_ip_n k s ip d n) = map (\<lambda>i. if rval e + int i < rate_limit then ActionAllow else ActionBlock) [0..<k]
         \<and> live_entry (rdb (snd (analyze_ip_n k s ip d n))) (rl_key d ip) = Some (e\<lparr>rval := rval e + int k\<rparr>)
         \<and> pg_rules (db (snd (analyze_ip_n k s ip d n))) = pg_rules (db s)
         \<and> rnow (rdb (snd (analyze_ip_n k s ip d n))) = rnow (rdb s)
         \<and> fault_free (rfaults (rdb (snd (analyze_ip_n k s ip d n))))"
  using assms
proof (induction k arbitrary: s e)
  case 0
  then show ?case by simp
next
  case (Suc k)
  let ?key = "rl_key d ip"
  let ?e1 = "e\<lparr>rval := rval e + 1\<rparr>"
  let ?s1 = "s\<lparr>db := pg_call (db s),
               rdb := set_entry ((rdb s)\<lparr>rfaults := tl (rfaults (rdb s))\<rparr>) ?key ?e1\<rparr>"
  have nf: "\<not> fault_now (rfaults (rdb s))" using Suc.prems(1) by simp
  have nm: "rval e \<noteq> int64_max" and nz: "rval e \<noteq> 0" using Suc.prems(4,5) by auto
  have crl: "check_rate_limit (rdb s) d ip = ((rval e + 1 \<le> rate_limit, None), rdb ?s1)"
    using check_rate_limit_live [OF nf Suc.prems(3) nm nz] by simp
  have step: "analyze_ip s ip d n =
      (if rval e < rate_limit then mk_decision ActionAllow [] else mk_decision ActionBlock ''Rate limit exceeded'', ?s1)"
    using analyze_ip_no_hit [of s ip d n] scan_rules_None [OF Suc.prems(2)] crl by simp
  have live1: "live_entry (rdb ?s1) ?key = Some ?e1"
    using live_entry_SomeD [OF Suc.prems(3)] by simp
  have IH: "fst (analyze_ip_n k ?s1 ip d n) = map (\<lambda>i. if rval ?e1 + int i < rate_limit then ActionAllow else ActionBlock) [0..<k]
         \<and> live_entry (rdb (snd (analyze_ip_n k ?s1 ip d n))) ?key = Some (?e1\<lparr>rval := rval ?e1 + int k\<rparr>)
         \<and> pg_rules (db (snd (analyze_ip_n k ?s1 ip d n))) = pg_rules (db ?s1)
         \<and> rnow (rdb (snd (analyze_ip_n k ?s1 ip d n))) = rnow (rdb ?s1)
         \<and> fault_free (rfaults (rdb (snd (analyze_ip_n k ?s1 ip d n))))"
    using Suc.prems live1 by (intro Suc.IH) auto
  obtain acts s2 where run: "analyze_ip_n k ?s1 ip d n = (acts, s2)" by fastforce
  have "analyze_ip_n (Suc k) s ip d n =
          ((if rval e < rate_limit then ActionAllow else ActionBlock) # acts, s2)"
    using step run by (simp add: mk_decision_def)
  moreover have "map (\<lambda>i. if rval e + int i < rate_limit then ActionAllow else ActionBlock) [0..<Suc k] =
      (if rval e < rate_limit then ActionAllow else ActionBlock) #
      map (\<lambda>i. if rval ?e1 + int i < rate_limit then ActionAllow else ActionBlock) [0..<k]"
    by (simp only: map_upt_Suc) (simp add: add.assoc)
  ultimately show ?case
    using IH run by (simp add: add.assoc)
qed

text \<open>The run from a counter that is missing or expired: a fresh window.\<close>

lemma analyze_ip_n_fresh:
  assumes ff: "fault_free (rfaults (rdb s))" and nr: "\<forall>r\<in>set (pg_rules (db s)). \<not> ip_block_rule ip r"
    and fresh: "live_entry (rdb s) (rl_key d ip) = None" and kb: "int k < int64_max"
  shows "fst (analyze_ip_n k s ip d n) = map (\<lambda>i. if int i < rate_limit then ActionAllow else ActionBlock) [0..<k]
         \<and> (live_entry (rdb (snd (analyze_ip_n k s ip d n))) (rl_key d ip) = None \<or>
            (\<exists>e. live_entry (rdb (snd (analyze_ip_n k s ip d n))) (rl_key d ip) = Some e \<and>
                 rexp e = Some (rnow (rdb s) + rl_window)))
         \<and> pg_rules (db (snd (analyze_ip_n k s ip d n))) = pg_rules (db s)
         \<and> rnow (rdb (snd (analyze_ip_n k s ip d n))) = rnow (rdb s)
         \<and> fault_free (rfaults (rdb (snd (analyze_ip_n k s ip d n))))"
proof (cases k)
  case 0
  with fresh ff show ?thesis by simp
next
  case (Suc k')
  let ?key = "rl_key d ip"
  let ?e1 = "\<lparr>rval = 1, rexp = Some (rnow (rdb s) + rl_window)\<rparr> :: redis_entry"
  let ?s1 = "s\<lparr>db := pg_call (db s),
               rdb := set_entry ((rdb s)\<lparr>rfaults := tl (tl (rfaults (rdb s)))\<rparr>) ?key ?e1\<rparr>"
  have nf: "\<not> fault_now (rfaults (rdb s))" "\<not> fault_now (tl (rfaults (rdb s)))" using ff by simp_all
  have step: "analyze_ip s ip d n = (mk_decision ActionAllow [], ?s1)"
    using analyze_ip_no_hit [of s ip d n] scan_rules_None [OF nr] check_rate_limit_fresh [OF nf fresh]
    by simp
  have live1: "live_entry (rdb ?s1) ?key = Some ?e1"
    by (simp add: entry_live_def rl_window_def)
  have run: "fst (analyze_ip_n k' ?s1 ip d n) = map (\<lambda>i. if rval ?e1 + int i < rate_limit then ActionAllow else ActionBlock) [0..<k']
         \<and> live_entry (rdb (snd (analyze_ip_n k' ?s1 ip d n))) ?key = Some (?e1\<lparr>rval := rval ?e1 + int k'\<rparr>)
         \<and> pg_rules (db (snd (analyze_ip_n k' ?s1 ip d n))) = pg_rules (db ?s1)
         \<and> rnow (rdb (snd (analyze_ip_n k' ?s1 ip d n))) = rnow (rdb ?s1)
         \<and> fault_free (rfaults (rdb (snd (analyze_ip_n k' ?s1 ip d n))))"
    using ff nr live1 kb Suc by (intro analyze_ip_n_live) auto
  obtain acts s2 where r2: "analyze_ip_n k' ?s1 ip d n = (acts, s2)" by fastforce
  have "analyze_ip_n k s ip d n = (ActionAllow # acts, s2)"
    using Suc step r2 by (simp add: mk_decision_def)
  moreover have "map (\<lambda>i. if int i < rate_limit then ActionAllow else ActionBlock) [0..<Suc k'] =
      ActionAllow # map (\<lambda>i. if rval ?e1 + int i < rate_limit then ActionAllow else ActionBlock) [0..<k']"
    by (simp only: map_upt_Suc) (simp add: rate_limit_def add.commute)
  ultimately show ?thesis
    using run r2 Suc by auto
qed

text \<open>Calls spread over time inside one window, from a live counter that does not expire meanwhile.\<close>

lemma analyze_ip_timed_live:
  assumes "fault_free (rfaults (rdb s))" and "\<forall>r\<in>set (pg_rules (db s)). \<not> ip_block_rule ip r"
    and "live_entry (rdb s) (rl_key d ip) = Some e" and "0 < rval e"
    and "rval e + int (length ds) < int64_max"
    and "case rexp e of None \<Rightarrow> True | Some t \<Rightarrow> rnow (rdb s) + sum_list ds < t"
  shows "fst (analyze_ip_timed ds s ip d n) =
           map (\<lambda>i. if rval e + int i < rate_limit then ActionAllow else ActionBlock) [0..<length ds]
         \<and> live_entry (rdb (snd (analyze_ip_timed ds s ip d n))) (rl_key d ip) =
             Some (e\<lparr>rval := rval e + int (length ds)\<rparr>)
         \<and> rnow (rdb (snd (analyze_ip_timed ds s ip d n))) = rnow (rdb s) + sum_list ds
         \<and> pg_rules (db (snd (analyze_ip_timed ds s ip d n))) = pg_rules (db s)
         \<and> fault_free (rfaults (rdb (snd (analyze_ip_timed ds s ip d n))))"
  using assms
proof (induction ds arbitrary: s e)
  case Nil
  then show ?case by simp
next
  case (Cons dt ds)
  let ?key = "rl_key d ip"
  let ?s1 = "s\<lparr>rdb := redis_advance (rdb s) dt\<rparr>"
  let ?e1 = "e\<lparr>rval := rval e + 1\<rparr>"
  let ?s2 = "?s1\<lparr>db := pg_call (db ?s1),
               rdb := set_entry ((rdb ?s1)\<lparr>rfaults := tl (rfaults (rdb ?s1))\<rparr>) ?key ?e1\<rparr>"
  have live1: "live_entry (rdb ?s1) ?key = Some e"
    using live_entry_advance_live [OF Cons.prems(3), of dt] Cons.prems(6)
    by (auto split: option.splits)
  have nf: "\<not> fault_now (rfaults (rdb ?s1))" using Cons.prems(1) by (simp add: redis_advance_def)
  have nm: "rval e \<noteq> int64_max" and nz: "rval e \<noteq> 0" using Cons.prems(4,5) by auto
  have crl: "check_rate_limit (rdb ?s1) d ip = ((rval e + 1 \<le> rate_limit, None), rdb ?s2)"
    using check_rate_limit_live [OF nf live1 nm nz] by simp
  have step: "analyze_ip ?s1 ip d n =
      (if rval e < rate_limit then mk_decision ActionAllow [] else mk_decision ActionBlock ''Rate limit exceeded'', ?s2)"
    using analyze_ip_no_hit [of ?s1 ip d n] scan_rules_None [OF Cons.prems(2)] crl by simp
  have live2: "live_entry (rdb ?s2) ?key = Some ?e1"
    using live_entry_SomeD [OF live1] by simp
  have IH: "fst (analyze_ip_timed ds ?s2 ip d n) =
           map (\<lambda>i. if rval ?e1 + int i < rate_limit then ActionAllow else ActionBlock) [0..<length ds]
         \<and> live_entry (rdb (snd (analyze_ip_timed ds ?s2 ip d n))) ?key = Some (?e1\<lparr>rval := rval ?e1 + int (length ds)\<rparr>)
         \<and> rnow (rdb (snd (analyze_ip_timed ds ?s2 ip d n))) = rnow (rdb ?s2) + sum_list ds
         \<and> pg_rules (db (snd (analyze_ip_timed ds ?s2 ip d n))) = pg_rules (db ?s2)
         \<and> fault_free (rfaults (rdb (snd (analyze_ip_timed ds ?s2 ip d n))))"
    using Cons.prems live2 by (intro Cons.IH) (auto simp: redis_advance_def split: option.splits)
  obtain acts s3 where run: "analyze_ip_timed ds ?s2 ip d n = (acts, s3)" by fastforce
  have "analyze_ip_timed (dt # ds) s ip d n =
          ((if rval e < rate_limit then ActionAllow else ActionBlock) # acts, s3)"
    using step run by (simp add: mk_decision_def)
  moreover have "map (\<lambda>i. if rval e + int i < rate_limit then ActionAllow else ActionBlock) [0..<Suc (length ds)] =
      (if rval e < rate_limit then ActionAllow else ActionBlock) #
      map (\<lambda>i. if rval ?e1 + int i < rate_limit then ActionAllow else ActionBlock) [0..<length ds]"
    by (simp only: map_upt_Suc) (simp add: add.assoc)
  ultimately show ?case
    using IH run by (simp add: add.assoc redis_advance_def)
qed

text \<open>A window opened by a call whose counter is missing or expired, and the calls of that window.\<close>

lemma analyze_ip_timed_fresh:
  assumes ff: "fault_free (rfaults (rdb s))" and nr: "\<forall>r\<in>set (pg_rules (db s)). \<not> ip_block_rule ip r"
    and fresh: "live_entry (redis_advance (rdb s) dt) (rl_key d ip) = None"
    and win: "sum_list ds < rl_window" and kb: "int (length ds) + 1 < int64_max"
  shows "fst (analyze_ip_timed (dt # ds) s ip d n) =
           map (\<lambda>i. if int i < rate_limit then ActionAllow else ActionBlock) [0..<Suc (length ds)]
         \<and> live_entry (rdb (snd (analyze_ip_timed (dt # ds) s ip d n))) (rl_key d ip) =
             Some \<lparr>rval = 1 + int (length ds), rexp = Some (rnow (rdb s) + dt + rl_window)\<rparr>
         \<and> rnow (rdb (snd (analyze_ip_timed (dt # ds) s ip d n))) = rnow (rdb s) + dt + sum_list ds
         \<and> pg_rules (db (snd (analyze_ip_timed (dt # ds) s ip d n))) = pg_rules (db s)
         \<and> fault_free (rfaults (rdb (snd (analyze_ip_timed (dt # ds) s ip d n))))"
proof -
  let ?key = "rl_key d ip"
  let ?s1 = "s\<lparr>rdb := redis_advance (rdb s) dt\<rparr>"
  let ?e1 = "\<lparr>rval = 1, rexp = Some (rnow (rdb ?s1) + rl_window)\<rparr> :: redis_entry"
  let ?s2 = "?s1\<lparr>db := pg_call (db ?s1),
               rdb := set_entry ((rdb ?s1)\<lparr>rfaults := tl (tl (rfaults (rdb ?s1)))\<rparr>) ?key ?e1\<rparr>"
  have nf: "\<not> fault_now (rfaults (rdb ?s1))" "\<not> fault_now (tl (rfaults (rdb ?s1)))"
    using ff by (simp_all add: redis_advance_def)
  have step: "analyze_ip ?s1 ip d n = (mk_decision ActionAllow [], ?s2)"
    using analyze_ip_no_hit [of ?s1 ip d n] scan_rules_None [OF nr] check_rate_limit_fresh [OF nf] fresh
    by simp
  have live2: "live_entry (rdb ?s2) ?key = Some ?e1"
    by (simp add: entry_live_def rl_window_def)
  have run: "fst (analyze_ip_timed ds ?s2 ip d n) =
           map (\<lambda>i. if rval ?e1 + int i < rate_limit then ActionAllow else ActionBlock) [0..<length ds]
         \<and> live_entry (rdb (snd (analyze_ip_timed ds ?s2 ip d n))) ?key = Some (?e1\<lparr>rval := rval ?e1 + int (length ds)\<rparr>)
         \<and> rnow (rdb (snd (analyze_ip_timed ds ?s2 ip d n))) = rnow (rdb ?s2) + sum_list ds
         \<and> pg_rules (db (snd (analyze_ip_timed ds ?s2 ip d n))) = pg_rules (db ?s2)
         \<and> fault_free (rfaults (rdb (snd (analyze_ip_timed ds ?s2 ip d n))))"
    using ff nr live2 kb win by (intro analyze_ip_timed_live) (auto simp: redis_advance_def)
  obtain acts s3 where r3: "analyze_ip_timed ds ?s2 ip d n = (acts, s3)" by fastforce
  have "analyze_ip_timed (dt # ds) s ip d n = (ActionAllow # acts, s3)"
    using step r3 by (simp add: mk_decision_def)
  moreover have "map (\<lambda>i. if int i < rate_limit then ActionAllow else ActionBlock) [0..<Suc (length ds)] =
      ActionAllow # map (\<lambda>i. if 1 + int i < rate_limit then ActionAllow else ActionBlock) [0..<length ds]"
    by (simp only: map_upt_Suc) (simp add: rate_limit_def add.commute)
  ultimately show ?thesis
    using run r3 by (simp add: redis_advance_def add.commute)
qed

text \<open>
  C2. Fixed window: for a client and domain whose counter is missing or expired, with a
  reachable Redis and no IP block rule for the client, the calls of \<open>AnalyzeIP\<close> made
  within one window are allowed for the first 100 and blocked ("Rate limit exceeded")
  from the 101st on, whatever the rule query answers.
\<close>

theorem rate_limit_window:
  assumes "fault_free (rfaults (rdb s))" and "\<forall>r\<in>set (pg_rules (db s)). \<not> ip_block_rule ip r"
    and "live_entry (rdb s) (rl_key d ip) = None" and "int k < int64_max"
  shows "fst (analyze_ip_n k s ip d n) = map (\<lambda>i. if i < 100 then ActionAllow else ActionBlock) [0..<k]"
  using analyze_ip_n_fresh [OF assms] by (simp add: rate_limit_def)

text \<open>
  C3. Fixed window, reset 60 seconds after its first call: from a missing or expired
  counter, a call and the calls that follow it within less than 60 seconds get 100
  allowances and are blocked ("Rate limit exceeded") from the 101st on, whatever the
  delays between them. The first call 60 seconds or more after the window's first call,
  however recent the previous call, opens a fresh window with 100 allowances again:
  only a window's first call sends \<open>EXPIRE\<close>, so later calls never extend the window.
\<close>

theorem rate_limit_window_reset:
  assumes ff: "fault_free (rfaults (rdb s))" and nr: "\<forall>r\<in>set (pg_rules (db s)). \<not> ip_block_rule ip r"
    and fresh: "live_entry (rdb s) (rl_key d ip) = None"
    and w1: "sum_list ds < rl_window" and late: "rl_window \<le> sum_list ds + delta"
    and w2: "sum_list ds' < rl_window"
    and kb: "int (length ds) + 1 < int64_max" and kb': "int (length ds') + 1 < int64_max"
  shows "fst (analyze_ip_timed (0 # ds) s ip d n) =
           map (\<lambda>i. if i < 100 then ActionAllow else ActionBlock) [0..<Suc (length ds)]
         \<and> fst (analyze_ip_timed (delta # ds') (snd (analyze_ip_timed (0 # ds) s ip d n)) ip d n) =
           map (\<lambda>i. if i < 100 then ActionAllow else ActionBlock) [0..<Suc (length ds')]"
proof -
  let ?s1 = "snd (analyze_ip_timed (0 # ds) s ip d n)"
  have fresh0: "live_entry (redis_advance (rdb s) 0) (rl_key d ip) = None"
    using fresh by (rule live_entry_advance_None)
  note r1 = analyze_ip_timed_fresh [OF ff nr fresh0 w1 kb, where n = n]
  have fresh1: "live_entry (redis_advance (rdb ?s1) delta) (rl_key d ip) = None"
    using r1 late by (intro live_entry_advance_expires) auto
  have "fault_free (rfaults (rdb ?s1))" and "\<forall>r\<in>set (pg_rules (db ?s1)). \<not> ip_block_rule ip r"
    using r1 nr by simp_all
  note r2 = analyze_ip_timed_fresh [OF this fresh1 w2 kb', where n = n]
  show ?thesis using r1 r2 by (simp add: rate_limit_def)
qed

text \<open>
  C1. Rule precedence: when the rule query answers with all its rows and the first IP block rule for the
  client is \<open>rule\<close>, \<open>AnalyzeIP\<close> blocks with that rule's description as reason, and
  the Redis counter store is not touched at all (whatever the counter's value), because
  the scan returns before the rate limiter runs.
\<close>

theorem analyze_ip_rule_first:
  assumes "\<not> fault_now (pg_faults (db s))" and "row_cut (pg_cuts (db s)) = None"
    and "pg_rules (db s) = before @ rule # after"
    and "\<forall>r\<in>set before. \<not> ip_block_rule ip r" and "ip_block_rule ip rule"
  shows "analyze_ip s ip d n =
           (mk_decision ActionBlock (''IP blocked by rule: '' @ rule_description rule), s\<lparr>db := pg_call (db s)\<rparr>)"
proof -
  have "scan_rules ip (rows_read (pg_cuts (db s)) (pg_rules (db s))) = Some rule"
    using assms(2-5) by (simp add: rows_read_def scan_rules_find find_append_first)
  with assms(1) show ?thesis by (rule analyze_ip_hit)
qed

text \<open>
  C4. Fail open on the counter store: when no block rule applies and Redis fails the
  \<open>INCR\<close>, \<open>AnalyzeIP\<close> allows, and the only change to Redis is the consumed call.
\<close>

theorem analyze_ip_redis_fail_open:
  assumes "fault_now (pg_faults (db s)) \<or> scan_rules ip (pg_rules (db s)) = None"
    and "fault_now (rfaults (rdb s))"
  shows "analyze_ip s ip d n =
           (mk_decision ActionAllow [], s\<lparr>db := pg_call (db s), rdb := (rdb s)\<lparr>rfaults := tl (rfaults (rdb s))\<rparr>\<rparr>)"
  using analyze_ip_no_hit [OF assms(1)] check_rate_limit_fault [OF assms(2)] by simp

text \<open>
  C5. Fail open on the rule store, detected or not: take a client that a stored IP
  rule blocks, with Redis up and no counter yet. If the rule query fails with an error,
  or its row stream breaks off before the rule's row, \<open>AnalyzeIP\<close> allows the client
  and counts it as the first call of a fresh window. The second case is not even
  detected: \<open>GetAll\<close> never checks \<open>rows.Err()\<close> and returns the rows read so far.
\<close>

theorem analyze_ip_rules_fail_open:
  assumes "pg_rules (db s) = before @ rule # after" and "ip_block_rule ip rule"
    and "\<forall>r\<in>set before. \<not> ip_block_rule ip r"
    and "fault_now (pg_faults (db s)) \<or> (row_cut (pg_cuts (db s)) = Some k \<and> k \<le> length before)"
    and "fault_free (rfaults (rdb s))" and "live_entry (rdb s) (rl_key d ip) = None"
  shows "analyze_ip s ip d n =
           (mk_decision ActionAllow [],
            s\<lparr>db := pg_call (db s),
              rdb := set_entry ((rdb s)\<lparr>rfaults := tl (tl (rfaults (rdb s)))\<rparr>) (rl_key d ip)
                       \<lparr>rval = 1, rexp = Some (rnow (rdb s) + rl_window)\<rparr>\<rparr>)"
proof -
  have "fault_now (pg_faults (db s)) \<or> scan_rules ip (rows_read (pg_cuts (db s)) (pg_rules (db s))) = None"
  proof (cases "fault_now (pg_faults (db s))")
    case False
    with assms(4) have "rows_read (pg_cuts (db s)) (pg_rules (db s)) = take k before"
      using assms(1) by (simp add: rows_read_def)
    moreover have "scan_rules ip (take k before) = None"
      using assms(3) by (intro scan_rules_None) (auto dest: in_set_takeD)
    ultimately show ?thesis by simp
  qed simp
  moreover have "\<not> fault_now (rfaults (rdb s))" "\<not> fault_now (tl (rfaults (rdb s)))"
    using assms(5) by simp_all
  ultimately show ?thesis
    using analyze_ip_no_hit_read [of s ip d n] check_rate_limit_fresh [of "rdb s" d ip] assms(6) by simp
qed

subsection \<open>Counter keys and isolation\<close>

text \<open>The key format is injective: the decimal domain id holds no colon.\<close>

lemma rl_key_inj: "rl_key d1 ip1 = rl_key d2 ip2 \<Longrightarrow> d1 = d2 \<and> ip1 = ip2"
proof -
  assume "rl_key d1 ip1 = rl_key d2 ip2"
  then have "go_itoa d1 @ CHR '':'' # ip1 = go_itoa d2 @ CHR '':'' # ip2"
    by (simp add: rl_key_def)
  then have "go_itoa d1 = go_itoa d2 \<and> ip1 = ip2"
    using append_sep_eq [where x = "CHR '':''" and xs = "go_itoa d1" and xs' = "go_itoa d2"] by simp
  then show ?thesis by (auto dest: go_itoa_inj)
qed

lemma check_rate_limit_other [model_simps]:
  assumes "k \<noteq> rl_key d ip"
  shows "live_entry (snd (check_rate_limit r d ip)) k = live_entry r k"
proof -
  obtain res r1 where inc: "redis_incr r (rl_key d ip) = (res, r1)" by fastforce
  have l1: "live_entry r1 k = live_entry r k"
    using redis_incr_other [OF assms, of r] inc by simp
  have l2: "live_entry (snd (redis_expire r1 (rl_key d ip) rl_window)) k = live_entry r1 k"
    using redis_expire_other [OF assms] .
  show ?thesis
    using inc l1 l2 by (auto simp: check_rate_limit_def Let_def split: sum.splits)
qed

text \<open>\<open>AnalyzeIP\<close> leaves Redis alone or is one call of \<open>checkRateLimit\<close>.\<close>

lemma analyze_ip_rdb:
  "rdb (snd (analyze_ip s ip d n)) = rdb s \<or>
   rdb (snd (analyze_ip s ip d n)) = snd (check_rate_limit (rdb s) d ip)"
  by (auto simp: analyze_ip_def bot_get_all_def Let_def split: prod.splits option.splits sum.splits)

text \<open>
  C6. Isolation of counters: a call of \<open>AnalyzeIP\<close> for one (domain, client) pair
  never changes the rate-limit counter of another pair, because the key
  \<open>ratelimit:<domainID>:<ip>\<close> determines both the domain id and the client IP.
\<close>

theorem rate_limit_isolation:
  assumes "(d', ip') \<noteq> (d, ip)"
  shows "live_entry (rdb (snd (analyze_ip s ip d n))) (rl_key d' ip') = live_entry (rdb s) (rl_key d' ip')"
proof -
  have ne: "rl_key d' ip' \<noteq> rl_key d ip"
    using assms rl_key_inj by blast
  show ?thesis
    using analyze_ip_rdb [of s ip d n] check_rate_limit_other [OF ne, of "rdb s"] by auto
qed

text \<open>
  The first call of a window whose \<open>EXPIRE\<close> fails after a successful \<open>INCR\<close>: the
  counter exists and has no expiry.
\<close>

lemma check_rate_limit_expire_fails:
  assumes "\<not> fault_now (rfaults r)" and "fault_now (tl (rfaults r))"
    and "live_entry r (rl_key d ip) = None"
  shows "check_rate_limit r d ip =
           ((True, None), set_entry (r\<lparr>rfaults := tl (tl (rfaults r))\<rparr>) (rl_key d ip) \<lparr>rval = 1, rexp = None\<rparr>)"
  using assms
  by (simp add: check_rate_limit_def redis_incr_up redis_expire_def incr_ok_def rate_limit_def)

text \<open>
  C8. Non-atomic window start: \<open>checkRateLimit\<close> sends \<open>INCR\<close> and \<open>EXPIRE\<close> as two
  commands and ignores the result of the second. If the \<open>EXPIRE\<close> of a window's first
  call fails, the counter never expires: whatever the delays between the later calls
  (days included), the client gets 99 more allowances in total and is blocked on every
  call after that.
\<close>

theorem expire_failure_no_reset:
  assumes faults: "rfaults (rdb s) = [False, True]"
    and nr: "\<forall>r\<in>set (pg_rules (db s)). \<not> ip_block_rule ip r"
    and fresh: "live_entry (rdb s) (rl_key d ip) = None" and kb: "int (length ds) + 1 < int64_max"
  shows "fst (analyze_ip_timed ds (snd (analyze_ip s ip d n)) ip d n)
         = map (\<lambda>i. if i + 1 < 100 then ActionAllow else ActionBlock) [0..<length ds]"
proof -
  let ?e = "\<lparr>rval = 1, rexp = None\<rparr> :: redis_entry"
  let ?s1 = "snd (analyze_ip s ip d n)"
  have crl: "check_rate_limit (rdb s) d ip =
               ((True, None), set_entry ((rdb s)\<lparr>rfaults := []\<rparr>) (rl_key d ip) ?e)"
    using check_rate_limit_expire_fails [of "rdb s" d ip] faults fresh by simp
  have s1: "?s1 = s\<lparr>db := pg_call (db s), rdb := set_entry ((rdb s)\<lparr>rfaults := []\<rparr>) (rl_key d ip) ?e\<rparr>"
    using analyze_ip_no_hit [of s ip d n] scan_rules_None [OF nr] crl by simp
  have live: "live_entry (rdb ?s1) (rl_key d ip) = Some ?e"
    using s1 by (simp add: entry_live_def)
  have "fault_free (rfaults (rdb ?s1))" and "\<forall>r\<in>set (pg_rules (db ?s1)). \<not> ip_block_rule ip r"
    using s1 nr by simp_all
  from analyze_ip_timed_live [OF this live, where ds = ds and n = n] kb
  have "fst (analyze_ip_timed ds ?s1 ip d n) =
          map (\<lambda>i. if 1 + int i < rate_limit then ActionAllow else ActionBlock) [0..<length ds]"
    by (simp add: add.commute)
  then show ?thesis by (simp add: rate_limit_def add.commute)
qed

subsection \<open>Facts about \<open>Analyze\<close>\<close>

text \<open>
  C9. Short-circuit: when the domain lookup answers and the Host header (port stripped)
  names no domain, or an inactive one, \<open>Analyze\<close> blocks with "Domain not found or
  inactive" and neither scans rules nor touches the Redis counters: the only change to
  the world is the one domain query.
\<close>

theorem analyze_unknown_or_inactive:
  assumes "\<not> fault_now (pg_faults (db s))"
    and "(case List.find (\<lambda>d. dom_name d = host_or_self (req_host r)) (pg_domains (db s)) of
            None \<Rightarrow> True | Some d \<Rightarrow> \<not> dom_active d)"
  shows "analyze s r = (Inr (mk_decision ActionBlock ''Domain not found or inactive''), s\<lparr>db := pg_call (db s)\<rparr>)"
  using assms by (auto simp: analyze_def domain_get_by_name_def split: option.splits)

text \<open>
  C10. A failing domain lookup is the one error \<open>Analyze\<close> returns: the error is
  propagated, no decision is made and no counter is touched.
\<close>

theorem analyze_lookup_error:
  assumes "fault_now (pg_faults (db s))"
  shows "analyze s r = (Inl PgError, s\<lparr>db := pg_call (db s)\<rparr>)"
  using assms by (simp add: analyze_def domain_get_by_name_def)

text \<open>
  C12. For an active domain, \<open>Analyze\<close> is \<open>AnalyzeIP\<close> on the client IP of
  \<open>RemoteAddr\<close> (empty when it does not split), the domain's id and the stripped host,
  with the resolved domain attached to the decision.
\<close>

subsection \<open>A concrete world, for the witnesses\<close>

definition sample_domain :: domain where
  "sample_domain =
     \<lparr>dom_id = 1, dom_name = ''example.com'', dom_target_url = ''http://10.0.0.2:8080'',
      dom_active = True, dom_config = Some ''{}'', dom_created_at = 0, dom_updated_at = 0\<rparr>"

definition sample_rule :: bot_rule where
  "sample_rule =
     \<lparr>rule_id = 1, rule_type = ''IP'', rule_value = ''10.0.0.9'', rule_action = ''BLOCK'',
      rule_description = ''scanner'', rule_created_at = 0\<rparr>"

definition sample_world :: "faults \<Rightarrow> faults \<Rightarrow> estate" where
  "sample_world pf rf =
     \<lparr>db = \<lparr>pg_domains = [sample_domain], pg_rules = [sample_rule], pg_records = [], pg_domain_seq = 2,
            pg_rule_seq = 2, pg_now = 0, pg_faults = pf, pg_cuts = []\<rparr>,
      rdb = \<lparr>rstore = Mapping.empty, rnow = 0, rfaults = rf\<rparr>\<rparr>"

lemma sample_world_simps [simp]:
  "pg_rules (db (sample_world pf rf)) = [sample_rule]"
  "pg_domains (db (sample_world pf rf)) = [sample_domain]"
  "pg_faults (db (sample_world pf rf)) = pf"
  "pg_cuts (db (sample_world pf rf)) = []"
  "rfaults (rdb (sample_world pf rf)) = rf"
  "live_entry (rdb (sample_world pf rf)) k = None"
  by (simp_all add: sample_world_def live_entry_def)

lemma sample_rule_blocks: "ip_block_rule ''10.0.0.9'' sample_rule"
  by (simp add: ip_block_rule_def sample_rule_def)

lemma sample_rule_other: "\<forall>r\<in>set [sample_rule]. \<not> ip_block_rule ''10.0.0.1'' r"
  by (simp add: ip_block_rule_def sample_rule_def)

text \<open>The stored rule blocks 10.0.0.9 before any counter is read.\<close>

theorem analyze_ip_rule_first_witness:
  "analyze_ip (sample_world [] []) ''10.0.0.9'' 1 ''example.com'' =
     (mk_decision ActionBlock (''IP blocked by rule: '' @ rule_description sample_rule),
      (sample_world [] [])\<lparr>db := pg_call (db (sample_world [] []))\<rparr>)"
proof -
  have h: "\<not> fault_now (pg_faults (db (sample_world [] [])))"
    "row_cut (pg_cuts (db (sample_world [] []))) = None"
    "pg_rules (db (sample_world [] [])) = [] @ sample_rule # []"
    "\<forall>r\<in>set []. \<not> ip_block_rule ''10.0.0.9'' r"
    by (simp_all add: row_cut_def)
  show ?thesis using analyze_ip_rule_first [OF h sample_rule_blocks] by simp
qed

text \<open>101 calls from 10.0.0.1 in a fresh window.\<close>

theorem rate_limit_window_witness:
  "fst (analyze_ip_n 101 (sample_world [] []) ''10.0.0.1'' 1 ''example.com'') =
     map (\<lambda>i. if i < 100 then ActionAllow else ActionBlock) [0..<101]"
proof -
  have h: "fault_free (rfaults (rdb (sample_world [] [])))"
    "\<forall>r\<in>set (pg_rules (db (sample_world [] []))). \<not> ip_block_rule ''10.0.0.1'' r"
    "live_entry (rdb (sample_world [] [])) (rl_key 1 ''10.0.0.1'') = None" "int 101 < int64_max"
    using sample_rule_other by (simp_all add: int64_max_def)
  show ?thesis using rate_limit_window [OF h] by simp
qed

text \<open>100 calls, a minute passes, 100 calls again: 200 allowed around the boundary.\<close>

theorem rate_limit_window_reset_witness:
  "fst (analyze_ip_timed (30 # replicate 100 0)
          (snd (analyze_ip_timed (0 # 30 # replicate 100 0) (sample_world [] []) ''10.0.0.1'' 1 ''example.com''))
          ''10.0.0.1'' 1 ''example.com'') =
     map (\<lambda>i. if i < 100 then ActionAllow else ActionBlock) [0..<101]"
proof -
  have h: "fault_free (rfaults (rdb (sample_world [] [])))"
    "\<forall>r\<in>set (pg_rules (db (sample_world [] []))). \<not> ip_block_rule ''10.0.0.1'' r"
    "live_entry (rdb (sample_world [] [])) (rl_key 1 ''10.0.0.1'') = None"
    "sum_list (30 # replicate 100 0) < rl_window" "rl_window \<le> sum_list (30 # replicate 100 0) + 30"
    "sum_list (replicate 100 0) < rl_window"
    "int (length (30 # replicate 100 (0::nat))) + 1 < int64_max" "int (length (replicate 100 (0::nat))) + 1 < int64_max"
    using sample_rule_other by (simp_all add: int64_max_def rl_window_def sum_list_replicate)
  show ?thesis using rate_limit_window_reset [OF h, where n = "''example.com''"] by simp
qed

text \<open>Redis down on the first command: 10.0.0.1 is allowed.\<close>

theorem analyze_ip_redis_fail_open_witness:
  "analyze_ip (sample_world [] [True]) ''10.0.0.1'' 1 ''example.com'' =
     (mk_decision ActionAllow [], (sample_world [] [True])\<lparr>db := pg_call (db (sample_world [] [True])),
        rdb := (rdb (sample_world [] [True]))\<lparr>rfaults := tl (rfaults (rdb (sample_world [] [True])))\<rparr>\<rparr>)"
proof -
  have h: "fault_now (pg_faults (db (sample_world [] [True]))) \<or>
           scan_rules ''10.0.0.1'' (pg_rules (db (sample_world [] [True]))) = None"
    "fault_now (rfaults (rdb (sample_world [] [True])))"
    using sample_rule_other by (simp_all add: scan_rules_None)
  show ?thesis using analyze_ip_redis_fail_open [OF h] by simp
qed

text \<open>
  The rule query's row stream breaks off before its first row: 10.0.0.9, blocked by the
  stored rule, is allowed.
\<close>

theorem analyze_ip_rules_fail_open_witness:
  "d_action (fst (analyze_ip ((sample_world [] [])\<lparr>db := (db (sample_world [] []))\<lparr>pg_cuts := [Some 0]\<rparr>\<rparr>) ''10.0.0.9'' 1 ''example.com'')) = ActionAllow"
proof -
  have h: "pg_rules (db ((sample_world [] [])\<lparr>db := (db (sample_world [] []))\<lparr>pg_cuts := [Some 0]\<rparr>\<rparr>)) = [] @ sample_rule # []"
    "\<forall>r\<in>set []. \<not> ip_block_rule ''10.0.0.9'' r"
    "fault_now (pg_faults (db ((sample_world [] [])\<lparr>db := (db (sample_world [] []))\<lparr>pg_cuts := [Some 0]\<rparr>\<rparr>))) \<or> (row_cut (pg_cuts (db ((sample_world [] [])\<lparr>db := (db (sample_world [] []))\<lparr>pg_cuts := [Some 0]\<rparr>\<rparr>))) = Some 0 \<and> 0 \<le> length ([] :: bot_rule list))"
    "fault_free (rfaults (rdb ((sample_world [] [])\<lparr>db := (db (sample_world [] []))\<lparr>pg_cuts := [Some 0]\<rparr>\<rparr>)))" "live_entry (rdb ((sample_world [] [])\<lparr>db := (db (sample_world [] []))\<lparr>pg_cuts := [Some 0]\<rparr>\<rparr>)) (rl_key 1 ''10.0.0.9'') = None"
    by (simp_all add: row_cut_def)
  show ?thesis
    using analyze_ip_rules_fail_open [OF h(1) sample_rule_blocks h(2-5), of "''example.com''"]
    by (simp add: mk_decision_def)
qed

definition sample_request :: "string \<Rightarrow> http_request" where
  "sample_request host =
     \<lparr>req_host = host, req_remote_addr = ''10.0.0.1:5555'', req_method = ''GET'', req_path = ''/'',
      req_user_agent = ''curl''\<rparr>"

lemma sample_request_hosts:
  "host_or_self (req_host (sample_request ''example.com:8080'')) = ''example.com''"
  "host_or_self (req_host (sample_request ''other.org'')) = ''other.org''"
  "host_or_empty (req_remote_addr (sample_request h)) = ''10.0.0.1''"
  by (simp_all add: sample_request_def host_or_self_def host_or_empty_def split_host_port_def
      last_index_of_def split_tail_def)

text \<open>A request for an unknown host is blocked without a rate-limit check.\<close>

theorem analyze_unknown_or_inactive_witness:
  "analyze (sample_world [] []) (sample_request ''other.org'') =
     (Inr (mk_decision ActionBlock ''Domain not found or inactive''),
      (sample_world [] [])\<lparr>db := pg_call (db (sample_world [] []))\<rparr>)"
proof -
  have "\<not> fault_now (pg_faults (db (sample_world [] [])))" by simp
  moreover have "(case List.find (\<lambda>d. dom_name d = host_or_self (req_host (sample_request ''other.org'')))
                    (pg_domains (db (sample_world [] []))) of None \<Rightarrow> True | Some d \<Rightarrow> \<not> dom_active d)"
    by (simp add: sample_request_hosts sample_domain_def)
  ultimately show ?thesis by (rule analyze_unknown_or_inactive)
qed

text \<open>The domain store is down: the error reaches the caller.\<close>

theorem analyze_lookup_error_witness:
  "analyze (sample_world [True] []) (sample_request ''example.com:8080'') =
     (Inl PgError, (sample_world [True] [])\<lparr>db := pg_call (db (sample_world [True] []))\<rparr>)"
  by (rule analyze_lookup_error) simp

text \<open>A request for example.com:8080 from 10.0.0.1 goes to \<open>AnalyzeIP\<close> for domain 1.\<close>

text \<open>A call for domain 1 leaves the counter of domain 2 for the same client absent.\<close>

theorem rate_limit_isolation_witness:
  "live_entry (rdb (snd (analyze_ip (sample_world [] []) ''10.0.0.1'' 1 ''example.com'')))
     (rl_key 2 ''10.0.0.1'') = None"
proof -
  have "((2::int), ''10.0.0.1'') \<noteq> (1, ''10.0.0.1'')" by simp
  from rate_limit_isolation [OF this] show ?thesis by simp
qed

text \<open>The \<open>EXPIRE\<close> of the first call fails; 200 calls, one a day, get 99 allowances.\<close>

theorem expire_failure_no_reset_witness:
  "fst (analyze_ip_timed (replicate 200 86400) (snd (analyze_ip (sample_world [] [False, True]) ''10.0.0.1'' 1 ''example.com''))
        ''10.0.0.1'' 1 ''example.com'')
   = map (\<lambda>i. if i + 1 < 100 then ActionAllow else ActionBlock) [0..<200]"
proof -
  have h: "rfaults (rdb (sample_world [] [False, True])) = [False, True]"
    "\<forall>r\<in>set (pg_rules (db (sample_world [] [False, True]))). \<not> ip_block_rule ''10.0.0.1'' r"
    "live_entry (rdb (sample_world [] [False, True])) (rl_key 1 ''10.0.0.1'') = None"
    "int (length (replicate 200 (86400::nat))) + 1 < int64_max"
    using sample_rule_other by (simp_all add: int64_max_def)
  show ?thesis using expire_failure_no_reset [OF h, where n = "''example.com''"] by simp
qed

end
