(* ===== verification/Frontends.thy ===== *)
theory Frontends
  imports Engine
begin

text \<open>
  The two front-ends that call the engine once per unit of work: the HTTP reverse proxy,
  \<open>src/internal/proxy/handler.go\<close> (\<open>ServeHTTP\<close> and its \<open>responseWrapper\<close>), and the
  DNS responder, \<open>src/internal/dns/server.go\<close> (\<open>handleRequest\<close>, \<open>parseQuery\<close> and the
  record handlers). Each handler is one function from the front-end state (the engine's
  stores, the telemetry repository and, for the proxy, the log of upstream contacts) to
  the response it writes and the state after it. Transport mechanics are parameters:
  whether \<open>url.Parse\<close> accepts a target and what status the upstream writes (proxy),
  whether \<open>dns.NewRR\<close> accepts a record text and the name table \<open>dns.TypeToString\<close>
  (DNS). A panic of the telemetry call is returned beside the response already written.
\<close>

subsection \<open>HTTP proxy\<close>

text \<open>A response: written by the handler (status and body), or by the reverse proxy.\<close>

datatype http_response = HttpResp go_int string | Proxied string go_int

text \<open>
  The transport: \<open>url_parse_ok t\<close> when \<open>url.Parse t\<close> succeeds; \<open>upstream_status t r\<close>
  the code the reverse proxy passes to \<open>WriteHeader\<close> for \<open>r\<close> sent to \<open>t\<close>, \<open>None\<close> when
  it writes the body without calling it.
\<close>

record upstream_env =
  url_parse_ok :: "string \<Rightarrow> bool"
  upstream_status :: "string \<Rightarrow> http_request \<Rightarrow> go_int option"

record fstate =
  es :: estate
  tel :: ch_repo
  upstream_log :: "(string \<times> http_request) list"

text \<open>\<open>http.Error(w, msg, code)\<close> writes \<open>msg\<close> and a newline with the code.\<close>

definition http_error :: "string \<Rightarrow> go_int \<Rightarrow> http_response" where
  "http_error msg code = HttpResp code (msg @ [CHR 0x0A])"

text \<open>
  \<open>responseWrapper\<close>: starts at \<open>http.StatusOK\<close>; \<open>WriteHeader(code)\<close> records the code.
\<close>

definition wrapped_status :: "go_int option \<Rightarrow> go_int" where
  "wrapped_status c = (case c of None \<Rightarrow> 200 | Some code \<Rightarrow> code)"

text \<open>
  \<open>ServeHTTP\<close>: analyze; on an error answer 500 and return; on \<open>BLOCK\<close> write 403 with
  the reason and log; with a domain and a non-empty target, parse it (500 and return on
  failure), proxy, and log the wrapped status; otherwise \<open>http.NotFound\<close>.
  \<open>now\<close> is the timestamp and \<open>dur\<close> the \<open>time.Since(start)\<close> in microseconds.
\<close>

definition serve_http ::
  "upstream_env \<Rightarrow> fstate \<Rightarrow> go_time \<Rightarrow> int \<Rightarrow> http_request \<Rightarrow> (http_response \<times> go_error option) \<times> fstate" where
  "serve_http env s now dur r =
     (let (res, es1) = analyze (es s) r;
          s1 = s\<lparr>es := es1\<rparr> in
      case res of
        Inl _ \<Rightarrow> ((http_error ''Internal Server Error'' 500, None), s1)
      | Inr dec \<Rightarrow>
          if d_action dec = ActionBlock then
            (let resp = HttpResp 403 (''Access Denied: '' @ d_reason dec) in
             case log_request (tel s1) now r dec 403 dur of
               Inl e \<Rightarrow> ((resp, Some e), s1)
             | Inr t \<Rightarrow> ((resp, None), s1\<lparr>tel := t\<rparr>))
          else (case d_domain dec of
                  Some d \<Rightarrow>
                    if dom_target_url d \<noteq> [] then
                      (if \<not> url_parse_ok env (dom_target_url d)
                       then ((http_error ''Invalid Target URL'' 500, None), s1)
                       else
                         (let target = dom_target_url d;
                              st = wrapped_status (upstream_status env target r);
                              s2 = s1\<lparr>upstream_log := upstream_log s1 @ [(target, r)]\<rparr> in
                          case log_request (tel s2) now r dec st dur of
                            Inl e \<Rightarrow> ((Proxied target st, Some e), s2)
                          | Inr t \<Rightarrow> ((Proxied target st, None), s2\<lparr>tel := t\<rparr>)))
                    else ((http_error ''404 page not found'' 404, None), s1)
                | None \<Rightarrow> ((http_error ''404 page not found'' 404, None), s1)))"

subsection \<open>DNS responder\<close>

text \<open>
  The parts of a \<open>dns.Msg\<close> the handler reads and writes: opcode, questions (name and
  \<open>uint16\<close> type), response code and the answer records in their text form.
\<close>

record dns_question =
  q_name :: string
  q_type :: "16 word"

record dns_msg =
  m_opcode :: nat
  m_question :: "dns_question list"
  m_rcode :: nat
  m_answer :: "string list"

definition opcode_query :: nat where "opcode_query = 0"
definition rcode_success :: nat where "rcode_success = 0"
definition rcode_refused :: nat where "rcode_refused = 5"

definition type_a :: "16 word" where "type_a = 1"
definition type_cname :: "16 word" where "type_cname = 5"
definition type_mx :: "16 word" where "type_mx = 15"
definition type_txt :: "16 word" where "type_txt = 16"

text \<open>
  \<open>m.SetReply(r)\<close> of \<open>github.com/miekg/dns\<close>: same opcode, success code, no answers,
  and only the first question of the request.
\<close>

definition set_reply :: "dns_msg \<Rightarrow> dns_msg" where
  "set_reply r = \<lparr>m_opcode = m_opcode r, m_question = take 1 (m_question r),
                  m_rcode = rcode_success, m_answer = []\<rparr>"

text \<open>The DNS library: whether \<open>dns.NewRR\<close> parses a text, and \<open>dns.TypeToString\<close>.\<close>

record dns_lib =
  new_rr_ok :: "string \<Rightarrow> bool"
  type_to_string :: "16 word \<Rightarrow> string"

record dstate =
  des :: estate
  dtel :: ch_repo

text \<open>The four record formatters of the handlers: name, TTL, content, priority.\<close>

definition fmt_a :: "string \<Rightarrow> go_int \<Rightarrow> string \<Rightarrow> go_int \<Rightarrow> string" where
  "fmt_a name ttl content prio = name @ '' '' @ go_itoa ttl @ '' IN A '' @ content"

definition fmt_cname :: "string \<Rightarrow> go_int \<Rightarrow> string \<Rightarrow> go_int \<Rightarrow> string" where
  "fmt_cname name ttl content prio = name @ '' '' @ go_itoa ttl @ '' IN CNAME '' @ content"

definition fmt_txt :: "string \<Rightarrow> go_int \<Rightarrow> string \<Rightarrow> go_int \<Rightarrow> string" where
  "fmt_txt name ttl content prio =
     name @ '' '' @ go_itoa ttl @ '' IN TXT '' @ CHR 0x22 # content @ [CHR 0x22]"

definition fmt_mx :: "string \<Rightarrow> go_int \<Rightarrow> string \<Rightarrow> go_int \<Rightarrow> string" where
  "fmt_mx name ttl content prio = name @ '' '' @ go_itoa ttl @ '' IN MX '' @ go_itoa prio @ '' '' @ content"

text \<open>
  \<open>handleCustomRecords\<close>: the records of the name and type, each formatted and kept when
  \<open>dns.NewRR\<close> accepts it; a failed query adds nothing.
\<close>

definition handle_custom_records ::
  "dns_lib \<Rightarrow> pg \<Rightarrow> string \<Rightarrow> string \<Rightarrow> string \<Rightarrow>
   (string \<Rightarrow> go_int \<Rightarrow> string \<Rightarrow> go_int \<Rightarrow> string) \<Rightarrow> string list \<times> pg" where
  "handle_custom_records lib pdb cleanName originalName recordType formatter =
     (let (res, db1) = dns_get_records_by_name_and_type pdb cleanName recordType in
      case res of
        Inl _ \<Rightarrow> ([], db1)
      | Inr records \<Rightarrow>
          (filter (new_rr_ok lib)
             (map (\<lambda>rec. formatter originalName (rec_ttl rec) (rec_content rec) (rec_priority rec)) records),
           db1))"

text \<open>
  \<open>handleTypeA\<close>: a managed active domain answers with the proxy's address, TTL 300;
  otherwise the custom A records.
\<close>

definition handle_type_a :: "dns_lib \<Rightarrow> string \<Rightarrow> pg \<Rightarrow> string \<Rightarrow> string \<Rightarrow> string list \<times> pg" where
  "handle_type_a lib proxyIP pdb cleanName originalName =
     (let (res, db1) = domain_get_by_name pdb cleanName in
      case res of
        Inr (Some d) \<Rightarrow>
          if dom_active d then
            (let rr = originalName @ '' 300 IN A '' @ proxyIP in
             (if new_rr_ok lib rr then [rr] else [], db1))
          else handle_custom_records lib db1 cleanName originalName ''A'' fmt_a
      | _ \<Rightarrow> handle_custom_records lib db1 cleanName originalName ''A'' fmt_a)"

text \<open>\<open>parseQuery\<close>: every question of the reply, by type; other types add nothing.\<close>

fun parse_query :: "dns_lib \<Rightarrow> string \<Rightarrow> pg \<Rightarrow> dns_question list \<Rightarrow> string list \<times> pg" where
  "parse_query lib proxyIP pdb [] = ([], pdb)"
| "parse_query lib proxyIP pdb (q # qs) =
     (let name = to_lower (q_name q);
          cleanName = trim_suffix name ''.'';
          (ans, db1) =
            (if q_type q = type_a then handle_type_a lib proxyIP pdb cleanName name
             else if q_type q = type_cname then handle_custom_records lib pdb cleanName name ''CNAME'' fmt_cname
             else if q_type q = type_txt then handle_custom_records lib pdb cleanName name ''TXT'' fmt_txt
             else if q_type q = type_mx then handle_custom_records lib pdb cleanName name ''MX'' fmt_mx
             else ([], pdb));
          (ans2, db2) = parse_query lib proxyIP db1 qs
      in (ans @ ans2, db2))"

text \<open>The lower-cased first question name without its final dot, \<open>""\<close> with no question.\<close>

definition query_domain :: "dns_msg \<Rightarrow> string" where
  "query_domain r = (case m_question r of [] \<Rightarrow> [] | q # _ \<Rightarrow> trim_suffix (to_lower (q_name q)) ''.'')"

definition query_type :: "dns_lib \<Rightarrow> dns_msg \<Rightarrow> string" where
  "query_type lib r = (case m_question r of [] \<Rightarrow> [] | q # _ \<Rightarrow> type_to_string lib (q_type q))"

text \<open>The tail of \<open>handleRequest\<close>: answer a standard query, then write the reply.\<close>

definition dns_answer :: "dns_lib \<Rightarrow> string \<Rightarrow> dns_msg \<Rightarrow> dstate \<Rightarrow> dns_msg \<times> dstate" where
  "dns_answer lib proxyIP m s =
     (if m_opcode m = opcode_query then
        (let (ans, db1) = parse_query lib proxyIP (db (des s)) (m_question m) in
         (m\<lparr>m_answer := m_answer m @ ans\<rparr>, s\<lparr>des := (des s)\<lparr>db := db1\<rparr>\<rparr>))
      else (m, s))"

text \<open>
  \<open>handleRequest\<close>: the client IP of the remote address, the domain of the first
  question (a lookup error counts as no domain); with an engine and a domain id above
  0, \<open>AnalyzeIP\<close>, \<open>LogDNSQuery\<close>, and \<open>REFUSED\<close> on \<open>BLOCK\<close>; otherwise the answer.
  The reply written is \<open>None\<close> when the telemetry call panics before it.
  \<open>hasEngine\<close> is \<open>s.engine != nil\<close>.
\<close>

definition handle_request ::
  "dns_lib \<Rightarrow> string \<Rightarrow> bool \<Rightarrow> dstate \<Rightarrow> go_time \<Rightarrow> string \<Rightarrow> dns_msg \<Rightarrow>
   (dns_msg option \<times> go_error option) \<times> dstate" where
  "handle_request lib proxyIP hasEngine s now remoteAddr r =
     (let m = set_reply r;
          clientIP = host_or_empty remoteAddr;
          queryDomain = query_domain r;
          (res, db1) = domain_get_by_name (db (des s)) queryDomain;
          domainID = (case res of Inr (Some d) \<Rightarrow> dom_id d | _ \<Rightarrow> 0);
          s1 = s\<lparr>des := (des s)\<lparr>db := db1\<rparr>\<rparr> in
      if hasEngine \<and> 0 < domainID then
        (let (dec, es2) = analyze_ip (des s1) clientIP domainID queryDomain;
             s2 = s1\<lparr>des := es2\<rparr> in
         case log_dns_query (dtel s2) now clientIP domainID queryDomain (query_type lib r) (d_action dec) of
           Inl e \<Rightarrow> ((None, Some e), s2)
         | Inr t \<Rightarrow>
             (let s3 = s2\<lparr>dtel := t\<rparr> in
              if d_action dec = ActionBlock then ((Some (m\<lparr>m_rcode := rcode_refused\<rparr>), None), s3)
              else (let (m', s4) = dns_answer lib proxyIP m s3 in ((Some m', None), s4))))
      else (let (m', s4) = dns_answer lib proxyIP m s1 in ((Some m', None), s4)))"

text \<open>
  \<open>NewServer\<close>: the server's settings (\<open>s.proxyIP\<close>, \<open>s.engine != nil\<close>) and the
  \<open>dns.Server\<close> it builds, listening on \<open>":" + port\<close> over UDP; the repositories and
  the engine are the shared state \<open>dstate\<close>.
\<close>

record dns_server =
  srv_addr :: string
  srv_net :: string
  srv_proxy_ip :: string
  srv_has_engine :: bool

definition new_server :: "string \<Rightarrow> string \<Rightarrow> bool \<Rightarrow> dns_server" where
  "new_server port proxyIP hasEngine =
     \<lparr>srv_addr = CHR '':'' # port, srv_net = ''udp'', srv_proxy_ip = proxyIP, srv_has_engine = hasEngine\<rparr>"

text \<open>
  What the \<open>dns.Server\<close> of \<open>NewServer\<close> does with a decoded request before any
  handler runs (its default \<open>MsgAcceptFunc\<close>): an opcode other than \<open>QUERY\<close> or
  \<open>NOTIFY\<close> is answered \<open>NOTIMP\<close>, a request without exactly one question
  \<open>FORMERR\<close>, both echoing the request with no answer; \<open>None\<close> accepts. The
  library's function also ignores messages with the response bit set and rejects
  more than one answer or authority record or more than two additional records; the
  model's messages carry neither that bit nor those sections, so these checks are
  left out.
\<close>

definition opcode_notify :: nat where "opcode_notify = 4"
definition rcode_formerr :: nat where "rcode_formerr = 1"
definition rcode_notimp :: nat where "rcode_notimp = 4"

definition dns_accept :: "dns_msg \<Rightarrow> dns_msg option" where
  "dns_accept r =
     (if m_opcode r \<noteq> opcode_query \<and> m_opcode r \<noteq> opcode_notify
      then Some (r\<lparr>m_rcode := rcode_notimp, m_answer := []\<rparr>)
      else if length (m_question r) \<noteq> 1
      then Some (r\<lparr>m_opcode := opcode_query, m_rcode := rcode_formerr, m_answer := []\<rparr>)
      else None)"

text \<open>
  The server of \<open>NewServer\<close>: an accepted request goes to its \<open>ServeMux\<close>, whose single
  pattern \<open>"."\<close>, the root zone, every name falls under, so \<open>handleRequest\<close> runs
  with the server's proxy IP and engine.
\<close>

definition serve_dns ::
  "dns_lib \<Rightarrow> dns_server \<Rightarrow> dstate \<Rightarrow> go_time \<Rightarrow> string \<Rightarrow> dns_msg \<Rightarrow>
   (dns_msg option \<times> go_error option) \<times> dstate" where
  "serve_dns lib srv s now remoteAddr r =
     (case dns_accept r of
        Some m \<Rightarrow> ((Some m, None), s)
      | None \<Rightarrow> handle_request lib (srv_proxy_ip srv) (srv_has_engine srv) s now remoteAddr r)"

text \<open>A sample transport (every non-empty target parses; the upstream never sets a code)
  and a front-end state over the sample world of the engine.\<close>

definition sample_env :: upstream_env where
  "sample_env = \<lparr>url_parse_ok = (\<lambda>t. t \<noteq> []), upstream_status = (\<lambda>t r. None)\<rparr>"

definition sample_fstate :: "faults \<Rightarrow> fstate" where
  "sample_fstate pf = \<lparr>es = sample_world pf [], tel = new_repository [], upstream_log = []\<rparr>"

text \<open>A sample DNS library, state and query, and a world whose only domain is inactive.\<close>

definition sample_lib :: dns_lib where
  "sample_lib = \<lparr>new_rr_ok = (\<lambda>t. True), type_to_string = (\<lambda>t. if t = type_a then ''A'' else [])\<rparr>"

definition sample_dstate :: "estate \<Rightarrow> dstate" where
  "sample_dstate w = \<lparr>des = w, dtel = new_repository []\<rparr>"

definition sample_query :: "string \<Rightarrow> dns_msg" where
  "sample_query n = \<lparr>m_opcode = 0, m_question = [\<lparr>q_name = n, q_type = 1\<rparr>], m_rcode = 0, m_answer = []\<rparr>"

definition sample_inactive_world :: estate where
  "sample_inactive_world =
     (sample_world [] [])\<lparr>db := (db (sample_world [] []))\<lparr>pg_domains := [sample_domain\<lparr>dom_active := False\<rparr>]\<rparr>\<rparr>"

text \<open>A zone: an active domain 1 and an inactive domain 2, each with a CNAME record
  for www.example.com.\<close>

definition sample_zone_db :: pg where
  "sample_zone_db =
     (db (sample_world [] []))\<lparr>
        pg_domains := [sample_domain, sample_domain\<lparr>dom_id := 2, dom_name := ''old.example'', dom_active := False\<rparr>],
        pg_records :=
          [\<lparr>rec_id = 1, rec_domain_id = 1, rec_type = ''CNAME'', rec_name = ''www.example.com'',
             rec_content = ''example.com'', rec_ttl = 300, rec_priority = 0, rec_created_at = 0\<rparr>,
           \<lparr>rec_id = 2, rec_domain_id = 2, rec_type = ''CNAME'', rec_name = ''www.example.com'',
             rec_content = ''legacy.example'', rec_ttl = 60, rec_priority = 0, rec_created_at = 0\<rparr>]\<rparr>"

subsection \<open>Facts about the proxy\<close>

text \<open>A decision of \<open>Analyze\<close> that is not \<open>BLOCK\<close> carries a domain row of the store.\<close>

text \<open>
  Through the server of \<open>NewServer\<close>, a query with one question reaches
  \<open>handleRequest\<close> with the server's settings; any other request is answered by the
  library without a domain lookup, an engine call or a telemetry event, so the
  \<open>len(r.Question) > 0\<close> guards of \<open>handleRequest\<close> always hold when it runs.
\<close>

lemma serve_dns_accepted:
  "m_opcode r = opcode_query \<Longrightarrow> length (m_question r) = 1 \<Longrightarrow>
   serve_dns lib (new_server port proxyIP hasEngine) s now remoteAddr r =
     handle_request lib proxyIP hasEngine s now remoteAddr r"
  by (simp add: serve_dns_def dns_accept_def new_server_def)

lemma serve_dns_rejected:
  "length (m_question r) \<noteq> 1 \<Longrightarrow>
   \<exists>m. serve_dns lib srv s now remoteAddr r = ((Some m, None), s) \<and> m_rcode m \<noteq> rcode_success \<and> m_answer m = []"
  by (auto simp: serve_dns_def dns_accept_def rcode_formerr_def rcode_notimp_def rcode_success_def)

lemma analyze_not_block_domain:
  assumes "fst (analyze s r) = Inr dec" and "d_action dec \<noteq> ActionBlock"
  shows "\<exists>d. d_domain dec = Some d \<and> d \<in> set (pg_domains (db s))"
  using assms
  by (auto simp: analyze_def domain_get_by_name_def mk_decision_def Let_def
      split: prod.splits sum.splits option.splits if_splits dest: find_SomeD)

lemma serve_http_analyzed:
  assumes "fst (analyze (es s) r) = res"
  shows "serve_http env s now dur r =
     (let s1 = s\<lparr>es := snd (analyze (es s) r)\<rparr> in
      case res of
        Inl _ \<Rightarrow> ((http_error ''Internal Server Error'' 500, None), s1)
      | Inr dec \<Rightarrow>
          if d_action dec = ActionBlock then
            (let resp = HttpResp 403 (''Access Denied: '' @ d_reason dec) in
             case log_request (tel s1) now r dec 403 dur of
               Inl e \<Rightarrow> ((resp, Some e), s1)
             | Inr t \<Rightarrow> ((resp, None), s1\<lparr>tel := t\<rparr>))
          else (case d_domain dec of
                  Some d \<Rightarrow>
                    if dom_target_url d \<noteq> [] then
                      (if \<not> url_parse_ok env (dom_target_url d)
                       then ((http_error ''Invalid Target URL'' 500, None), s1)
                       else
                         (let target = dom_target_url d;
                              st = wrapped_status (upstream_status env target r);
                              s2 = s1\<lparr>upstream_log := upstream_log s1 @ [(target, r)]\<rparr> in
                          case log_request (tel s2) now r dec st dur of
                            Inl e \<Rightarrow> ((Proxied target st, Some e), s2)
                          | Inr t \<Rightarrow> ((Proxied target st, None), s2\<lparr>tel := t\<rparr>)))
                    else ((http_error ''404 page not found'' 404, None), s1)
                | None \<Rightarrow> ((http_error ''404 page not found'' 404, None), s1)))"
  using assms by (cases "analyze (es s) r") (simp add: serve_http_def)

text \<open>\<open>http.NotFound\<close> is reached only by an allowed request for a domain with no target.\<close>

lemma serve_http_not_found:
  assumes "fst (fst (serve_http env s now dur r)) = http_error ''404 page not found'' 404"
  shows "\<exists>dec d. fst (analyze (es s) r) = Inr dec \<and> d_domain dec = Some d
                \<and> d \<in> set (pg_domains (db (es s))) \<and> dom_target_url d = []"
proof (cases "fst (analyze (es s) r)")
  case (Inl e)
  with assms show ?thesis by (simp add: serve_http_analyzed http_error_def)
next
  case (Inr dec)
  show ?thesis
  proof (cases "d_action dec = ActionBlock")
    case True
    with Inr assms show ?thesis
      by (simp add: serve_http_analyzed http_error_def Let_def split: sum.splits)
  next
    case False
    then obtain d where d: "d_domain dec = Some d" "d \<in> set (pg_domains (db (es s)))"
      using analyze_not_block_domain [OF Inr] by blast
    with Inr False assms show ?thesis
      by (auto simp: serve_http_analyzed http_error_def Let_def split: sum.splits if_splits)
  qed
qed

text \<open>
  C12. Short circuit on \<open>BLOCK\<close>: when \<open>Analyze\<close> blocks, \<open>ServeHTTP\<close> answers 403 with
  the reason and never contacts an upstream, whatever the telemetry call does.
\<close>

theorem serve_http_block:
  assumes "fst (analyze (es s) r) = Inr dec" and "d_action dec = ActionBlock"
  shows "fst (fst (serve_http env s now dur r)) = HttpResp 403 (''Access Denied: '' @ d_reason dec)
         \<and> upstream_log (snd (serve_http env s now dur r)) = upstream_log s"
  using serve_http_analyzed [OF assms(1)] assms(2)
  by (simp add: Let_def split: sum.splits)

text \<open>
  C13. The proxied path: an allowed request for a domain with a parseable target is sent
  to that target exactly once, answered by the upstream, and logged with the status the
  upstream wrote (200 when it never called \<open>WriteHeader\<close>).
\<close>

theorem serve_http_proxied:
  assumes "fst (analyze (es s) r) = Inr dec" and "d_action dec \<noteq> ActionBlock"
    and "d_domain dec = Some d" and "dom_target_url d \<noteq> []" and "url_parse_ok env (dom_target_url d)"
    and "log_request (tel s) now r dec (wrapped_status (upstream_status env (dom_target_url d) r)) dur = Inr t"
  shows "serve_http env s now dur r =
           ((Proxied (dom_target_url d) (wrapped_status (upstream_status env (dom_target_url d) r)), None),
            s\<lparr>es := snd (analyze (es s) r), tel := t,
              upstream_log := upstream_log s @ [(dom_target_url d, r)]\<rparr>)"
  using serve_http_analyzed [OF assms(1)] assms(2-6) by (simp add: Let_def)

text \<open>
  C14. No telemetry on an engine error: when \<open>Analyze\<close> fails (the domain lookup
  errs), \<open>ServeHTTP\<close> answers 500 and records no telemetry event and contacts no
  upstream, although every unit of work is to record exactly one event.
\<close>

theorem serve_http_error_no_event:
  assumes "fst (analyze (es s) r) = Inl e"
  shows "serve_http env s now dur r =
           ((http_error ''Internal Server Error'' 500, None), s\<lparr>es := snd (analyze (es s) r)\<rparr>)"
  using serve_http_analyzed [OF assms] by simp


subsection \<open>Facts about the DNS responder\<close>


text \<open>Answering reads the store only: telemetry and Redis are untouched.\<close>

lemma dns_answer_keeps:
  "dns_answer lib pip m s = (m', s') \<Longrightarrow> dtel s' = dtel s \<and> rdb (des s') = rdb (des s)"
  by (auto simp: dns_answer_def split: prod.splits if_splits)

text \<open>With a resolved domain of positive id and an engine, Redis ends as \<open>AnalyzeIP\<close> left it.\<close>

lemma handle_request_rdb:
  assumes "\<not> fault_now (pg_faults (db (des s)))"
    and "List.find (\<lambda>d. dom_name d = query_domain r) (pg_domains (db (des s))) = Some d" and "0 < dom_id d"
  shows "rdb (des (snd (handle_request lib pip True s now ra r))) =
         rdb (snd (analyze_ip ((des s)\<lparr>db := pg_call (db (des s))\<rparr>) (host_or_empty ra) (dom_id d) (query_domain r)))"
  using assms
  by (auto simp: handle_request_def domain_get_by_name_def Let_def split: prod.splits sum.splits
      dest: dns_answer_keeps)

text \<open>Without a resolved domain of positive id the engine is not called.\<close>

lemma handle_request_no_domain:
  assumes "fault_now (pg_faults (db (des s))) \<or> List.find (\<lambda>d. dom_name d = query_domain r) (pg_domains (db (des s))) = None"
  shows "handle_request lib pip he s now ra r =
           (let (m', s4) = dns_answer lib pip (set_reply r) (s\<lparr>des := (des s)\<lparr>db := pg_call (db (des s))\<rparr>\<rparr>)
            in ((Some m', None), s4))"
  using assms
  by (auto simp: handle_request_def domain_get_by_name_def Let_def)

text \<open>
  C16. DNS short circuit on \<open>BLOCK\<close>: when the queried name resolves to a domain of
  positive id and \<open>AnalyzeIP\<close> blocks, \<open>handleRequest\<close> logs the query and answers
  \<open>REFUSED\<close> with no answer record, and the store sees no record lookup: its state
  is exactly the one \<open>AnalyzeIP\<close> left.
\<close>

theorem dns_block_refused:
  assumes "\<not> fault_now (pg_faults (db (des s)))"
    and "List.find (\<lambda>d. dom_name d = query_domain r) (pg_domains (db (des s))) = Some d" and "0 < dom_id d"
    and "analyze_ip ((des s)\<lparr>db := pg_call (db (des s))\<rparr>) (host_or_empty ra) (dom_id d) (query_domain r) = (dec, es2)"
    and "d_action dec = ActionBlock"
    and "log_dns_query (dtel s) now (host_or_empty ra) (dom_id d) (query_domain r) (query_type lib r) ActionBlock = Inr t"
  shows "handle_request lib pip True s now ra r =
           ((Some ((set_reply r)\<lparr>m_rcode := rcode_refused\<rparr>), None), s\<lparr>des := es2, dtel := t\<rparr>)"
  using assms by (simp add: handle_request_def domain_get_by_name_def Let_def)

text \<open>
  C17. No DNS telemetry without a domain: when the first question's name resolves to
  no domain (or the lookup fails), \<open>handleRequest\<close> answers without calling the
  engine, so it records no telemetry event and leaves the rate-limit counters alone.
\<close>

theorem dns_no_domain_no_event:
  assumes "fault_now (pg_faults (db (des s))) \<or> List.find (\<lambda>d. dom_name d = query_domain r) (pg_domains (db (des s))) = None"
  shows "dtel (snd (handle_request lib pip he s now ra r)) = dtel s
         \<and> rdb (des (snd (handle_request lib pip he s now ra r))) = rdb (des s)"
  using handle_request_no_domain [OF assms] by (auto split: prod.splits dest: dns_answer_keeps)

text \<open>
  C18. DNS counts inactive domains: a query for an inactive domain of positive id still
  goes through \<open>AnalyzeIP\<close>, so a fresh client's counter is created at 1 with the
  60-second expiry, while \<open>Analyze\<close> on the HTTP side blocks inactive domains
  without touching Redis.
\<close>

theorem dns_inactive_counted:
  assumes "\<not> fault_now (pg_faults (db (des s)))"
    and "List.find (\<lambda>d. dom_name d = query_domain r) (pg_domains (db (des s))) = Some d"
    and "0 < dom_id d" and "\<not> dom_active d"
    and "fault_free (rfaults (rdb (des s)))"
    and "\<forall>x\<in>set (pg_rules (db (des s))). \<not> ip_block_rule (host_or_empty ra) x"
    and "live_entry (rdb (des s)) (rl_key (dom_id d) (host_or_empty ra)) = None"
  shows "live_entry (rdb (des (snd (handle_request lib pip True s now ra r)))) (rl_key (dom_id d) (host_or_empty ra))
         = Some \<lparr>rval = 1, rexp = Some (rnow (rdb (des s)) + rl_window)\<rparr>"
proof -
  let ?es = "(des s)\<lparr>db := pg_call (db (des s))\<rparr>"
  have nf: "\<not> fault_now (rfaults (rdb ?es))" "\<not> fault_now (tl (rfaults (rdb ?es)))"
    using assms(5) by simp_all
  have "scan_rules (host_or_empty ra) (pg_rules (db ?es)) = None"
    using scan_rules_None assms(6) by simp
  then have "rdb (snd (analyze_ip ?es (host_or_empty ra) (dom_id d) (query_domain r))) =
      set_entry ((rdb ?es)\<lparr>rfaults := tl (tl (rfaults (rdb ?es)))\<rparr>) (rl_key (dom_id d) (host_or_empty ra))
        \<lparr>rval = 1, rexp = Some (rnow (rdb ?es) + rl_window)\<rparr>"
    using analyze_ip_no_hit [of ?es] check_rate_limit_fresh [OF nf] assms(7) by simp
  then show ?thesis
    using handle_request_rdb [OF assms(1-3)] by (simp add: entry_live_def rl_window_def)
qed

text \<open>
  C19. A record of a managed domain: an \<open>A\<close> question for an active managed domain is
  answered with one record, the lower-cased question name, TTL 300, class \<open>IN\<close>, the
  proxy's address, after a single domain lookup.
\<close>

theorem dns_type_a_answer:
  assumes "\<not> fault_now (pg_faults pdb)" and "q_type q = type_a"
    and "List.find (\<lambda>d. dom_name d = trim_suffix (to_lower (q_name q)) ''.'') (pg_domains pdb) = Some d"
    and "dom_active d" and "new_rr_ok lib (to_lower (q_name q) @ '' 300 IN A '' @ pip)"
  shows "parse_query lib pip pdb [q] = ([to_lower (q_name q) @ '' 300 IN A '' @ pip], pg_call pdb)"
  using assms by (simp add: handle_type_a_def domain_get_by_name_def Let_def)

text \<open>The join of \<open>GetRecordsByNameAndType\<close> keeps a record once when its domain is active.\<close>

lemma join_unique:
  "distinct (map dom_id ds) \<Longrightarrow>
   concat (map (\<lambda>d. if rec_domain_id r = dom_id d \<and> P d then [r] else []) ds) =
   (if \<exists>d\<in>set ds. rec_domain_id r = dom_id d \<and> P d then [r] else [])"
  by (induction ds) auto

text \<open>
  C20. Custom records: with unique domain ids, a CNAME question is answered with the
  stored CNAME records of the question's name (lower-cased, final dot removed) whose
  domain is active, in table order, each formatted with the original name and its
  TTL and kept when \<open>dns.NewRR\<close> accepts it; records of inactive domains are hidden.
  When the row stream breaks off, the answer is the records read until then, with no
  error (\<open>rows.Err()\<close> is not checked).
\<close>

theorem dns_cname_records:
  assumes "\<not> fault_now (pg_faults pdb)" and "distinct (map dom_id (pg_domains pdb))"
    and "q_type q = type_cname"
  shows "parse_query lib pip pdb [q] =
           (filter (new_rr_ok lib)
              (map (\<lambda>rec. fmt_cname (to_lower (q_name q)) (rec_ttl rec) (rec_content rec) (rec_priority rec))
                 (rows_read (pg_cuts pdb)
                   (filter (\<lambda>rec. rec_name rec = trim_suffix (to_lower (q_name q)) ''.'' \<and> rec_type rec = ''CNAME''
                            \<and> (\<exists>d\<in>set (pg_domains pdb). dom_id d = rec_domain_id rec \<and> dom_active d))
                      (pg_records pdb)))),
            pg_call pdb)"
proof -
  have ne: "type_cname \<noteq> type_a" by (simp add: type_cname_def type_a_def)
  have row: "concat (map (\<lambda>d. if rec_domain_id r = dom_id d \<and> rec_name r = n \<and> rec_type r = t
                                  \<and> dom_active d then [r] else []) (pg_domains pdb)) =
             (if rec_name r = n \<and> rec_type r = t
                 \<and> (\<exists>d\<in>set (pg_domains pdb). dom_id d = rec_domain_id r \<and> dom_active d) then [r] else [])"
    for r n t
    using join_unique [OF assms(2), of r "\<lambda>d. rec_name r = n \<and> rec_type r = t \<and> dom_active d"]
    by (auto split: if_splits)
  have all: "concat (map (\<lambda>r. concat (map (\<lambda>d. if rec_domain_id r = dom_id d \<and> rec_name r = n
                         \<and> rec_type r = t \<and> dom_active d then [r] else []) (pg_domains pdb))) rs) =
      filter (\<lambda>r. rec_name r = n \<and> rec_type r = t
                   \<and> (\<exists>d\<in>set (pg_domains pdb). dom_id d = rec_domain_id r \<and> dom_active d)) rs"
    for n t rs
    by (induction rs) (simp_all only: row list.map concat.simps filter.simps, auto)
  from assms ne show ?thesis
    by (simp add: handle_custom_records_def dns_get_records_by_name_and_type_def Let_def all)
qed

subsection \<open>Proxy runs\<close>

lemma sample_analyze_allow:
  "fst (analyze (sample_world [] []) (sample_request ''example.com:8080'')) =
     Inr ((mk_decision ActionAllow [])\<lparr>d_domain := Some sample_domain\<rparr>)"
  by (simp add: analyze_def domain_get_by_name_def sample_request_hosts sample_domain_def
      analyze_ip_def bot_get_all_def sample_rule_def ip_block_rule_def check_rate_limit_def
      redis_incr_def redis_expire_def incr_ok_def expire_ok_def rate_limit_def Let_def
      scan_rules_find split: prod.splits)

lemma sample_analyze_unknown:
  "fst (analyze (sample_world [] []) (sample_request ''other.org'')) =
     Inr (mk_decision ActionBlock ''Domain not found or inactive'')"
  by (simp add: analyze_def domain_get_by_name_def sample_request_hosts sample_domain_def)

text \<open>A request for an unknown host is refused with 403 and goes nowhere.\<close>

theorem serve_http_block_witness:
  "fst (fst (serve_http sample_env (sample_fstate []) 0 0 (sample_request ''other.org''))) =
     HttpResp 403 ''Access Denied: Domain not found or inactive''
   \<and> upstream_log (snd (serve_http sample_env (sample_fstate []) 0 0 (sample_request ''other.org''))) = []"
  using serve_http_block [where s = "sample_fstate []" and r = "sample_request ''other.org''"]
    sample_analyze_unknown
  by (simp add: sample_fstate_def mk_decision_def)

text \<open>A request for example.com from a fresh client is proxied to its target and logged.\<close>

theorem serve_http_proxied_witness:
  "fst (serve_http sample_env (sample_fstate []) 0 0 (sample_request ''example.com:8080'')) =
     (Proxied ''http://10.0.0.2:8080'' 200, None)
   \<and> upstream_log (snd (serve_http sample_env (sample_fstate []) 0 0 (sample_request ''example.com:8080''))) =
     [(''http://10.0.0.2:8080'', sample_request ''example.com:8080'')]"
proof -
  let ?dec = "(mk_decision ActionAllow [])\<lparr>d_domain := Some sample_domain\<rparr>"
  let ?r = "sample_request ''example.com:8080''"
  obtain t where lg: "log_request (tel (sample_fstate [])) 0 ?r ?dec
                        (wrapped_status (upstream_status sample_env (dom_target_url sample_domain) ?r)) 0 = Inr t"
    by (simp add: log_request_def repo_log_def sample_fstate_def new_repository_def chan_cap_def)
  have "serve_http sample_env (sample_fstate []) 0 0 ?r =
          ((Proxied (dom_target_url sample_domain)
              (wrapped_status (upstream_status sample_env (dom_target_url sample_domain) ?r)), None),
           (sample_fstate [])\<lparr>es := snd (analyze (es (sample_fstate [])) ?r), tel := t,
              upstream_log := upstream_log (sample_fstate []) @ [(dom_target_url sample_domain, ?r)]\<rparr>)"
    using sample_analyze_allow lg
    by (intro serve_http_proxied)
       (simp_all add: sample_fstate_def mk_decision_def sample_domain_def sample_env_def)
  then show ?thesis
    by (simp add: sample_domain_def sample_env_def wrapped_status_def sample_fstate_def)
qed

text \<open>With the first domain query failing, the request gets 500 and no event.\<close>

theorem serve_http_error_no_event_witness:
  "serve_http sample_env (sample_fstate [True]) 0 0 (sample_request ''example.com:8080'') =
     ((http_error ''Internal Server Error'' 500, None),
      (sample_fstate [True])\<lparr>es := (sample_world [True] [])\<lparr>db := pg_call (db (sample_world [True] []))\<rparr>\<rparr>)"
proof -
  have "fst (analyze (es (sample_fstate [True])) (sample_request ''example.com:8080'')) = Inl PgError"
    by (simp add: sample_fstate_def analyze_def domain_get_by_name_def)
  from serve_http_error_no_event [OF this, of sample_env 0 0] show ?thesis
    by (simp add: sample_fstate_def analyze_def domain_get_by_name_def)
qed

subsection \<open>DNS runs\<close>

lemma sample_query_domain:
  "query_domain (sample_query ''example.com.'') = ''example.com''"
  "query_domain (sample_query ''other.org.'') = ''other.org''"
  by (simp_all add: query_domain_def sample_query_def to_lower_def lower_char_def trim_suffix_def)

lemma sample_remote_hosts:
  "host_or_empty ''10.0.0.9:5353'' = ''10.0.0.9''"
  "host_or_empty ''10.0.0.1:5353'' = ''10.0.0.1''"
  by (simp_all add: host_or_empty_def split_host_port_def last_index_of_def split_tail_def)

text \<open>A query from the rule-blocked 10.0.0.9 for example.com is refused.\<close>

theorem dns_block_refused_witness:
  "fst (handle_request sample_lib ''203.0.113.1'' True (sample_dstate (sample_world [] [])) 0 ''10.0.0.9:5353''
          (sample_query ''example.com.'')) =
     (Some ((set_reply (sample_query ''example.com.''))\<lparr>m_rcode := rcode_refused\<rparr>), None)"
proof -
  let ?s = "sample_dstate (sample_world [] [])"
  let ?dec = "mk_decision ActionBlock (''IP blocked by rule: '' @ rule_description sample_rule)"
  have an: "analyze_ip ((des ?s)\<lparr>db := pg_call (db (des ?s))\<rparr>) (host_or_empty ''10.0.0.9:5353'')
              (dom_id sample_domain) (query_domain (sample_query ''example.com.'')) =
            (?dec, (des ?s)\<lparr>db := pg_call (pg_call (db (des ?s)))\<rparr>)"
    using analyze_ip_hit [where s = "(des ?s)\<lparr>db := pg_call (db (des ?s))\<rparr>" and rule = sample_rule]
    by (simp add: sample_dstate_def sample_remote_hosts scan_rules_find sample_rule_def ip_block_rule_def)
  obtain t where lg: "log_dns_query (dtel ?s) 0 (host_or_empty ''10.0.0.9:5353'') (dom_id sample_domain)
      (query_domain (sample_query ''example.com.'')) (query_type sample_lib (sample_query ''example.com.''))
      ActionBlock = Inr t"
    by (simp add: log_dns_query_def repo_log_def sample_dstate_def new_repository_def chan_cap_def)
  have nf: "\<not> fault_now (pg_faults (db (des ?s)))" by (simp add: sample_dstate_def)
  have f: "List.find (\<lambda>d. dom_name d = query_domain (sample_query ''example.com.'')) (pg_domains (db (des ?s)))
           = Some sample_domain"
    by (simp add: sample_dstate_def sample_query_domain sample_domain_def)
  have p: "0 < dom_id sample_domain" by (simp add: sample_domain_def)
  have b: "d_action ?dec = ActionBlock" by (simp add: mk_decision_def)
  note dns_block_refused [OF nf f p an b lg]
  then show ?thesis by simp
qed

text \<open>A query for other.org records nothing.\<close>

theorem dns_no_domain_no_event_witness:
  "dtel (snd (handle_request sample_lib ''203.0.113.1'' True (sample_dstate (sample_world [] [])) 0
              ''10.0.0.1:5353'' (sample_query ''other.org.''))) = new_repository []
   \<and> rdb (des (snd (handle_request sample_lib ''203.0.113.1'' True (sample_dstate (sample_world [] [])) 0
              ''10.0.0.1:5353'' (sample_query ''other.org.'')))) = rdb (sample_world [] [])"
  using dns_no_domain_no_event [where s = "sample_dstate (sample_world [] [])" and r = "sample_query ''other.org.''"
      and lib = sample_lib and pip = "''203.0.113.1''" and he = True and now = 0 and ra = "''10.0.0.1:5353''"]
  by (simp add: sample_dstate_def sample_query_domain sample_domain_def)

text \<open>A query for the inactive example.com starts a counter for 10.0.0.1.\<close>

theorem dns_inactive_counted_witness:
  "live_entry (rdb (des (snd (handle_request sample_lib ''203.0.113.1'' True (sample_dstate sample_inactive_world) 0
      ''10.0.0.1:5353'' (sample_query ''example.com.''))))) (rl_key 1 ''10.0.0.1'')
   = Some \<lparr>rval = 1, rexp = Some 60\<rparr>"
proof -
  have "live_entry (rdb (des (snd (handle_request sample_lib ''203.0.113.1'' True (sample_dstate sample_inactive_world) 0
      ''10.0.0.1:5353'' (sample_query ''example.com.''))))) (rl_key (dom_id (sample_domain\<lparr>dom_active := False\<rparr>)) (host_or_empty ''10.0.0.1:5353''))
   = Some \<lparr>rval = 1, rexp = Some (rnow (rdb (des (sample_dstate sample_inactive_world))) + rl_window)\<rparr>"
    by (rule dns_inactive_counted)
       (simp_all add: sample_dstate_def sample_inactive_world_def sample_query_domain sample_domain_def
        sample_remote_hosts sample_rule_def ip_block_rule_def)
  then show ?thesis
    by (simp add: sample_domain_def sample_remote_hosts sample_dstate_def sample_inactive_world_def
        sample_world_def rl_window_def)
qed

text \<open>An A question for Example.COM. is answered with the proxy address.\<close>

theorem dns_type_a_answer_witness:
  "parse_query sample_lib ''203.0.113.1'' (db (sample_world [] [])) [\<lparr>q_name = ''Example.COM.'', q_type = 1\<rparr>] =
     ([''example.com. 300 IN A 203.0.113.1''], pg_call (db (sample_world [] [])))"
proof -
  have low: "to_lower ''Example.COM.'' = ''example.com.''"
    by code_simp
  show ?thesis
    using dns_type_a_answer [where q = "\<lparr>q_name = ''Example.COM.'', q_type = 1\<rparr>" and d = sample_domain
        and lib = sample_lib and pip = "''203.0.113.1''" and pdb = "db (sample_world [] [])"] low
    by (simp add: type_a_def trim_suffix_def sample_domain_def sample_lib_def)
qed

text \<open>www.example.com answers with the record of the active domain only.\<close>

theorem dns_cname_records_witness:
  "parse_query sample_lib ''203.0.113.1'' sample_zone_db [\<lparr>q_name = ''www.example.com.'', q_type = 5\<rparr>] =
     ([''www.example.com. 300 IN CNAME example.com''], pg_call sample_zone_db)"
proof -
  have "parse_query sample_lib ''203.0.113.1'' sample_zone_db [\<lparr>q_name = ''www.example.com.'', q_type = 5\<rparr>] =
     (filter (new_rr_ok sample_lib)
        (map (\<lambda>rec. fmt_cname (to_lower ''www.example.com.'') (rec_ttl rec) (rec_content rec) (rec_priority rec))
           (filter (\<lambda>rec. rec_name rec = trim_suffix (to_lower ''www.example.com.'') ''.'' \<and> rec_type rec = ''CNAME''
                    \<and> (\<exists>d\<in>set (pg_domains sample_zone_db). dom_id d = rec_domain_id rec \<and> dom_active d))
              (pg_records sample_zone_db))),
      pg_call sample_zone_db)"
    using dns_cname_records [where pdb = sample_zone_db and q = "\<lparr>q_name = ''www.example.com.'', q_type = 5\<rparr>"
        and lib = sample_lib and pip = "''203.0.113.1''"]
    by (simp add: sample_zone_db_def sample_world_def sample_domain_def type_cname_def)
  moreover have "to_lower ''www.example.com.'' = ''www.example.com.''"
    by (simp add: to_lower_def lower_char_def)
  ultimately show ?thesis
    by (simp add: sample_zone_db_def sample_world_def sample_domain_def trim_suffix_def fmt_cname_def
        sample_lib_def go_itoa_def dec_digits.simps digit_char_def)
qed

end
