(* ===== verification/Config.thy ===== *)
theory Config
  imports GoLib
begin

text \<open>
  Start-up: \<open>src/internal/config/config.go\<close> (\<open>Load\<close>, \<open>getEnv\<close>, \<open>getEnvInt\<close>) reads
  the configuration from the process environment, after \<open>godotenv.Load\<close> has added the
  variables of a \<open>.env\<close> file that are not already set; \<open>src/internal/database/database.go\<close>
  (\<open>New\<close>, \<open>Close\<close>) builds the Postgres DSN and opens the three connections. The
  environment is a map from names to values (\<open>os.LookupEnv\<close>); each connection step
  that can fail is a flag of \<open>conn_faults\<close>; the result of \<open>New\<close> comes with the list
  of resources it leaves open.
\<close>

subsection \<open>Configuration\<close>

record database_config =
  dbc_host :: string
  dbc_port :: string
  dbc_user :: string
  dbc_password :: string
  dbc_name :: string

record redis_config =
  rc_addr :: string
  rc_password :: string
  rc_db :: go_int

record clickhouse_config =
  chc_addr :: string
  chc_db :: string

record dns_config =
  dnc_port :: string

record config =
  cfg_port :: string
  cfg_log_level :: string
  cfg_database :: database_config
  cfg_redis :: redis_config
  cfg_clickhouse :: clickhouse_config
  cfg_dns :: dns_config

type_synonym env = "string \<rightharpoonup> string"

text \<open>\<open>godotenv.Load()\<close>: the file's variables are added, the environment's take precedence.\<close>

definition dotenv_load :: "env \<Rightarrow> env \<Rightarrow> env" where
  "dotenv_load environ dotenv = dotenv ++ environ"

definition get_env :: "env \<Rightarrow> string \<Rightarrow> string \<Rightarrow> string" where
  "get_env e key fallback = (case e key of Some v \<Rightarrow> v | None \<Rightarrow> fallback)"

definition get_env_int :: "env \<Rightarrow> string \<Rightarrow> go_int \<Rightarrow> go_int" where
  "get_env_int e key fallback =
     (case e key of
        Some v \<Rightarrow> (case go_atoi v of Some i \<Rightarrow> i | None \<Rightarrow> fallback)
      | None \<Rightarrow> fallback)"

definition load_config :: "env \<Rightarrow> env \<Rightarrow> go_error + config" where
  "load_config environ dotenv =
     (let e = dotenv_load environ dotenv in
      Inr \<lparr>cfg_port = get_env e ''PORT'' ''8080'',
           cfg_log_level = get_env e ''LOG_LEVEL'' ''info'',
           cfg_database = \<lparr>dbc_host = get_env e ''DB_HOST'' ''localhost'',
                           dbc_port = get_env e ''DB_PORT'' ''5432'',
                           dbc_user = get_env e ''DB_USER'' ''user'',
                           dbc_password = get_env e ''DB_PASSWORD'' ''password'',
                           dbc_name = get_env e ''DB_NAME'' ''goflare''\<rparr>,
           cfg_redis = \<lparr>rc_addr = get_env e ''REDIS_ADDR'' ''localhost:6379'',
                        rc_password = get_env e ''REDIS_PASSWORD'' [],
                        rc_db = get_env_int e ''REDIS_DB'' 0\<rparr>,
           cfg_clickhouse = \<lparr>chc_addr = get_env e ''CLICKHOUSE_ADDR'' ''localhost:9000'',
                             chc_db = get_env e ''CLICKHOUSE_DB'' ''goflare_analytics''\<rparr>,
           cfg_dns = \<lparr>dnc_port = get_env e ''DNS_PORT'' ''8053''\<rparr>\<rparr>)"

subsection \<open>Connections\<close>

text \<open>\<open>fmt.Sprintf("postgres://%s:%s@%s:%s/%s", User, Password, Host, Port, Name)\<close>.\<close>

definition pg_dsn :: "database_config \<Rightarrow> string" where
  "pg_dsn c = ''postgres://'' @ dbc_user c @ '':'' @ dbc_password c @ ''@'' @ dbc_host c @ '':'' @ dbc_port c
               @ ''/'' @ dbc_name c"

text \<open>
  How pgx reads the DSN (\<open>pgconn.ParseConfig\<close> on a \<open>postgres://\<close> string calls Go's
  \<open>net/url.Parse\<close>): the fragment after \<open>#\<close> and the query after \<open>?\<close> are cut off,
  the authority runs from after \<open>//\<close> to the first \<open>/\<close>, and \<open>parseAuthority\<close>
  splits the user info from \<open>host:port\<close> at the last \<open>@\<close>.
\<close>

definition url_authority :: "string \<Rightarrow> string" where
  "url_authority u = takeWhile (\<lambda>c. c \<notin> set ''/?#'') (drop 2 (tl (dropWhile (\<lambda>c. c \<noteq> CHR '':'') u)))"

definition url_userinfo :: "string \<Rightarrow> string option" where
  "url_userinfo a =
     (if CHR ''@'' \<in> set a then Some (rev (tl (dropWhile (\<lambda>c. c \<noteq> CHR ''@'') (rev a)))) else None)"

definition url_hostport :: "string \<Rightarrow> string" where
  "url_hostport a = rev (takeWhile (\<lambda>c. c \<noteq> CHR ''@'') (rev a))"

text \<open>The clients \<open>New\<close> opens, and opening one (it is then held open until closed).\<close>

datatype resource = PgPool | RedisClient | ChConn

definition open_res :: "resource \<Rightarrow> resource list \<Rightarrow> resource list" where
  "open_res r rs = rs @ [r]"

text \<open>
  Which steps of \<open>New\<close> fail: \<open>pgxpool.New\<close>, the Redis \<open>Ping\<close>,
  \<open>clickhouse.Open\<close>, the ClickHouse \<open>Ping\<close>.
\<close>

record conn_faults =
  pg_new_fails :: bool
  redis_ping_fails :: bool
  ch_open_fails :: bool
  ch_ping_fails :: bool

text \<open>\<open>database.Container\<close>, with what the three clients were opened with.\<close>

record container =
  ct_pg_dsn :: string
  ct_redis :: redis_config
  ct_ch_addrs :: "string list"
  ct_ch_db :: string
  ct_ch_ping_warning :: bool

text \<open>
  \<open>New(cfg)\<close>, step by step: \<open>pgxpool.New\<close> opens the pool unless it fails;
  \<open>redis.NewClient\<close> always opens a client, whose \<open>Ping\<close> may then fail;
  \<open>clickhouse.Open\<close> opens the connection unless it fails; a failed ClickHouse ping is
  only printed. Each failure returns at once, closing nothing. The second component is
  the list of resources open after the call.
\<close>

definition database_new :: "config \<Rightarrow> conn_faults \<Rightarrow> (go_error + container) \<times> resource list" where
  "database_new cfg f =
     (if pg_new_fails f then (Inl PgError, [])
      else
        (let rs1 = open_res PgPool [];
             rs2 = open_res RedisClient rs1 in
         if redis_ping_fails f then (Inl RedisError, rs2)
         else if ch_open_fails f then (Inl ClickHouseError, rs2)
         else
           (let rs3 = open_res ChConn rs2 in
            (Inr \<lparr>ct_pg_dsn = pg_dsn (cfg_database cfg), ct_redis = cfg_redis cfg,
                  ct_ch_addrs = [chc_addr (cfg_clickhouse cfg)], ct_ch_db = chc_db (cfg_clickhouse cfg),
                  ct_ch_ping_warning = ch_ping_fails f\<rparr>, rs3))))"

text \<open>
  \<open>Container.Close\<close>: closes the Postgres pool, the Redis client and the ClickHouse
  connection, each if the container holds it; the argument is the list of open resources.
\<close>

definition container_close :: "resource list \<Rightarrow> resource list" where
  "container_close rs = removeAll ChConn (removeAll RedisClient (removeAll PgPool rs))"

text \<open>A start-up whose Redis ping fails, and the configuration of an empty environment.\<close>

definition sample_faults :: conn_faults where
  "sample_faults = \<lparr>pg_new_fails = False, redis_ping_fails = True, ch_open_fails = False, ch_ping_fails = False\<rparr>"

definition default_config :: config where
  "default_config =
     \<lparr>cfg_port = ''8080'', cfg_log_level = ''info'',
      cfg_database = \<lparr>dbc_host = ''localhost'', dbc_port = ''5432'', dbc_user = ''user'',
                      dbc_password = ''password'', dbc_name = ''goflare''\<rparr>,
      cfg_redis = \<lparr>rc_addr = ''localhost:6379'', rc_password = [], rc_db = 0\<rparr>,
      cfg_clickhouse = \<lparr>chc_addr = ''localhost:9000'', chc_db = ''goflare_analytics''\<rparr>,
      cfg_dns = \<lparr>dnc_port = ''8053''\<rparr>\<rparr>"

subsection \<open>Properties\<close>

text \<open>
  C35. Integer settings round trip: a \<open>REDIS_DB\<close> variable holding the decimal form of a
  64-bit integer configures exactly that database number, whatever the \<open>.env\<close> file
  says, since the process environment takes precedence.
\<close>

theorem redis_db_from_env:
  assumes "- (2 ^ 63) \<le> n" and "n < 2 ^ 63"
  shows "\<exists>c. load_config (environ(''REDIS_DB'' \<mapsto> go_itoa n)) dotenv = Inr c \<and> rc_db (cfg_redis c) = n"
  using go_atoi_go_itoa [OF assms]
  by (simp add: load_config_def dotenv_load_def get_env_int_def Let_def)

text \<open>A malformed number falls back to database 0.\<close>

lemma redis_db_malformed:
  "go_atoi v = None \<Longrightarrow> \<exists>c. load_config (environ(''REDIS_DB'' \<mapsto> v)) dotenv = Inr c \<and> rc_db (cfg_redis c) = 0"
  by (simp add: load_config_def dotenv_load_def get_env_int_def Let_def)

lemma takeWhile_all_append: "\<forall>x\<in>set xs. P x \<Longrightarrow> takeWhile P (xs @ ys) = xs @ takeWhile P ys"
  by (induction xs) auto

lemma dropWhile_all_append: "\<forall>x\<in>set xs. P x \<Longrightarrow> dropWhile P (xs @ ys) = dropWhile P ys"
  by (induction xs) auto

text \<open>
  An \<open>@\<close> in the password is harmless: with no \<open>/\<close>, \<open>?\<close> or \<open>#\<close> in the four fields
  and no \<open>@\<close> after the password, the parsed user info and \<open>host:port\<close> are the
  configured ones, since the split is at the last \<open>@\<close>.
\<close>

lemma pg_dsn_at_parsed:
  assumes "set (dbc_user c @ dbc_password c @ dbc_host c @ dbc_port c) \<inter> set ''/?#'' = {}"
    and "CHR ''@'' \<notin> set (dbc_host c @ dbc_port c)"
  shows "url_userinfo (url_authority (pg_dsn c)) = Some (dbc_user c @ CHR '':'' # dbc_password c)
         \<and> url_hostport (url_authority (pg_dsn c)) = dbc_host c @ CHR '':'' # dbc_port c"
proof -
  have "\<forall>x\<in>set (dbc_user c). x \<notin> set ''/?#''" "\<forall>x\<in>set (dbc_password c). x \<notin> set ''/?#''"
    "\<forall>x\<in>set (dbc_host c). x \<notin> set ''/?#''" "\<forall>x\<in>set (dbc_port c). x \<notin> set ''/?#''"
    using assms(1) by auto
  then have "url_authority (pg_dsn c) =
               dbc_user c @ CHR '':'' # dbc_password c @ CHR ''@'' # dbc_host c @ CHR '':'' # dbc_port c"
    by (simp add: url_authority_def pg_dsn_def takeWhile_all_append)
  moreover have hp: "\<forall>x\<in>set (rev (dbc_port c)). x \<noteq> CHR ''@''" "\<forall>x\<in>set (rev (dbc_host c)). x \<noteq> CHR ''@''"
    using assms(2) by auto
  then have "dropWhile (\<lambda>c. c \<noteq> CHR ''@'') (rev (dbc_port c) @ CHR '':'' # rev (dbc_host c) @ CHR ''@'' # xs)
               = CHR ''@'' # xs" for xs
    by (simp add: dropWhile_all_append)
  moreover have "takeWhile (\<lambda>c. c \<noteq> CHR ''@'') (rev (dbc_port c) @ CHR '':'' # rev (dbc_host c) @ CHR ''@'' # xs)
                   = rev (dbc_port c) @ CHR '':'' # rev (dbc_host c)" for xs
    using hp by (simp add: takeWhile_all_append)
  ultimately show ?thesis by (simp add: url_userinfo_def url_hostport_def)
qed

text \<open>
  C36. The DSN is not escaped: a password containing \<open>/\<close> ends the URL's authority
  inside the password, so the DSN pgx parses has no user info at all (no user, no
  password) and its \<open>host:port\<close> is the user name followed by the part of the password
  before the \<open>/\<close>. \<open>New\<close> then fails on the port, or connects without credentials to a
  host named after the user.
\<close>

theorem pg_dsn_slash_drops_credentials:
  assumes "dbc_password c = p @ CHR ''/'' # q" and "set p \<inter> set ''/?#@'' = {}"
    and "set (dbc_user c) \<inter> set ''/?#@'' = {}"
  shows "url_authority (pg_dsn c) = dbc_user c @ CHR '':'' # p \<and> url_userinfo (url_authority (pg_dsn c)) = None"
proof -
  have "\<forall>x\<in>set (dbc_user c). x \<notin> set ''/?#''" and "\<forall>x\<in>set p. x \<notin> set ''/?#''"
    using assms(2,3) by auto
  with assms(1) have a: "url_authority (pg_dsn c) = dbc_user c @ CHR '':'' # p"
    by (simp add: url_authority_def pg_dsn_def takeWhile_all_append)
  moreover have "CHR ''@'' \<notin> set (dbc_user c @ CHR '':'' # p)" using assms(2,3) by auto
  ultimately show ?thesis by (simp add: url_userinfo_def)
qed

text \<open>
  C37. \<open>New\<close> is not exception-safe. Call its outcome clean when it leaves open exactly
  what the caller can release: nothing after an error, and after success only what the
  returned container's \<open>Close\<close> releases. The outcome is clean exactly when
  \<open>pgxpool.New\<close> fails or nothing fails. When the Redis ping or \<open>clickhouse.Open\<close>
  fails, the pool and the Redis client stay open with no container to close them.
\<close>

theorem database_new_leaks:
  "(case database_new cfg f of (Inl _, rs) \<Rightarrow> rs = [] | (Inr _, rs) \<Rightarrow> container_close rs = [])
   \<longleftrightarrow> pg_new_fails f \<or> (\<not> redis_ping_fails f \<and> \<not> ch_open_fails f)"
  by (simp add: database_new_def open_res_def container_close_def Let_def)

subsection \<open>Start-up runs\<close>

lemma load_config_empty: "load_config Map.empty Map.empty = Inr default_config"
  by (simp add: load_config_def dotenv_load_def get_env_def get_env_int_def default_config_def)

theorem redis_db_from_env_witness:
  "\<exists>c. load_config [''REDIS_DB'' \<mapsto> ''3''] [''REDIS_DB'' \<mapsto> ''9''] = Inr c \<and> rc_db (cfg_redis c) = 3"
proof -
  have "go_itoa 3 = ''3''" by (simp add: go_itoa_def dec_digits.simps digit_char_def)
  moreover have "\<exists>c. load_config (Map.empty(''REDIS_DB'' \<mapsto> go_itoa 3)) [''REDIS_DB'' \<mapsto> ''9''] = Inr c
                      \<and> rc_db (cfg_redis c) = 3"
    by (rule redis_db_from_env) simp_all
  ultimately show ?thesis by simp
qed

theorem pg_dsn_slash_drops_credentials_witness:
  "url_authority (pg_dsn \<lparr>dbc_host = ''db'', dbc_port = ''5432'', dbc_user = ''app'', dbc_password = ''5432/x'',
                          dbc_name = ''goflare''\<rparr>) = ''app:5432''
   \<and> url_userinfo (url_authority (pg_dsn \<lparr>dbc_host = ''db'', dbc_port = ''5432'', dbc_user = ''app'',
                          dbc_password = ''5432/x'', dbc_name = ''goflare''\<rparr>)) = None"
  using pg_dsn_slash_drops_credentials [where c = "\<lparr>dbc_host = ''db'', dbc_port = ''5432'', dbc_user = ''app'',
          dbc_password = ''5432/x'', dbc_name = ''goflare''\<rparr>" and p = "''5432''" and q = "''x''"]
  by (simp add: url_userinfo_def)

text \<open>A start-up whose Redis ping fails leaves the pool and the Redis client open.\<close>

lemma database_new_redis_down:
  "database_new default_config sample_faults = (Inl RedisError, [PgPool, RedisClient])"
  by (simp add: database_new_def sample_faults_def open_res_def)

end
