(* ===== verification/Concurrency.thy ===== *)
theory Concurrency
  imports Engine "HOL-Library.Multiset"
begin

text \<open>
  Concurrent calls of \<open>checkRateLimit\<close> (\<open>src/internal/engine/engine.go\<close>): the engine
  is called from many request goroutines at once and keeps no lock, so the Redis
  commands of different calls interleave. One call is a thread with two await points:
  \<open>INCR\<close>, then, when it saw the count 1, \<open>EXPIRE\<close>. The threads of one counter key
  form a multiset (threads are anonymous), and a step of the system runs one command of
  one thread against the shared Redis state (\<open>rl_step\<close>). A thread alone runs
  \<open>check_rate_limit\<close>; any interleaving of \<open>n\<close> threads on a fresh key hands out the
  counts \<open>1..n\<close> exactly once each, because \<open>INCR\<close> is atomic in the store.
\<close>

subsection \<open>Threads and steps\<close>

text \<open>Where a call is: before \<open>INCR\<close>, before \<open>EXPIRE\<close> (with its count), or returned
  (with its count, \<open>None\<close> when \<open>INCR\<close> failed and the call fails open).\<close>

datatype rl_thread = RlStart | RlExpire int | RlDone "int option"

definition rl_thread_step :: "redis \<Rightarrow> string \<Rightarrow> rl_thread \<Rightarrow> (rl_thread \<times> redis) option" where
  "rl_thread_step r key t =
     (case t of
        RlStart \<Rightarrow>
          (case redis_incr r key of
             (Inl _, r1) \<Rightarrow> Some (RlDone None, r1)
           | (Inr n, r1) \<Rightarrow> Some (if n = 1 then RlExpire n else RlDone (Some n), r1))
      | RlExpire n \<Rightarrow> Some (RlDone (Some n), snd (redis_expire r key rl_window))
      | RlDone _ \<Rightarrow> None)"

text \<open>One command of one thread; a returned thread takes no step.\<close>

inductive rl_step :: "string \<Rightarrow> redis \<times> rl_thread multiset \<Rightarrow> redis \<times> rl_thread multiset \<Rightarrow> bool"
  for key where
  step: "t \<in># T \<Longrightarrow> rl_thread_step r key t = Some (t', r') \<Longrightarrow> rl_step key (r, T) (r', add_mset t' (T - {#t#}))"

text \<open>The counts the threads have received, the threads past \<open>INCR\<close>, the allowed ones.\<close>

fun rl_count :: "rl_thread \<Rightarrow> int multiset" where
  "rl_count RlStart = {#}"
| "rl_count (RlExpire c) = {#c#}"
| "rl_count (RlDone (Some c)) = {#c#}"
| "rl_count (RlDone None) = {#}"

definition rl_counts :: "rl_thread multiset \<Rightarrow> int multiset" where
  "rl_counts T = \<Sum>\<^sub># (image_mset rl_count T)"

fun rl_started :: "rl_thread \<Rightarrow> bool" where
  "rl_started RlStart = False"
| "rl_started _ = True"

fun rl_done :: "rl_thread \<Rightarrow> bool" where
  "rl_done (RlDone _) = True"
| "rl_done _ = False"

fun rl_allowed :: "rl_thread \<Rightarrow> bool" where
  "rl_allowed (RlDone None) = True"
| "rl_allowed (RlDone (Some c)) = (c \<le> rate_limit)"
| "rl_allowed _ = False"

definition rl_cur :: "string \<Rightarrow> redis \<Rightarrow> int" where
  "rl_cur key r = (case live_entry r key of None \<Rightarrow> 0 | Some e \<Rightarrow> rval e)"

definition fresh_redis :: redis where
  "fresh_redis = \<lparr>rstore = Mapping.empty, rnow = 0, rfaults = []\<rparr>"

text \<open>
  The invariant of an interleaving on a fresh key with a server that answers: the live
  counter equals the number of threads past \<open>INCR\<close>, and their counts are exactly
  \<open>1..\<close> that number.
\<close>

definition rl_nstarted :: "rl_thread multiset \<Rightarrow> nat" where
  "rl_nstarted T = size (filter_mset rl_started T)"

definition rl_inv :: "string \<Rightarrow> nat \<Rightarrow> redis \<Rightarrow> rl_thread multiset \<Rightarrow> bool" where
  "rl_inv key n r T \<longleftrightarrow>
     rfaults r = [] \<and> size T = n \<and> RlDone None \<notin># T \<and> rl_cur key r = int (rl_nstarted T)
     \<and> rl_counts T = mset_set {1..int (rl_nstarted T)}"

inductive_cases rl_stepE: "rl_step key (r, T) (r', T')"

subsection \<open>The invariant\<close>

lemma rl_cur_incr:
  assumes "rfaults r = []" and "rl_cur key r \<noteq> int64_max"
  shows "redis_incr r key = (Inr (rl_cur key r + 1), snd (redis_incr r key))
         \<and> rl_cur key (snd (redis_incr r key)) = rl_cur key r + 1 \<and> rfaults (snd (redis_incr r key)) = []"
proof (cases "live_entry r key")
  case None
  with assms show ?thesis
    by (simp add: redis_incr_def incr_ok_def rl_cur_def entry_live_def)
next
  case (Some e)
  with assms show ?thesis
    by (simp add: redis_incr_def incr_ok_def rl_cur_def live_entry_SomeD)
qed

lemma rl_cur_expire:
  assumes "rfaults r = []"
  shows "rl_cur key (snd (redis_expire r key rl_window)) = rl_cur key r
         \<and> rfaults (snd (redis_expire r key rl_window)) = []"
  using assms
  by (auto simp: redis_expire_def expire_ok_def rl_cur_def entry_live_def rl_window_def
      split: option.splits)

lemma swap_filter_size:
  "t \<in># T \<Longrightarrow> size (filter_mset P (add_mset t' (T - {#t#}))) + (if P t then 1 else 0)
                = size (filter_mset P T) + (if P t' then 1 else 0)"
  by (subst (2) insert_DiffM [symmetric]) (auto simp del: insert_DiffM)

lemma swap_counts:
  "t \<in># T \<Longrightarrow> rl_counts (add_mset t' (T - {#t#})) + rl_count t = rl_counts T + rl_count t'"
  by (subst (2) insert_DiffM [symmetric]) (auto simp: rl_counts_def simp del: insert_DiffM)

lemma mset_set_succ:
  "mset_set {1..1 + int s} = add_mset (int s + 1) (mset_set {1..int s})"
proof -
  have "{1..1 + int s} = insert (int s + 1) {1..int s}" by auto
  then show ?thesis by simp
qed

lemma rl_started_lt:
  assumes "RlStart \<in># T"
  shows "rl_nstarted T < size T"
proof -
  have "filter_mset rl_started T \<subseteq># T" by (rule multiset_filter_subset)
  moreover have "filter_mset rl_started T \<noteq> T"
    using assms by (metis count_filter_mset not_in_iff rl_started.simps(1))
  ultimately have "filter_mset rl_started T \<subset># T" by (simp add: subset_mset.le_neq_trans)
  then show ?thesis unfolding rl_nstarted_def by (rule mset_subset_size)
qed

lemma rl_inv_step:
  assumes "rl_step key (r, T) (r', T')" and "rl_inv key n r T" and "int n < int64_max"
  shows "rl_inv key n r' T'"
proof -
  obtain t t' where h: "T' = add_mset t' (T - {#t#})" "t \<in># T" "rl_thread_step r key t = Some (t', r')"
    using assms(1) by (cases rule: rl_step.cases) auto
  have inv: "rfaults r = []" "size T = n" "RlDone None \<notin># T" "rl_cur key r = int (rl_nstarted T)"
    "rl_counts T = mset_set {1..int (rl_nstarted T)}"
    using assms(2) by (simp_all add: rl_inv_def)
  note fs = swap_filter_size [OF h(2), of rl_started t', folded rl_nstarted_def]
  note cs = swap_counts [OF h(2), of t']
  have nd: "RlDone None \<notin># T - {#t#}" using inv(3) by (meson in_diffD)
  have "size (add_mset t (T - {#t#})) = size T" using h(2) by simp
  then have sz: "size T' = n"
    using inv(2) h(1) by simp
  show ?thesis
  proof (cases t)
    case RlStart
    then have "rl_nstarted T < size T" using h(2) rl_started_lt by simp
    then have "rl_cur key r \<noteq> int64_max" using inv(2,4) assms(3) by simp
    note inc = rl_cur_incr [OF inv(1) this]
    obtain r1 where inc1: "redis_incr r key = (Inr (rl_cur key r + 1), r1)"
      using inc by blast
    have r1: "rl_cur key r1 = rl_cur key r + 1" "rfaults r1 = []"
      using inc inc1 by simp_all
    have t': "t' = (if rl_cur key r + 1 = 1 then RlExpire (rl_cur key r + 1) else RlDone (Some (rl_cur key r + 1)))"
      and r': "r' = r1"
      using h(3) RlStart inc1 by (simp_all add: rl_thread_step_def)
    have ns: "rl_nstarted T' = Suc (rl_nstarted T)"
      using fs t' RlStart h(1) by (simp split: if_splits)
    have cn: "rl_counts T' = mset_set {1..1 + int (rl_nstarted T)}"
      using cs t' RlStart h(1) inv(4,5) mset_set_succ [of "rl_nstarted T"] by (simp split: if_splits)
    have "RlDone None \<notin># T'" using nd t' h(1) by simp
    then show ?thesis
      unfolding rl_inv_def using r1 r' sz ns cn inv(4) by simp
  next
    case (RlExpire c)
    have t': "t' = RlDone (Some c)" and r': "r' = snd (redis_expire r key rl_window)"
      using h(3) RlExpire by (simp_all add: rl_thread_step_def)
    have ns: "rl_nstarted T' = rl_nstarted T"
      using fs t' RlExpire h(1) by simp
    have cn: "rl_counts T' = rl_counts T"
      using cs t' RlExpire h(1) by simp
    have "RlDone None \<notin># T'" using nd t' h(1) by simp
    then show ?thesis
      unfolding rl_inv_def using rl_cur_expire [OF inv(1), of key] r' sz ns cn inv by simp
  next
    case (RlDone x)
    then show ?thesis using h(3) by (simp add: rl_thread_step_def)
  qed
qed


lemma rl_inv_reach:
  assumes "(rl_step key)\<^sup>*\<^sup>* (r0, T0) (r, T)" and "rl_inv key n r0 T0" and "int n < int64_max"
  shows "rl_inv key n r T"
  using assms by (induction rule: rtranclp_induct2) (auto intro: rl_inv_step)

lemma rl_inv_init:
  assumes "rfaults r0 = []" and "live_entry r0 key = None"
  shows "rl_inv key n r0 (replicate_mset n RlStart)"
proof -
  have "filter_mset rl_started (replicate_mset n RlStart) = {#}" by (induction n) auto
  moreover have "rl_counts (replicate_mset n RlStart) = {#}" by (induction n) (auto simp: rl_counts_def)
  ultimately show ?thesis
    using assms by (simp add: rl_inv_def rl_nstarted_def rl_cur_def)
qed

lemma rl_done_allowed:
  assumes "\<forall>t\<in>#T. rl_done t" and "RlDone None \<notin># T"
  shows "size (filter_mset rl_allowed T) = size (filter_mset (\<lambda>c. c \<le> rate_limit) (rl_counts T))
         \<and> rl_nstarted T = size T"
  using assms
proof (induction T)
  case empty
  then show ?case by (simp add: rl_counts_def rl_nstarted_def)
next
  case (add t T)
  then obtain c where "t = RlDone (Some c)"
    by (cases t) (auto, metis option.exhaust)
  with add show ?case by (simp add: rl_counts_def rl_nstarted_def)
qed

lemma card_allowed: "size (filter_mset (\<lambda>c. c \<le> rate_limit) (mset_set {1..int n})) = min n 100"
proof -
  have "{x \<in> {1..int n}. x \<le> rate_limit} = {1..min (int n) 100}"
    by (auto simp: rate_limit_def)
  then show ?thesis by (simp add: filter_mset_mset_set)
qed

text \<open>
  C7. No lost update: in any interleaving of \<open>n\<close> concurrent \<open>checkRateLimit\<close> calls
  for one fresh key, with a server that answers and no time passing, once every call
  has returned the counts they received are exactly \<open>1..n\<close>, each once, so exactly
  \<open>min n 100\<close> calls are allowed, whatever the order of their \<open>INCR\<close> and
  \<open>EXPIRE\<close> commands.
\<close>

theorem concurrent_rate_limit:
  assumes "(rl_step key)\<^sup>*\<^sup>* (r0, replicate_mset n RlStart) (r, T)"
    and "rfaults r0 = []" and "live_entry r0 key = None" and "int n < int64_max"
    and "\<forall>t\<in>#T. rl_done t"
  shows "rl_counts T = mset_set {1..int n} \<and> size (filter_mset rl_allowed T) = min n 100"
proof -
  have inv: "rl_inv key n r T"
    using rl_inv_reach [OF assms(1) rl_inv_init [OF assms(2,3)] assms(4)] .
  then have nd: "RlDone None \<notin># T" and sz: "size T = n" by (simp_all add: rl_inv_def)
  note da = rl_done_allowed [OF assms(5) nd]
  have "rl_counts T = mset_set {1..int n}" using inv da sz by (simp add: rl_inv_def)
  with da card_allowed show ?thesis by simp
qed


subsection \<open>One thread is the sequential code\<close>

lemma rl_step_single:
  "rl_step key (r, {#t#}) (r', T') \<Longrightarrow> \<exists>t'. T' = {#t'#} \<and> rl_thread_step r key t = Some (t', r')"
  by (erule rl_step.cases) auto

lemma rl_thread_step_start:
  "rl_thread_step r key RlStart = Some (t1, r1) \<Longrightarrow> t1 \<noteq> RlStart"
  by (auto simp: rl_thread_step_def split: prod.splits sum.splits if_splits)

lemma rl_solo_reach:
  assumes "(rl_step key)\<^sup>*\<^sup>* (r, {#RlStart#}) (r', T)"
  shows "(T = {#RlStart#} \<and> r' = r) \<or>
         (\<exists>t1 r1. rl_thread_step r key RlStart = Some (t1, r1) \<and>
            ((T = {#t1#} \<and> r' = r1) \<or>
             (\<exists>c. t1 = RlExpire c \<and> T = {#RlDone (Some c)#} \<and> r' = snd (redis_expire r1 key rl_window))))"
  using assms
proof (induction rule: rtranclp_induct2)
  case refl
  then show ?case by simp
next
  case (step ra Ta rb Tb)
  from step.IH show ?case
  proof (elim disjE exE conjE)
    assume "Ta = {#RlStart#}" "ra = r"
    with step.hyps(2) show ?case by (auto dest: rl_step_single)
  next
    fix t1 r1
    assume t1: "rl_thread_step r key RlStart = Some (t1, r1)" and "Ta = {#t1#}" "ra = r1"
    with step.hyps(2) obtain t' where "Tb = {#t'#}" "rl_thread_step r1 key t1 = Some (t', rb)"
      by (auto dest: rl_step_single)
    moreover have "t1 \<noteq> RlStart" using t1 by (rule rl_thread_step_start)
    ultimately show ?case
      using t1 by (cases t1) (auto simp: rl_thread_step_def)
  next
    fix t1 r1 c
    assume "Ta = {#RlDone (Some c)#}"
    with step.hyps(2) show ?case by (auto dest: rl_step_single simp: rl_thread_step_def)
  qed
qed

text \<open>
  The split model agrees with the sequential one: a thread running alone from its start
  to its return computes what \<open>check_rate_limit\<close> computes.
\<close>

lemma rl_solo_refines:
  assumes "(rl_step (rl_key d ip))\<^sup>*\<^sup>* (r, {#RlStart#}) (r', {#t#})" and "rl_done t"
  shows "rl_allowed t = fst (fst (check_rate_limit r d ip)) \<and> r' = snd (check_rate_limit r d ip)"
  using rl_solo_reach [OF assms(1)] assms(2)
  by (auto simp: rl_thread_step_def check_rate_limit_def rate_limit_def
      split: prod.splits sum.splits if_splits)


subsection \<open>An interleaving of three calls\<close>

lemma rl_run_step:
  "(rl_step key)\<^sup>*\<^sup>* s (r, T) \<Longrightarrow> t \<in># T \<Longrightarrow> rl_thread_step r key t = Some (t', r') \<Longrightarrow>
   T' = add_mset t' (T - {#t#}) \<Longrightarrow> (rl_step key)\<^sup>*\<^sup>* s (r', T')"
  by (auto elim: rtranclp.rtrancl_into_rtrancl intro: rl_step.step)

lemma fresh_redis_simps [simp]:
  "rfaults fresh_redis = []" "rnow fresh_redis = 0" "live_entry fresh_redis k = None"
  "fresh_redis\<lparr>rfaults := []\<rparr> = fresh_redis"
  by (simp_all add: fresh_redis_def live_entry_def)

lemma rl_sample_steps:
  "rl_thread_step fresh_redis k RlStart = Some (RlExpire 1, set_entry fresh_redis k \<lparr>rval = 1, rexp = None\<rparr>)"
  "rl_thread_step (set_entry fresh_redis k \<lparr>rval = 1, rexp = None\<rparr>) k RlStart =
     Some (RlDone (Some 2), set_entry fresh_redis k \<lparr>rval = 2, rexp = None\<rparr>)"
  "rl_thread_step (set_entry fresh_redis k \<lparr>rval = 2, rexp = None\<rparr>) k (RlExpire 1) =
     Some (RlDone (Some 1), set_entry fresh_redis k \<lparr>rval = 2, rexp = Some 60\<rparr>)"
  "rl_thread_step (set_entry fresh_redis k \<lparr>rval = 1, rexp = None\<rparr>) k (RlExpire 1) =
     Some (RlDone (Some 1), set_entry fresh_redis k \<lparr>rval = 1, rexp = Some 60\<rparr>)"
  "rl_thread_step (set_entry fresh_redis k \<lparr>rval = 2, rexp = Some 60\<rparr>) k RlStart =
     Some (RlDone (Some 3), set_entry fresh_redis k \<lparr>rval = 3, rexp = Some 60\<rparr>)"
  by (simp_all add: rl_thread_step_def redis_incr_def incr_ok_def redis_expire_def expire_ok_def
      entry_live_def int64_max_def rl_window_def)

text \<open>Calls A and B increment, then A expires, then C increments: counts 1, 2, 3.\<close>

theorem concurrent_rate_limit_witness:
  "rl_counts {#RlDone (Some 3), RlDone (Some 1), RlDone (Some 2)#} = mset_set {1..3}
   \<and> size (filter_mset rl_allowed {#RlDone (Some 3), RlDone (Some 1), RlDone (Some 2)#}) = 3"
proof -
  have "(rl_step ''k'')\<^sup>*\<^sup>* (fresh_redis, replicate_mset 3 RlStart) (fresh_redis, {#RlStart, RlStart, RlStart#})"
    by (simp add: numeral_3_eq_3)
  then have "(rl_step ''k'')\<^sup>*\<^sup>* (fresh_redis, replicate_mset 3 RlStart)
       (set_entry fresh_redis ''k'' \<lparr>rval = 1, rexp = None\<rparr>, {#RlExpire 1, RlStart, RlStart#})"
    by (rule rl_run_step [where t = RlStart and t' = "RlExpire 1"]) (simp_all add: rl_sample_steps)
  then have "(rl_step ''k'')\<^sup>*\<^sup>* (fresh_redis, replicate_mset 3 RlStart)
       (set_entry fresh_redis ''k'' \<lparr>rval = 2, rexp = None\<rparr>, {#RlDone (Some 2), RlExpire 1, RlStart#})"
    by (rule rl_run_step [where t = RlStart and t' = "RlDone (Some 2)"]) (simp_all add: rl_sample_steps)
  then have "(rl_step ''k'')\<^sup>*\<^sup>* (fresh_redis, replicate_mset 3 RlStart)
       (set_entry fresh_redis ''k'' \<lparr>rval = 2, rexp = Some 60\<rparr>, {#RlDone (Some 1), RlDone (Some 2), RlStart#})"
    by (rule rl_run_step [where t = "RlExpire 1" and t' = "RlDone (Some 1)"]) (simp_all add: rl_sample_steps)
  then have run: "(rl_step ''k'')\<^sup>*\<^sup>* (fresh_redis, replicate_mset 3 RlStart)
       (set_entry fresh_redis ''k'' \<lparr>rval = 3, rexp = Some 60\<rparr>,
        {#RlDone (Some 3), RlDone (Some 1), RlDone (Some 2)#})"
    by (rule rl_run_step [where t = RlStart and t' = "RlDone (Some 3)"]) (simp_all add: rl_sample_steps)
  have "rl_counts {#RlDone (Some 3), RlDone (Some 1), RlDone (Some 2)#} = mset_set {1..int 3}
     \<and> size (filter_mset rl_allowed {#RlDone (Some 3), RlDone (Some 1), RlDone (Some 2)#}) = min 3 100"
    by (rule concurrent_rate_limit [OF run]) (simp_all add: int64_max_def)
  then show ?thesis by simp
qed

end
