(* ===== verification/Admin.thy ===== *)
theory Admin
  imports Store
begin

text \<open>
  The admin HTTP API: \<open>src/internal/domain/handler.go\<close> and \<open>src/internal/bot/handler.go\<close>.
  Each file holds a service (\<open>CreateDomain\<close>, \<open>GetDomain\<close>, \<open>ListDomains\<close>;
  \<open>AddRule\<close>, \<open>ListRules\<close>) and a handler whose routes (\<open>RegisterRoutes\<close>) decode a JSON
  body, call the service and answer. JSON decoding is a parameter (\<open>admin_codec\<close>:
  the decoded row, or the decoder's error message); an answer is its status and what is
  encoded in its body. Go's \<open>encoding/json\<close> writes a \<open>nil\<close> slice as \<open>null\<close> and a
  non-empty one as an array; the repositories' \<open>GetAll\<close> start from a \<open>nil\<close> slice and
  append one element per row (\<open>json_slice\<close>).
\<close>

subsection \<open>Requests and answers\<close>

datatype 'a json_slice = JNull | JArray "'a list"

text \<open>\<open>var xs []*T\<close> followed by one \<open>append\<close> per row, as \<open>json.Encoder\<close> writes it.\<close>

definition json_slice_of :: "'a list \<Rightarrow> 'a json_slice" where
  "json_slice_of xs = (if xs = [] then JNull else JArray xs)"

datatype admin_body =
    BDomain domain | BRule bot_rule
  | BDomains "domain json_slice" | BRules "bot_rule json_slice"
  | BError go_error | BDecodeError string

datatype admin_resp = AdminResp go_int admin_body

fun admin_status :: "admin_resp \<Rightarrow> go_int" where
  "admin_status (AdminResp st _) = st"

record admin_codec =
  decode_domain :: "string \<Rightarrow> string + domain"
  decode_rule :: "string \<Rightarrow> string + bot_rule"

datatype admin_request = PostDomains string | GetDomains | PostRules string | GetRules

subsection \<open>Handlers\<close>

text \<open>\<open>domain.Handler\<close> and \<open>bot.Handler\<close> hold their service (\<open>NewHandler(s)\<close>).\<close>

record 's domain_handler =
  dh_service :: "'s domain_service"

definition domain_new_handler :: "'s domain_service \<Rightarrow> 's domain_handler" where
  "domain_new_handler svc = \<lparr>dh_service = svc\<rparr>"

record 's bot_handler =
  bh_service :: "'s bot_service"

definition bot_new_handler :: "'s bot_service \<Rightarrow> 's bot_handler" where
  "bot_new_handler svc = \<lparr>bh_service = svc\<rparr>"

text \<open>
  \<open>Create\<close>: a body that does not decode is answered 400 with the decoder's message; a
  service error 500 with the error's text; success 201 with the stored row.
\<close>

definition domain_handler_create :: "admin_codec \<Rightarrow> 's domain_handler \<Rightarrow> 's \<Rightarrow> string \<Rightarrow> admin_resp \<times> 's" where
  "domain_handler_create codec h st body =
     (case decode_domain codec body of
        Inl msg \<Rightarrow> (AdminResp 400 (BDecodeError msg), st)
      | Inr d \<Rightarrow>
          (case create_domain (dh_service h) st d of
             (Inl err, st1) \<Rightarrow> (AdminResp 500 (BError err), st1)
           | (Inr d', st1) \<Rightarrow> (AdminResp 201 (BDomain d'), st1)))"

text \<open>\<open>List\<close>: 500 on a service error, otherwise the encoded slice with status 200.\<close>

definition domain_handler_list :: "'s domain_handler \<Rightarrow> 's \<Rightarrow> admin_resp \<times> 's" where
  "domain_handler_list h st =
     (case list_domains (dh_service h) st of
        (Inl err, st1) \<Rightarrow> (AdminResp 500 (BError err), st1)
      | (Inr ds, st1) \<Rightarrow> (AdminResp 200 (BDomains (json_slice_of ds)), st1))"

definition bot_handler_create :: "admin_codec \<Rightarrow> 's bot_handler \<Rightarrow> 's \<Rightarrow> string \<Rightarrow> admin_resp \<times> 's" where
  "bot_handler_create codec h st body =
     (case decode_rule codec body of
        Inl msg \<Rightarrow> (AdminResp 400 (BDecodeError msg), st)
      | Inr r \<Rightarrow>
          (case add_rule (bh_service h) st r of
             (Inl err, st1) \<Rightarrow> (AdminResp 500 (BError err), st1)
           | (Inr r', st1) \<Rightarrow> (AdminResp 201 (BRule r'), st1)))"

definition bot_handler_list :: "'s bot_handler \<Rightarrow> 's \<Rightarrow> admin_resp \<times> 's" where
  "bot_handler_list h st =
     (case list_rules (bh_service h) st of
        (Inl err, st1) \<Rightarrow> (AdminResp 500 (BError err), st1)
      | (Inr rs, st1) \<Rightarrow> (AdminResp 200 (BRules (json_slice_of rs)), st1))"

text \<open>The two \<open>RegisterRoutes\<close>: \<open>POST\<close>/\<open>GET /domains\<close> and \<open>POST\<close>/\<open>GET /bot/rules\<close>.\<close>

fun admin_serve ::
  "admin_codec \<Rightarrow> 's domain_handler \<Rightarrow> 's bot_handler \<Rightarrow> 's \<Rightarrow> admin_request \<Rightarrow> admin_resp \<times> 's" where
  "admin_serve codec dh bh st (PostDomains b) = domain_handler_create codec dh st b"
| "admin_serve codec dh bh st GetDomains = domain_handler_list dh st"
| "admin_serve codec dh bh st (PostRules b) = bot_handler_create codec bh st b"
| "admin_serve codec dh bh st GetRules = bot_handler_list bh st"

text \<open>The store operation a request amounts to, once its body has decoded.\<close>

fun admin_decode :: "admin_codec \<Rightarrow> admin_request \<Rightarrow> admin_op option" where
  "admin_decode codec (PostDomains b) =
     (case decode_domain codec b of Inl _ \<Rightarrow> None | Inr d \<Rightarrow> Some (CreateDomainOp d))"
| "admin_decode codec GetDomains = Some ListDomainsOp"
| "admin_decode codec (PostRules b) =
     (case decode_rule codec b of Inl _ \<Rightarrow> None | Inr r \<Rightarrow> Some (AddRuleOp r))"
| "admin_decode codec GetRules = Some ListRulesOp"

fun admin_serve_all ::
  "admin_codec \<Rightarrow> 's domain_handler \<Rightarrow> 's bot_handler \<Rightarrow> 's \<Rightarrow> admin_request list \<Rightarrow> admin_resp list \<times> 's" where
  "admin_serve_all codec dh bh st [] = ([], st)"
| "admin_serve_all codec dh bh st (q # qs) =
     (let (a, st1) = admin_serve codec dh bh st q; (as, st2) = admin_serve_all codec dh bh st1 qs in (a # as, st2))"

text \<open>The handlers over the Postgres services.\<close>

definition pg_domain_handler :: "pg domain_handler" where
  "pg_domain_handler = domain_new_handler pg_domain_service"

definition pg_bot_handler :: "pg bot_handler" where
  "pg_bot_handler = bot_new_handler pg_bot_service"

text \<open>A codec that fails on an empty body, and a rule with no value.\<close>

definition sample_rule_no_value :: bot_rule where
  "sample_rule_no_value = \<lparr>rule_id = 0, rule_type = ''IP'', rule_value = [], rule_action = ''BLOCK'',
                          rule_description = ''typo'', rule_created_at = 0\<rparr>"

definition sample_codec :: admin_codec where
  "sample_codec = \<lparr>decode_domain = (\<lambda>b. if b = [] then Inl ''EOF'' else Inr sample_new_domain),
                   decode_rule = (\<lambda>b. if b = [] then Inl ''EOF'' else Inr sample_rule_no_value)\<rparr>"

subsection \<open>Facts about the handlers\<close>

text \<open>A request changes the state exactly as the operation its body decodes to, whatever the repositories.\<close>

lemma admin_serve_store:
  "snd (admin_serve codec dh bh st q) =
     (case admin_decode codec q of None \<Rightarrow> st | Some op \<Rightarrow> admin_step (dh_service dh) (bh_service bh) st op)"
  by (cases q)
     (auto simp: domain_handler_create_def domain_handler_list_def bot_handler_create_def
       bot_handler_list_def split: sum.splits prod.splits)

text \<open>
  C32. The admin API refines the store's operations, for any implementation of the
  repository interfaces: serving any sequence of requests leaves the state that
  \<open>admin_run\<close> computes from the operations of the requests whose bodies decode; a body
  that does not decode touches nothing.
\<close>

theorem admin_serve_all_refines:
  "snd (admin_serve_all codec dh bh st qs) =
     admin_run (dh_service dh) (bh_service bh) st (List.map_filter (admin_decode codec) qs)"
proof (induction qs arbitrary: st)
  case Nil
  then show ?case by (simp add: admin_run_def map_filter_simps)
next
  case (Cons q qs)
  obtain a st1 where q: "admin_serve codec dh bh st q = (a, st1)" by fastforce
  then have st1: "st1 = (case admin_decode codec q of None \<Rightarrow> st
                         | Some op \<Rightarrow> admin_step (dh_service dh) (bh_service bh) st op)"
    using admin_serve_store [of codec dh bh st q] by simp
  show ?case
    using Cons.IH [of st1] q st1
    by (auto simp: admin_run_def map_filter_simps split: prod.splits option.splits)
qed

text \<open>A rule missing its type, value or action is refused before the repository is called.\<close>

lemma add_rule_invalid:
  "rule_type r = [] \<or> rule_value r = [] \<or> rule_action r = [] \<Longrightarrow>
   add_rule svc st r = (Inl (ValidationError ''rule_type, value, and action are required''), st)"
  by (simp add: add_rule_def)

text \<open>
  C33. A client error answered as a server error: a rule body that decodes but lacks its
  type, value or action is answered 500 (Internal Server Error) with the validation
  message, and the repository is not called; only a body that does not decode gets 400.
\<close>

theorem add_rule_invalid_500:
  assumes "decode_rule codec b = Inr r" and "rule_type r = [] \<or> rule_value r = [] \<or> rule_action r = []"
  shows "admin_serve codec dh bh st (PostRules b) =
           (AdminResp 500 (BError (ValidationError ''rule_type, value, and action are required'')), st)"
  using assms add_rule_invalid [OF assms(2), of "bh_service bh" st] by (simp add: bot_handler_create_def)

text \<open>An empty Postgres table is listed as JSON \<open>null\<close>, not as an empty array.\<close>

lemma list_domains_empty_null:
  "\<not> fault_now (pg_faults db) \<Longrightarrow> pg_domains db = [] \<Longrightarrow>
   fst (admin_serve codec pg_domain_handler bh db GetDomains) = AdminResp 200 (BDomains JNull)"
  by (simp add: domain_handler_list_def list_domains_def pg_domain_handler_def domain_new_handler_def
      pg_domain_service_def domain_new_service_def domain_new_repository_def domain_get_all_def json_slice_of_def)

text \<open>
  C34. A broken listing is answered as a success: when the row stream of the domain
  query breaks off after \<open>k\<close> of the table's rows, \<open>GET /domains\<close> answers 200 with
  the first \<open>k\<close> domains only, because \<open>GetAll\<close> never checks \<open>rows.Err()\<close>; the
  client cannot tell the list is truncated.
\<close>

theorem list_domains_truncated:
  assumes "\<not> fault_now (pg_faults db)" and "row_cut (pg_cuts db) = Some k"
  shows "admin_serve codec pg_domain_handler bh db GetDomains =
           (AdminResp 200 (BDomains (json_slice_of (take k (pg_domains db)))), pg_call db)"
  using assms
  by (simp add: domain_handler_list_def list_domains_def pg_domain_handler_def domain_new_handler_def
      pg_domain_service_def domain_new_service_def domain_new_repository_def domain_get_all_def rows_read_def)

subsection \<open>Admin runs\<close>

text \<open>An empty body, a new site and a rule without value: only the site reaches the store.\<close>

theorem admin_serve_all_refines_witness:
  "snd (admin_serve_all sample_codec pg_domain_handler pg_bot_handler sample_pg
          [PostDomains [], PostDomains ''{...}'', PostRules ''{...}'']) =
   admin_run pg_domain_service pg_bot_service sample_pg [CreateDomainOp sample_new_domain, AddRuleOp sample_rule_no_value]"
  using admin_serve_all_refines [of sample_codec pg_domain_handler pg_bot_handler sample_pg
          "[PostDomains [], PostDomains ''{...}'', PostRules ''{...}'']"]
  by (simp add: sample_codec_def map_filter_simps pg_domain_handler_def pg_bot_handler_def
      domain_new_handler_def bot_new_handler_def)

theorem add_rule_invalid_500_witness:
  "admin_serve sample_codec pg_domain_handler pg_bot_handler sample_pg (PostRules ''{...}'') =
     (AdminResp 500 (BError (ValidationError ''rule_type, value, and action are required'')), sample_pg)"
  by (rule add_rule_invalid_500 [where r = sample_rule_no_value])
     (simp_all add: sample_codec_def sample_rule_no_value_def)


text \<open>Two domains, a row stream that breaks after the first: 200 with one domain.\<close>

theorem list_domains_truncated_witness:
  "admin_serve sample_codec pg_domain_handler pg_bot_handler
     (sample_pg\<lparr>pg_domains := [sample_new_domain, sample_new_domain\<lparr>dom_name := ''b.example''\<rparr>],
                pg_cuts := [Some 1]\<rparr>) GetDomains =
   (AdminResp 200 (BDomains (JArray [sample_new_domain])),
    pg_call (sample_pg\<lparr>pg_domains := [sample_new_domain, sample_new_domain\<lparr>dom_name := ''b.example''\<rparr>],
                       pg_cuts := [Some 1]\<rparr>))"
  using list_domains_truncated [where db = "sample_pg\<lparr>pg_domains := [sample_new_domain,
          sample_new_domain\<lparr>dom_name := ''b.example''\<rparr>], pg_cuts := [Some 1]\<rparr>" and k = 1
          and codec = sample_codec and bh = pg_bot_handler]
  by (simp add: sample_pg_def row_cut_def json_slice_of_def)
end
