(* ===== verification/Batching.thy ===== *)
theory Batching
  imports Analytics
begin

text \<open>
  The worker's batching as a whole (\<open>src/internal/analytics/repository.go\<close>, \<open>worker\<close>):
  the reference \<open>chunks n xs\<close> cuts a list into consecutive pieces of \<open>n\<close> with a
  shorter last piece. Receiving events one by one, flushing at 1000 and flushing the rest
  on a tick writes exactly the chunks of 1000 of the events. After \<open>Close\<close> the worker's
  loop returns within one receive more than the events still buffered.
\<close>

subsection \<open>The reference: chunks of a list\<close>

function chunks :: "nat \<Rightarrow> 'a list \<Rightarrow> 'a list list" where
  "chunks n xs = (if xs = [] \<or> n = 0 then [] else take n xs # chunks n (drop n xs))"
  by pat_completeness auto
termination
  by (relation "measure (\<lambda>(n, xs). length xs)") auto

declare chunks.simps [simp del]

lemma chunks_Nil [simp]: "chunks n [] = []"
  by (simp add: chunks.simps)

lemma chunks_full: "length xs = n \<Longrightarrow> 0 < n \<Longrightarrow> chunks n (xs @ ys) = xs # chunks n ys"
  by (subst chunks.simps) auto

lemma chunks_short: "xs \<noteq> [] \<Longrightarrow> length xs < n \<Longrightarrow> chunks n xs = [xs]"
  by (subst chunks.simps) (simp add: chunks.simps [of n "[]"])

lemma concat_chunks: "0 < n \<Longrightarrow> concat (chunks n xs) = xs"
proof (induction n xs rule: chunks.induct)
  case (1 n xs)
  then show ?case by (subst chunks.simps) simp
qed

subsection \<open>The worker writes the chunks\<close>

text \<open>What remains in the batch, as a list of at most one piece.\<close>

definition pending :: "ch_repo \<Rightarrow> request_log list list" where
  "pending s = (if batch s = [] then [] else [batch s])"

lemma recv_chunks:
  assumes "\<not> worker_done s" and "log_chan s = es" and "length (batch s) < batch_size"
    and "fault_free (ch_faults s)"
  shows "\<exists>s' new. recv_n (length es) s = Some s' \<and> log_chan s' = [] \<and> \<not> worker_done s'
           \<and> chan_closed s' = chan_closed s \<and> fault_free (ch_faults s') \<and> length (batch s') < batch_size
           \<and> wb_calls s' = wb_calls s @ map (\<lambda>c. (c, True)) new
           \<and> new @ pending s' = chunks batch_size (batch s @ es)"
  using assms
proof (induction es arbitrary: s)
  case Nil
  then show ?case
    by (auto simp: pending_def chunks_short)
next
  case (Cons e es)
  let ?s1 = "s\<lparr>log_chan := es, batch := batch s @ [e]\<rparr>"
  show ?case
  proof (cases "batch_size \<le> length (batch ?s1)")
    case True
    then have full: "length (batch s @ [e]) = batch_size" using Cons.prems(3) by simp
    let ?s2 = "flush ?s1"
    have step: "worker_step s Recv = Some ?s2"
      using Cons.prems True by (simp add: worker_step_def worker_recv_def Let_def)
    have s2: "\<not> worker_done ?s2" "log_chan ?s2 = es" "batch ?s2 = []" "fault_free (ch_faults ?s2)"
      "wb_calls ?s2 = wb_calls s @ [(batch s @ [e], True)]" "chan_closed ?s2 = chan_closed s"
      using Cons.prems by (simp_all add: flush_def Let_def batch_size_def)
    obtain s' new where IH: "recv_n (length es) ?s2 = Some s'" "log_chan s' = []" "\<not> worker_done s'"
      "chan_closed s' = chan_closed ?s2" "fault_free (ch_faults s')" "length (batch s') < batch_size"
      "wb_calls s' = wb_calls ?s2 @ map (\<lambda>c. (c, True)) new" "new @ pending s' = chunks batch_size (batch ?s2 @ es)"
      using Cons.IH [of ?s2] s2 by (auto simp: batch_size_def)
    have "(batch s @ [e]) # new @ pending s' = chunks batch_size (batch s @ e # es)"
      using IH(8) s2(3) chunks_full [OF full, of es] by (simp add: batch_size_def)
    then show ?thesis
      using step IH s2 by (intro exI [of _ s'] exI [of _ "(batch s @ [e]) # new"]) simp
  next
    case False
    have step: "worker_step s Recv = Some ?s1"
      using Cons.prems False by (simp add: worker_step_def worker_recv_def Let_def)
    obtain s' new where IH: "recv_n (length es) ?s1 = Some s'" "log_chan s' = []" "\<not> worker_done s'"
      "chan_closed s' = chan_closed ?s1" "fault_free (ch_faults s')" "length (batch s') < batch_size"
      "wb_calls s' = wb_calls ?s1 @ map (\<lambda>c. (c, True)) new" "new @ pending s' = chunks batch_size (batch ?s1 @ es)"
      using Cons.IH [of ?s1] Cons.prems False by auto
    then show ?thesis
      using step by (intro exI [of _ s'] exI [of _ new]) simp
  qed
qed

lemma flush_pending:
  "fault_free (ch_faults s) \<Longrightarrow> wb_calls (flush s) = wb_calls s @ map (\<lambda>c. (c, True)) (pending s)
                                 \<and> batch (flush s) = []"
  by (simp add: flush_def pending_def Let_def)

text \<open>
  C27. Batching is chunking: logging up to 10000 events into a fresh repository whose
  ClickHouse writes succeed, letting the worker receive them all and then one tick of
  the ticker, makes exactly the \<open>writeBatch\<close> calls \<open>chunks 1000 es\<close>, in order, and
  leaves the batch empty: the incremental batching of the loop is equivalent to cutting
  the event sequence into pieces of 1000.
\<close>

theorem worker_batches_chunks:
  assumes "length es \<le> chan_cap" and "fault_free fs"
  shows "\<exists>s1 s2 s3. log_all (new_repository fs) es = Inr s1 \<and> recv_n (length es) s1 = Some s2
           \<and> worker_step s2 Tick = Some s3 \<and> wb_calls s3 = map (\<lambda>c. (c, True)) (chunks batch_size es)
           \<and> batch s3 = []"
proof -
  let ?s1 = "(new_repository fs)\<lparr>log_chan := es\<rparr>"
  have l: "log_all (new_repository fs) es = Inr ?s1"
    using log_all_room [of "new_repository fs" es] assms(1) by (simp add: new_repository_def)
  obtain s2 new where r: "recv_n (length es) ?s1 = Some s2" "\<not> worker_done s2" "fault_free (ch_faults s2)"
    "wb_calls s2 = map (\<lambda>c. (c, True)) new" "new @ pending s2 = chunks batch_size es"
    using recv_chunks [of ?s1 es] assms(2) by (auto simp: new_repository_def batch_size_def)
  have t: "worker_step s2 Tick = Some (flush s2)" using r(2) by (simp add: worker_step_def)
  have w: "wb_calls (flush s2) = map (\<lambda>c. (c, True)) (chunks batch_size es)"
    using flush_pending [OF r(3)] r(4) r(5) [symmetric] by simp
  show ?thesis
    using l r(1) t w flush_pending [OF r(3)] by blast
qed

subsection \<open>The worker returns after Close\<close>

lemma recv_closed_done:
  assumes "chan_closed s" and "\<not> worker_done s"
  shows "\<exists>s'. recv_n (length (log_chan s) + 1) s = Some s' \<and> worker_done s' \<and> log_chan s' = []"
  using assms
proof (induction "log_chan s" arbitrary: s)
  case Nil
  then show ?case
    by (simp add: worker_step_def worker_recv_def flush_def Let_def)
next
  case (Cons e es)
  let ?s1 = "s\<lparr>log_chan := es, batch := batch s @ [e]\<rparr>"
  let ?s2 = "if batch_size \<le> length (batch ?s1) then flush ?s1 else ?s1"
  have step: "worker_step s Recv = Some ?s2"
    using Cons.prems Cons.hyps(2) [symmetric] by (simp add: worker_step_def worker_recv_def Let_def)
  have s2: "log_chan ?s2 = es" "chan_closed ?s2" "\<not> worker_done ?s2"
    using Cons.prems by (simp_all add: flush_def Let_def)
  obtain s' where "recv_n (length es + 1) ?s2 = Some s'" "worker_done s'" "log_chan s' = []"
    using Cons.hyps(1) [of ?s2] s2 by auto
  then show ?case
    using step Cons.hyps(2) [symmetric] by simp
qed

text \<open>
  C28. Termination of the worker after \<open>Close\<close>: once the channel is closed, the
  worker's loop returns (closing \<open>done\<close>, which ends \<open>Close\<close>'s wait) after at most one
  receive more than the events still buffered, whatever the batch holds and however
  the ClickHouse writes fare.
\<close>

theorem worker_terminates_after_close:
  assumes "close_chan s = Inr s1" and "\<not> worker_done s"
  shows "\<exists>s2. recv_n (length (log_chan s) + 1) s1 = Some s2 \<and> worker_done s2 \<and> log_chan s2 = []"
proof -
  have "s1 = s\<lparr>chan_closed := True\<rparr>" using assms(1) by (simp add: close_chan_def split: if_splits)
  then show ?thesis using recv_closed_done [of s1] assms(2) by simp
qed

subsection \<open>Runs\<close>

text \<open>1500 events are written as one batch of 1000 and, on the tick, one of 500.\<close>

theorem worker_batches_chunks_witness:
  "\<exists>s1 s2 s3. log_all (new_repository []) (replicate 1500 sample_log) = Inr s1
     \<and> recv_n 1500 s1 = Some s2 \<and> worker_step s2 Tick = Some s3
     \<and> wb_calls s3 = [(replicate 1000 sample_log, True), (replicate 500 sample_log, True)] \<and> batch s3 = []"
proof -
  have split: "replicate 1500 sample_log = replicate 1000 sample_log @ replicate 500 sample_log"
    by (simp add: replicate_add [symmetric])
  have "chunks batch_size (replicate 1500 sample_log) = [replicate 1000 sample_log, replicate 500 sample_log]"
    unfolding split by (simp add: chunks_full chunks_short batch_size_def)
  with worker_batches_chunks [of "replicate 1500 sample_log" "[]"] show ?thesis
    by (simp add: chan_cap_def)
qed

text \<open>Closed with three events buffered, the worker returns after four receives.\<close>

theorem worker_terminates_after_close_witness:
  "\<exists>s2. recv_n 4 ((new_repository [])\<lparr>log_chan := replicate 3 sample_log, chan_closed := True\<rparr>) = Some s2
        \<and> worker_done s2 \<and> log_chan s2 = []"
proof -
  have "close_chan ((new_repository [])\<lparr>log_chan := replicate 3 sample_log\<rparr>) =
          Inr ((new_repository [])\<lparr>log_chan := replicate 3 sample_log, chan_closed := True\<rparr>)"
    by (simp add: close_chan_def new_repository_def)
  from worker_terminates_after_close [OF this] show ?thesis
    by (simp add: new_repository_def numeral_eq_Suc)
qed

end
