(* ===== verification/WriteBatch.thy ===== *)
theory WriteBatch
  imports Analytics
begin

text \<open>
  \<open>clickHouseRepository.writeBatch\<close> (\<open>src/internal/analytics/repository.go\<close>):
  \<open>PrepareBatch\<close> on the connection, one \<open>Append\<close> per log (returning at the first
  error), and \<open>Send\<close>, which is the only step that stores rows. The connection's
  behaviour in one call is a record \<open>ch_conn\<close>: whether \<open>PrepareBatch\<close> fails,
  which rows \<open>Append\<close> refuses, whether \<open>Send\<close> fails. The pipeline of
  \<open>Analytics\<close> sees a call only as its batch and whether it returned \<open>nil\<close>; this
  theory shows that this flag is all the pipeline needs: a call stores the batch's
  rows, in order, exactly when it returns \<open>nil\<close>, and nothing otherwise. The table
  \<open>requests\<close> after a run of the pipeline is then determined by its trace.
\<close>

subsection \<open>The call\<close>

record ch_conn =
  prepare_fails :: bool
  append_fails :: "ch_row \<Rightarrow> bool"
  send_fails :: bool

text \<open>The loop \<open>for _, l := range logs { err := batch.Append(...); if err != nil { return err } }\<close>.\<close>

fun append_rows :: "(ch_row \<Rightarrow> bool) \<Rightarrow> ch_row list \<Rightarrow> request_log list \<Rightarrow> go_error + ch_row list" where
  "append_rows af acc [] = Inr acc"
| "append_rows af acc (l # ls) =
     (let row = to_row l in if af row then Inl ClickHouseError else append_rows af (acc @ [row]) ls)"

text \<open>\<open>writeBatch(logs)\<close>: \<open>Inr rows\<close> when \<open>Send\<close> succeeded and stored \<open>rows\<close>.\<close>

definition write_batch :: "ch_conn \<Rightarrow> request_log list \<Rightarrow> go_error + ch_row list" where
  "write_batch c logs =
     (if prepare_fails c then Inl ClickHouseError
      else (case append_rows (append_fails c) [] logs of
              Inl err \<Rightarrow> Inl err
            | Inr rows \<Rightarrow> if send_fails c then Inl ClickHouseError else Inr rows))"

text \<open>Whether the connection accepts a batch at every step.\<close>

definition conn_accepts :: "ch_conn \<Rightarrow> request_log list \<Rightarrow> bool" where
  "conn_accepts c logs \<longleftrightarrow>
     \<not> prepare_fails c \<and> \<not> send_fails c \<and> list_all (\<lambda>l. \<not> append_fails c (to_row l)) logs"

subsection \<open>The pipeline's calls against the connection\<close>

text \<open>
  A trace of \<open>writeBatch\<close> calls (batch, returned \<open>nil\<close>) agrees with the connection's
  behaviour in each call, and the rows the calls stored, in the order of the calls.
\<close>

definition wb_agrees :: "ch_conn list \<Rightarrow> (request_log list \<times> bool) list \<Rightarrow> bool" where
  "wb_agrees cs calls \<longleftrightarrow> list_all2 (\<lambda>c call. snd call = conn_accepts c (fst call)) cs calls"

definition ch_table :: "ch_conn list \<Rightarrow> (request_log list \<times> bool) list \<Rightarrow> ch_row list" where
  "ch_table cs calls =
     concat (map (\<lambda>(c, call). case write_batch c (fst call) of Inl _ \<Rightarrow> [] | Inr rows \<Rightarrow> rows) (zip cs calls))"

text \<open>A connection that accepts everything, and one whose \<open>Send\<close> fails.\<close>

definition conn_ok :: ch_conn where
  "conn_ok = \<lparr>prepare_fails = False, append_fails = (\<lambda>_. False), send_fails = False\<rparr>"

definition conn_send_fails :: ch_conn where
  "conn_send_fails = conn_ok\<lparr>send_fails := True\<rparr>"

subsection \<open>Facts about the call\<close>

lemma append_rows_ok:
  "list_all (\<lambda>l. \<not> af (to_row l)) ls \<Longrightarrow> append_rows af acc ls = Inr (acc @ write_rows ls)"
  by (induction ls arbitrary: acc) (simp_all add: write_rows_def Let_def)

lemma append_rows_fail:
  "\<not> list_all (\<lambda>l. \<not> af (to_row l)) ls \<Longrightarrow> append_rows af acc ls = Inl ClickHouseError"
  by (induction ls arbitrary: acc) (auto simp: Let_def)

lemma write_batch_conn: "write_batch c logs = (if conn_accepts c logs then Inr (write_rows logs) else Inl ClickHouseError)"
  by (cases "list_all (\<lambda>l. \<not> append_fails c (to_row l)) logs")
     (auto simp: write_batch_def conn_accepts_def append_rows_ok append_rows_fail)

lemma ch_table_agrees:
  "wb_agrees cs calls \<Longrightarrow> ch_table cs calls = write_rows (concat (map fst (filter snd calls)))"
proof (induction calls arbitrary: cs)
  case Nil
  then show ?case by (simp add: wb_agrees_def ch_table_def write_rows_def)
next
  case (Cons call calls)
  then obtain c cs' where cs: "cs = c # cs'" and ok: "snd call = conn_accepts c (fst call)"
    and rest: "wb_agrees cs' calls"
    by (auto simp: wb_agrees_def list_all2_Cons2)
  have "ch_table cs (call # calls) =
          (if snd call then write_rows (fst call) else []) @ ch_table cs' calls"
    using ok by (simp add: cs ch_table_def write_batch_conn)
  with Cons.IH [OF rest] show ?case by (simp add: write_rows_def)
qed

text \<open>With a connection that never fails, every call the worker makes succeeds.\<close>

lemma flush_all_ok:
  "fault_free (ch_faults s) \<Longrightarrow> list_all snd (wb_calls s) \<Longrightarrow> list_all snd (wb_calls (flush s))"
  by (simp add: flush_def Let_def)

lemma pipe_step_all_ok:
  assumes "pipe_step s l s'" and "fault_free (ch_faults s) \<and> list_all snd (wb_calls s)"
  shows "fault_free (ch_faults s') \<and> list_all snd (wb_calls s')"
  using assms
proof (induction rule: pipe_step.induct)
  case (accept s e s')
  then show ?case by (auto dest: repo_log_cases)
next
  case (drop s e s')
  then show ?case by (auto dest: repo_log_cases)
next
  case (close s s')
  then show ?case by (auto simp: close_chan_def split: if_splits)
next
  case (worker s ev s')
  then show ?case
    by (cases ev)
       (auto simp: worker_step_def flush_all_ok flush_def Let_def dest!: worker_recv_cases split: if_splits)
qed

lemma reach_all_ok: "reach fs s acc \<Longrightarrow> fault_free fs \<Longrightarrow> list_all snd (wb_calls s)"
proof -
  assume r: "reach fs s acc" and ff: "fault_free fs"
  from r have "fault_free (ch_faults s) \<and> list_all snd (wb_calls s)"
  proof (induction rule: reach.induct)
    case init
    show ?case using ff by (simp add: new_repository_def)
  next
    case (step s acc l s')
    from step.hyps(2) step.IH show ?case by (rule pipe_step_all_ok)
  qed
  then show ?thesis ..
qed


subsection \<open>From \<open>Log\<close> to the table\<close>

text \<open>
  C24. End to end, from \<open>Log\<close> to the ClickHouse table \<open>requests\<close>: when \<open>Close\<close>
  returns on a repository that was open, and each \<open>writeBatch\<close> call of the run
  stored or refused its batch as the connection allowed, the table holds exactly the
  rows (with their \<open>int32\<close> columns) of the events of the calls that returned
  \<open>nil\<close>, in order; when no call failed, it holds the row of every event \<open>Log\<close>
  accepted, once and in the order of acceptance.
\<close>

theorem close_stores_rows:
  assumes "reach fs s acc" and "\<not> chan_closed s" and "repo_close s = Inr s'"
    and "wb_agrees cs (wb_calls s')"
  shows "ch_table cs (wb_calls s') = write_rows (concat (map fst (filter snd (wb_calls s'))))
         \<and> (fault_free fs \<longrightarrow> ch_table cs (wb_calls s') = write_rows acc)"
proof -
  from repo_close_reach [OF assms(1,2)] assms(3)
  have r: "reach fs s' acc" and d: "worker_done s'" by auto
  have tab: "ch_table cs (wb_calls s') = write_rows (concat (map fst (filter snd (wb_calls s'))))"
    using assms(4) by (rule ch_table_agrees)
  moreover have "fault_free fs \<Longrightarrow> ch_table cs (wb_calls s') = write_rows acc"
  proof -
    assume "fault_free fs"
    with r have "list_all snd (wb_calls s')" by (rule reach_all_ok)
    then have "filter snd (wb_calls s') = wb_calls s'"
      by (simp add: filter_id_conv list_all_iff)
    with tab reach_done_abs [OF r d] show ?thesis by simp
  qed
  ultimately show ?thesis by blast
qed

text \<open>\<open>Close\<close> after one accepted event, with a connection that accepts the batch.\<close>

theorem close_stores_rows_witness:
  "reach [] \<lparr>log_chan = [sample_log], chan_closed = False, batch = [], worker_done = False,
             wb_calls = [], ch_faults = [], diags = []\<rparr> [sample_log] \<and>
   repo_close \<lparr>log_chan = [sample_log], chan_closed = False, batch = [], worker_done = False,
             wb_calls = [], ch_faults = [], diags = []\<rparr> =
     Inr \<lparr>log_chan = [], chan_closed = True, batch = [], worker_done = True,
          wb_calls = [([sample_log], True)], ch_faults = [], diags = []\<rparr> \<and>
   wb_agrees [conn_ok] [([sample_log], True)] \<and>
   ch_table [conn_ok] [([sample_log], True)] = write_rows [sample_log]"
proof -
  have c: "repo_close \<lparr>log_chan = [sample_log], chan_closed = False, batch = [], worker_done = False,
             wb_calls = [], ch_faults = [], diags = []\<rparr> =
     Inr \<lparr>log_chan = [], chan_closed = True, batch = [], worker_done = True,
          wb_calls = [([sample_log], True)], ch_faults = [], diags = []\<rparr>"
    by (simp add: repo_close_def close_chan_def drain.simps worker_recv_def flush_def batch_size_def)
  have a: "wb_agrees [conn_ok] [([sample_log], True)]"
    by (simp add: wb_agrees_def conn_accepts_def conn_ok_def)
  show ?thesis
    using reach_sample_accept c a close_stores_rows [OF reach_sample_accept _ c] by simp
qed

end
