(* ===== verification/Spec2Isabelle.thy ===== *)
theory Spec2Isabelle
  imports Prelude GoLib Redis Store Analytics Engine Frontends Config Concurrency Admin Batching WriteBatch
begin

text \<open>
  \<^bold>\<open>A verification model of namex, an edge routing layer\<close>

  The repository (\<open>src/internal\<close>) is a Go service that decides, for every DNS query
  and HTTP request of a tenant site, whether to allow, block or proxy it, and records
  every decision for analysis. Its parts and how they interact:
  \<^item> the decision engine (\<open>engine/engine.go\<close>): \<open>Analyze\<close> resolves the Host header
    to a site, \<open>AnalyzeIP\<close> scans the bot rules and then asks a Redis fixed-window rate
    limiter (\<open>checkRateLimit\<close>), and \<open>LogRequest\<close>/\<open>LogDNSQuery\<close> hand a record to
    the telemetry pipeline;
  \<^item> the telemetry pipeline (\<open>analytics/repository.go\<close>): \<open>Log\<close> puts a record into a
    buffered channel of capacity 10000 or drops it, a worker goroutine batches the
    records and writes them to ClickHouse every 1000 records, every 5 seconds and at
    \<open>Close\<close>;
  \<^item> the site and rule stores and their services (\<open>domain/\<close>, \<open>bot/\<close>,
    \<open>dns/repository.go\<close>): SQL repositories over Postgres and the admin routes that
    validate and insert;
  \<^item> the front-ends: the HTTP reverse proxy (\<open>proxy/handler.go\<close>) and the DNS
    responder (\<open>dns/server.go\<close>), each calling the engine once per unit of work.
  \<^item> start-up (\<open>config/config.go\<close>, \<open>database/database.go\<close>): the configuration
    read from the environment, and the three connections opened from it.

  \<^bold>\<open>Theories.\<close> \<open>Prelude\<close> holds the error type (\<open>go_error\<close>, with \<open>Panic\<close> for Go
  panics), the fault oracles and the list lemmas the components share. \<open>GoLib\<close>
  models from their documentation the Go library functions the code calls:
  \<open>strconv.Itoa\<close> (\<open>go_itoa\<close>), \<open>net.SplitHostPort\<close>/\<open>JoinHostPort\<close>,
  \<open>strings.ToLower\<close>/\<open>TrimSuffix\<close>, and the two idioms the engine uses on
  \<open>SplitHostPort\<close> (\<open>host_or_empty\<close>, \<open>host_or_self\<close>). \<open>Redis\<close> models the counter
  store's \<open>INCR\<close> and \<open>EXPIRE\<close> (a map from keys to counters with an optional expiry
  time, a clock, and a fault oracle). \<open>Store\<close> models the Postgres repositories as
  list-valued tables with serial counters (\<open>domain_get_by_name\<close>, \<open>domain_create\<close>,
  \<open>bot_get_all\<close>, \<open>dns_get_records_by_name_and_type\<close>, ...), the
  \<open>Repository\<close> interfaces as records of operations (\<open>domain_repository\<close>,
  \<open>bot_repository\<close>) with the Postgres implementations \<open>NewRepository\<close> returns, the
  services over any implementation (\<open>create_domain\<close>, \<open>add_rule\<close>, ...) with the
  contract \<open>domain_repo_sound\<close> they rely on, and the admin routes as \<open>admin_step\<close>
  over a datatype of operations. \<open>Analytics\<close> models the pipeline: the state \<open>ch_repo\<close>
  (channel buffer, closed flag, batch, worker-done flag, the trace of \<open>writeBatch\<close>
  calls, the fault oracle, the printed diagnostics), \<open>repo_log\<close> (\<open>Log\<close>),
  \<open>close_chan\<close>, \<open>flush\<close>, \<open>worker_recv\<close>/\<open>worker_step\<close> (one iteration of the
  worker's \<open>select\<close>), the interleaving of producers, \<open>Close\<close> and the worker as the
  inductive step relation \<open>pipe_step\<close> with reachability \<open>reach\<close>, \<open>drain\<close> and
  \<open>repo_close\<close> (\<open>Close\<close> waiting for the worker), and the rows \<open>writeBatch\<close>
  appends (\<open>to_row\<close>, with its \<open>int32\<close> conversions as 32-bit words). \<open>Engine\<close>
  models \<open>engine.go\<close> function by function (\<open>rl_key\<close>, \<open>check_rate_limit\<close>,
  \<open>scan_rules\<close>, \<open>analyze_ip\<close>, \<open>analyze\<close>, \<open>log_request\<close>, \<open>log_dns_query\<close>) over
  the state \<open>estate\<close>, the pair of Postgres and Redis that the engine's calls read and
  write. \<open>Frontends\<close> models \<open>ServeHTTP\<close> (\<open>serve_http\<close>, with the
  \<open>responseWrapper\<close> as \<open>wrapped_status\<close>) and \<open>handleRequest\<close>,
  \<open>parseQuery\<close>, \<open>handleTypeA\<close> and \<open>handleCustomRecords\<close> (\<open>handle_request\<close>,
  \<open>parse_query\<close>, \<open>handle_type_a\<close>, \<open>handle_custom_records\<close>), and \<open>NewServer\<close>
  with its \<open>ServeMux\<close> (\<open>new_server\<close>, \<open>serve_dns\<close>). This theory holds the
  properties that span the stores, the engine and the front-ends. \<open>Config\<close> models
  \<open>Load\<close>, \<open>getEnv\<close> and \<open>getEnvInt\<close> (\<open>load_config\<close>, \<open>get_env\<close>,
  \<open>get_env_int\<close>, over the environment as a map and \<open>strconv.Atoi\<close> as \<open>go_atoi\<close>
  in \<open>GoLib\<close>), \<open>database.New\<close> and \<open>Close\<close> (\<open>pg_dsn\<close>, \<open>database_new\<close>, \<open>container_close\<close>, with the
  connection steps as failure flags and the resources left open). \<open>Concurrency\<close> splits
  \<open>checkRateLimit\<close> at its two Redis commands (\<open>rl_thread_step\<close>) and interleaves
  any number of calls on one key (\<open>rl_step\<close>, over a multiset of threads).
  \<open>Admin\<close> models the admin handlers of \<open>domain/handler.go\<close> and
  \<open>bot/handler.go\<close> (the \<open>Handler\<close> structs over their services,
  \<open>domain_handler_create\<close>, \<open>domain_handler_list\<close>, \<open>bot_handler_create\<close>,
  \<open>bot_handler_list\<close>, routed by \<open>admin_serve\<close>) with JSON decoding as a parameter
  (\<open>admin_codec\<close>) and an answer as its status and body. The engine and the DNS
  server are modelled over the Postgres repositories directly (the wiring that hands
  them their repositories is not under \<open>src/\<close>).
  \<open>Batching\<close> relates the worker's batches to \<open>chunks\<close> of the accepted events and
  runs the worker after \<open>Close\<close> with \<open>recv_n\<close>, a number of receives as fuel.
  \<open>WriteBatch\<close> models \<open>writeBatch\<close> itself (\<open>write_batch\<close>: \<open>PrepareBatch\<close>, the
  \<open>Append\<close> loop \<open>append_rows\<close>, \<open>Send\<close>) over the connection's behaviour in one
  call (\<open>ch_conn\<close>), and the table the pipeline's calls leave (\<open>ch_table\<close>).

  \<^bold>\<open>Effects.\<close> Every operation takes the state and returns its result with the new
  state; a Go error is an \<open>Inl\<close> of \<open>go_error\<close>, a \<open>nil\<close> pointer is \<open>None\<close>. Every
  call to an external service (a Postgres query, a Redis command, a ClickHouse batch)
  consumes one entry of that service's fault oracle, a list of booleans where \<open>True\<close>
  means the call fails; a run that never fails uses the empty list. A Postgres query
  also consumes one entry of a row-cut oracle (\<open>pg_cuts\<close>): \<open>Some k\<close> means the row
  stream of a multi-row query breaks off after \<open>k\<close> rows, which the \<open>GetAll\<close>-style
  loops return as a success because they never check \<open>rows.Err()\<close> (\<open>rows_read\<close>).
  Transport details the code hands to libraries are parameters: whether
  \<open>url.Parse\<close> accepts a target and what status the upstream writes
  (\<open>upstream_env\<close>), whether \<open>dns.NewRR\<close> accepts a record and the name table
  \<open>dns.TypeToString\<close> (\<open>dns_lib\<close>), how a body decodes (\<open>admin_codec\<close>), what the
  ClickHouse connection accepts (\<open>ch_conn\<close>). Time passes between calls through
  \<open>redis_advance\<close>; \<open>analyze_ip_timed\<close> runs \<open>AnalyzeIP\<close> calls each after a delay.

  \<^bold>\<open>What is proved.\<close> The engine (C1--C11): rules are checked before the rate
  limiter and a rule hit leaves Redis alone (C1); the fixed window allows exactly 100
  calls (C2) and resets 60 seconds after its first call, later calls never extending
  it, whatever the delays between calls (C3); the counter store fails open (C4), and
  so does the rule store, a client that a rule blocks being allowed when the rule
  query fails or breaks off before the rule (C5); counters of different (domain,
  client) pairs are isolated (C6); any interleaving of concurrent calls hands out
  each count once, so no update is lost (C7); a failed \<open>EXPIRE\<close> leaves a counter
  that never resets, whatever the delays (a defect, C8); unknown and inactive sites
  are blocked without touching Redis (C9) and lookup errors are returned (C10); every
  decision is \<open>ALLOW\<close> without a reason or \<open>BLOCK\<close> with one, never \<open>CHALLENGE\<close>
  (C11, \<open>decision_wf\<close> in this theory). The front-ends (C12--C20, C15 in this
  theory): \<open>BLOCK\<close> never contacts an upstream or the record store; the proxied path
  logs the upstream's status; the 404 fallback is unreachable in any store the admin
  API builds; the paths that record no telemetry event (an engine error on HTTP, an
  unresolved name on DNS); DNS rate-limits inactive sites; the A answer of a managed
  site and the custom records of active sites, truncated without error when the row
  stream breaks off. Through the server \<open>NewServer\<close> builds, only a query with
  exactly one question reaches \<open>handleRequest\<close> (lemmas \<open>serve_dns_accepted\<close>,
  \<open>serve_dns_rejected\<close>). The pipeline (C21--C30): every step refines the abstract
  sequence of accepted events (nothing is lost, duplicated or reordered, C21), the
  invariant of reachable states, which also gives delivery once the worker has
  returned (C22), delivery of every accepted event by \<open>Close\<close> (C23), and end to end
  the rows the ClickHouse table holds after \<open>Close\<close>: those of the successful calls'
  events, in order, and of every accepted event when no call fails, a failing
  \<open>Append\<close> or \<open>Send\<close> storing nothing of its batch (C24); the size- and
  timer-triggered flushes; the batches the worker writes are exactly the 1000-event
  chunks of what was logged (C27); the worker finishes after \<open>Close\<close> within one
  receive per buffered event plus one (C28); the 10000-event bound; the panics of
  \<open>Log\<close> after \<open>Close\<close>. The stores and the admin API (C31--C34): the insert/lookup
  round trip of a site over any repository meeting the contract; the admin API
  refines the store operations for any implementation of the interfaces, a body that
  does not decode changing nothing; a rule without type, value or action is answered
  500, not 400; a listing whose row stream breaks off is answered 200 with the rows
  read so far. Start-up (C35--C37): integer settings round trip through
  \<open>getEnvInt\<close>; a \<open>/\<close> in the unescaped password leaves the DSN pgx parses without
  credentials (an \<open>@\<close> is harmless, lemma \<open>pg_dsn_at_parsed\<close>); \<open>New\<close> leaves
  nothing it cannot release exactly when it fails at its first step or succeeds. The
  library lemma \<open>client_ip_of_join\<close> gives the client IP round trip through
  \<open>JoinHostPort\<close>/\<open>SplitHostPort\<close>; the \<open>int32\<close> columns of a row wrap (lemma
  \<open>write_rows_sample\<close>).

  \<^bold>\<open>Bounds and termination.\<close> The scenario theorems take the code's constants as
  they are (100 calls per 60 seconds, batches of 1000, a channel of 10000) and hold
  for every number of calls below the 64-bit counter limit of Redis and, for the
  timed runs, every list of delays. The worker's loop after \<open>Close\<close> is the total
  function \<open>drain\<close>, terminating by the measure of the buffered events plus one for
  the final flush; the worker's open-ended loop before \<open>Close\<close> is the relation
  \<open>pipe_step\<close>. Where the worker is run step by step (\<open>recv_n\<close>), the fuel is a
  number of receives, and C28 shows that the number of buffered events plus one is
  enough; \<open>chunks\<close> terminates by the length of the list it splits.

  \<^bold>\<open>Not modelled.\<close> The connections' network behaviour beyond the failure of
  each step; JSON encoding and decoding beyond the \<open>null\<close>/array distinction of
  lists; HTTP routing and the \<open>ServeMux\<close>; DNS wire format, the UDP server's I/O
  (\<open>Start\<close>, \<open>ListenAndServe\<close>) and the parts of the server's default acceptance
  check that look at the response bit and the answer, authority and additional
  counts; a \<open>Scan\<close> error inside the row loops (the columns match the model's
  records); wall-clock time beyond the timestamps and the Redis clock; the SQL schema,
  of which the model assumes from the specification that site names are unique and
  ids serial.
\<close>


section \<open>Well-formed decisions\<close>

text \<open>
  A decision as the front-ends and the telemetry rely on it: never \<open>CHALLENGE\<close> (no
  front-end handles it), and a reason exactly when it blocks (the proxy writes it into
  the 403 body, the DNS responder into its log).
\<close>

definition decision_wf :: "decision \<Rightarrow> bool" where
  "decision_wf dec \<longleftrightarrow> d_action dec \<noteq> ActionChallenge \<and> (d_action dec = ActionBlock \<longleftrightarrow> d_reason dec \<noteq> [])"

section \<open>Properties across components\<close>

text \<open>
  C15. The proxy's \<open>http.NotFound\<close> fallback is dead code: in a store built by the admin
  API from a consistent store, every domain has a target, so \<open>ServeHTTP\<close> never answers
  404, whatever the request, the engine's decision and the transport.
\<close>

theorem no_not_found_after_admin:
  assumes "pg_inv db0" and "db (es s) = admin_run pg_domain_service pg_bot_service db0 ops"
  shows "fst (fst (serve_http env s now dur r)) \<noteq> http_error ''404 page not found'' 404"
proof
  assume "fst (fst (serve_http env s now dur r)) = http_error ''404 page not found'' 404"
  then obtain dec d where "d \<in> set (pg_domains (db (es s)))" and "dom_target_url d = []"
    using serve_http_not_found by blast
  moreover have "pg_inv (db (es s))"
    using assms pg_inv_admin_run by simp
  ultimately show False
    by (auto simp: pg_inv_def list_all_iff)
qed

theorem no_not_found_after_admin_witness:
  "fst (fst (serve_http sample_env
      \<lparr>es = \<lparr>db = admin_run pg_domain_service pg_bot_service sample_pg [CreateDomainOp sample_new_domain, ListDomainsOp],
             rdb = \<lparr>rstore = Mapping.empty, rnow = 0, rfaults = []\<rparr>\<rparr>,
       tel = new_repository [], upstream_log = []\<rparr> 0 0 (sample_request ''shop.example'')))
   \<noteq> http_error ''404 page not found'' 404"
  by (rule no_not_found_after_admin [of sample_pg])
     (simp_all add: pg_inv_def sample_pg_def)


lemma analyze_ip_wf: "analyze_ip s ip d n = (dec, s') \<Longrightarrow> decision_wf dec"
  by (auto simp: analyze_ip_def bot_get_all_def decision_wf_def mk_decision_def Let_def
      split: prod.splits option.splits sum.splits if_splits)

lemma decision_wf_domain [simp]: "decision_wf (dec\<lparr>d_domain := x\<rparr>) = decision_wf dec"
  by (simp add: decision_wf_def)

lemma decision_wf_block [simp]: "decision_wf (mk_decision ActionBlock (c # cs))"
  by (simp add: decision_wf_def mk_decision_def)

text \<open>
  C11. The type of decisions: every decision \<open>AnalyzeIP\<close> returns, and every decision
  \<open>Analyze\<close> returns without error, is \<open>ALLOW\<close> with no reason or \<open>BLOCK\<close> with a
  non-empty reason; \<open>CHALLENGE\<close>, declared in \<open>engine.go\<close>, is never produced.
\<close>

theorem decisions_well_formed:
  "decision_wf (fst (analyze_ip s ip d n))
   \<and> (case fst (analyze s r) of Inl _ \<Rightarrow> True | Inr dec \<Rightarrow> decision_wf dec)"
  using analyze_ip_wf [of s ip d n "fst (analyze_ip s ip d n)" "snd (analyze_ip s ip d n)"]
  by (auto simp: analyze_def domain_get_by_name_def Let_def dest: analyze_ip_wf
      split: prod.splits option.splits sum.splits if_splits)

end
